(* ===== verification/Prelude.thy ===== *)
theory Prelude
  imports Main "HOL-Library.List_Lexorder" "HOL-Library.Sublist"
begin

text \<open>
  Shared vocabulary of the development of \<^verbatim>\<open>src/server.ts\<close>.

  JavaScript strings are sequences of UTF-16 code units. Every string the server
  handles is well formed: header values are byte strings, \<^verbatim>\<open>decodeURI\<close> never produces a
  lone surrogate, \<^verbatim>\<open>Request.text()\<close> decodes UTF-8 with replacement characters, and
  \<^verbatim>\<open>atob\<close> yields code points below 256. Such a string is determined by its sequence of
  Unicode code points, so a JavaScript string is modelled as a list of code points
  (\<open>jstr\<close>), and the operations the server applies to them (\<^verbatim>\<open>trim\<close>,
  \<^verbatim>\<open>split(":")\<close>, \<^verbatim>\<open>===\<close>) act on that list. String literals of the source, all ASCII,
  are written as Isabelle strings and lifted with \<open>js\<close>.

  The theory also holds the whitespace classes of ECMAScript, \<^verbatim>\<open>String.prototype.trim\<close>,
  \<^verbatim>\<open>String.prototype.split\<close> with a one-character separator, the exceptions the server
  can raise, and the list lemmas the components share.
\<close>

named_theorems jstr_simps "evaluation rules for lifted string literals"

type_synonym cp = nat
type_synonym jstr = "cp list"

definition js :: "string \<Rightarrow> jstr" where
  "js s = map of_char s"

text \<open>The exceptions the handler can raise; the server turns each into status 500.\<close>

datatype js_error =
    URIError            \<comment> \<open>thrown by \<^verbatim>\<open>decodeURI\<close> on a malformed escape\<close>
  | InvalidCharacterError \<comment> \<open>thrown by \<^verbatim>\<open>atob\<close> on input that is not base64\<close>

subsection \<open>ECMAScript white space\<close>

text \<open>\<open>LineTerminator\<close> of ECMA-262: LF, CR, LINE SEPARATOR, PARAGRAPH SEPARATOR.\<close>

definition js_line_terminator :: "cp \<Rightarrow> bool" where
  "js_line_terminator c \<longleftrightarrow> c = 0x0A \<or> c = 0x0D \<or> c = 0x2028 \<or> c = 0x2029"

text \<open>
  \<open>WhiteSpace\<close> or \<open>LineTerminator\<close> of ECMA-262: what \<^verbatim>\<open>trim\<close> removes and what the
  regular-expression class \<^verbatim>\<open>\s\<close> matches (TAB, VT, FF, ZWNBSP and the space
  separators of Unicode category Zs, plus the line terminators).
\<close>

definition js_ws :: "cp \<Rightarrow> bool" where
  "js_ws c \<longleftrightarrow> c = 0x09 \<or> c = 0x0B \<or> c = 0x0C \<or> c = 0x20 \<or> c = 0xA0 \<or> c = 0xFEFF
     \<or> c = 0x1680 \<or> (0x2000 \<le> c \<and> c \<le> 0x200A) \<or> c = 0x202F \<or> c = 0x205F \<or> c = 0x3000
     \<or> js_line_terminator c"

subsection \<open>\<^verbatim>\<open>String.prototype.trim\<close>\<close>

definition js_trim :: "jstr \<Rightarrow> jstr" where
  "js_trim s = rev (dropWhile js_ws (rev (dropWhile js_ws s)))"

subsection \<open>\<^verbatim>\<open>String.prototype.split\<close> with a one-character separator\<close>

text \<open>
  \<^verbatim>\<open>s.split(d)\<close> cuts \<open>s\<close> at every occurrence of \<open>d\<close>; the result always has at least one
  piece (\<^verbatim>\<open>"".split(":")\<close> is \<^verbatim>\<open>[""]\<close>).
\<close>

fun js_split :: "cp \<Rightarrow> jstr \<Rightarrow> jstr list" where
  "js_split d [] = [[]]"
| "js_split d (c # cs) =
     (let r = js_split d cs in if c = d then [] # r else (c # hd r) # tl r)"

text \<open>\<^verbatim>\<open>Array.prototype.join(sep)\<close> on an array of strings.\<close>

fun js_join :: "jstr \<Rightarrow> jstr list \<Rightarrow> jstr" where
  "js_join sep [] = []"
| "js_join sep [x] = x"
| "js_join sep (x # y # xs) = x @ sep @ js_join sep (y # xs)"

text \<open>JavaScript array destructuring: an absent element is \<^verbatim>\<open>undefined\<close>, here \<open>None\<close>.\<close>

definition js_nth :: "'a list \<Rightarrow> nat \<Rightarrow> 'a option" where
  "js_nth xs i = (if i < length xs then Some (xs ! i) else None)"

subsection \<open>Lemmas on lifted literals\<close>

lemma js_Nil [simp, jstr_simps]: "js [] = []"
  by (simp add: js_def)

lemma js_Cons [jstr_simps]: "js (c # s) = of_char c # js s"
  by (simp add: js_def)

lemma js_append [simp]: "js (a @ b) = js a @ js b"
  by (simp add: js_def)

lemma length_js [simp]: "length (js s) = length s"
  by (simp add: js_def)

lemma js_below_256: "c \<in> set (js s) \<Longrightarrow> c < 256"
  by (auto simp: js_def)

lemma js_inject [simp]: "js a = js b \<longleftrightarrow> a = b"
proof
  assume "js a = js b"
  then have "map char_of (js a) = map char_of (js b)" by simp
  then show "a = b" by (simp add: js_def comp_def)
qed simp

subsection \<open>Lemmas on white space and trim\<close>

lemma all_set_dropWhile_iff: "(\<forall>x \<in> set (dropWhile P s). P x) \<longleftrightarrow> (\<forall>x \<in> set s. P x)"
  by (induction s) auto

lemma js_trim_empty_iff: "js_trim s = [] \<longleftrightarrow> (\<forall>c \<in> set s. js_ws c)"
  by (simp add: js_trim_def dropWhile_eq_Nil_conv all_set_dropWhile_iff)

lemma js_line_terminator_ws: "js_line_terminator c \<Longrightarrow> js_ws c"
  by (simp add: js_ws_def)

subsection \<open>Lemmas on split\<close>

lemma js_split_not_Nil [simp]: "js_split d s \<noteq> []"
  by (induction s) (auto simp: Let_def)

lemma hd_js_split: "hd (js_split d s) = takeWhile (\<lambda>c. c \<noteq> d) s"
  by (induction s) (auto simp: Let_def)

lemma tl_js_split: "tl (js_split d s) =
  (if d \<in> set s then js_split d (tl (dropWhile (\<lambda>c. c \<noteq> d) s)) else [])"
  by (induction s) (auto simp: Let_def)

text \<open>Joining the pieces with the separator gives the string back.\<close>

lemma js_split_join: "js_join [d] (js_split d s) = s"
proof (induction s)
  case Nil
  then show ?case by simp
next
  case (Cons c cs)
  obtain p ps where r: "js_split d cs = p # ps"
    by (cases "js_split d cs") auto
  with Cons.IH show ?case
    by (cases ps) (auto simp: Let_def)
qed

lemma js_split_no_sep: "d \<notin> set s \<Longrightarrow> js_split d s = [s]"
  by (induction s) (auto simp: Let_def)

lemma js_split_append_sep:
  "d \<notin> set a \<Longrightarrow> js_split d (a @ d # b) = a # js_split d b"
  by (induction a) (auto simp: Let_def)

lemma js_join_Nil_sep [simp]: "js_join [] xs = concat xs"
  by (induction "[] :: jstr" xs rule: js_join.induct) auto

lemma js_nth_0 [simp]: "js_nth (x # xs) 0 = Some x"
  by (simp add: js_nth_def)

lemma js_nth_Suc [simp]: "js_nth (x # xs) (Suc i) = js_nth xs i"
  by (simp add: js_nth_def)

lemma js_nth_Nil [simp]: "js_nth [] i = None"
  by (simp add: js_nth_def)

text \<open>The first two fields of \<^verbatim>\<open>s.split(d)\<close>, as array destructuring reads them.\<close>

lemma js_split_field0: "js_nth (js_split d s) 0 = Some (takeWhile (\<lambda>c. c \<noteq> d) s)"
  using js_split_not_Nil [of d s] hd_js_split [of d s]
  by (cases "js_split d s") auto

lemma js_split_field1_None: "js_nth (js_split d s) 1 = None \<longleftrightarrow> d \<notin> set s"
proof (cases "d \<in> set s")
  case True
  then obtain a b where "s = a @ d # b" "d \<notin> set a"
    by (meson split_list_first)
  then show ?thesis
    using js_split_not_Nil [of d b]
    by (cases "js_split d b") (auto simp: js_split_append_sep js_nth_def)
qed (simp add: js_split_no_sep js_nth_def)

lemma js_split_fields01:
  "js_nth (js_split d s) 0 = Some u \<and> js_nth (js_split d s) 1 = Some p \<longleftrightarrow>
   d \<notin> set u \<and> d \<notin> set p \<and> (s = u @ d # p \<or> (\<exists>r. s = u @ d # p @ d # r))"
proof
  assume fields: "js_nth (js_split d s) 0 = Some u \<and> js_nth (js_split d s) 1 = Some p"
  then have "d \<in> set s"
    using js_split_field1_None [of d s] by auto
  then obtain a b where s: "s = a @ d # b" and a: "d \<notin> set a"
    by (meson split_list_first)
  then have u: "u = a" and p: "js_nth (js_split d b) 0 = Some p"
    using fields by (simp_all add: js_split_append_sep)
  show "d \<notin> set u \<and> d \<notin> set p \<and> (s = u @ d # p \<or> (\<exists>r. s = u @ d # p @ d # r))"
  proof (cases "d \<in> set b")
    case True
    then obtain b1 b2 where "b = b1 @ d # b2" "d \<notin> set b1"
      by (meson split_list_first)
    with p s u a show ?thesis by (auto simp: js_split_append_sep)
  next
    case False
    with p s u a show ?thesis by (simp add: js_split_no_sep)
  qed
next
  assume "d \<notin> set u \<and> d \<notin> set p \<and> (s = u @ d # p \<or> (\<exists>r. s = u @ d # p @ d # r))"
  then show "js_nth (js_split d s) 0 = Some u \<and> js_nth (js_split d s) 1 = Some p"
    by (auto simp: js_split_append_sep js_split_no_sep)
qed

lemma sublist_middle: "sublist x (a @ b @ c @ x @ y)"
  by (metis append_assoc sublist_appendI)

end
