(* ===== verification/Base64.thy ===== *)
theory Base64
  imports Prelude
begin

text \<open>
  \<^verbatim>\<open>atob\<close>, which \<^verbatim>\<open>checkAuthorization\<close> (\<^verbatim>\<open>src/server.ts\<close>, line 202) applies to the
  token of a Basic credential. It is a Web platform function, not code of the
  repository; it is modelled from the WHATWG HTML standard (\<^verbatim>\<open>atob\<close>) and the Infra
  standard (forgiving-base64 decode), step by step:
  \<^enum> remove ASCII white space;
  \<^enum> if the length is a multiple of 4, remove one or two trailing \<^verbatim>\<open>=\<close>;
  \<^enum> fail if the length leaves remainder 1 modulo 4;
  \<^enum> fail on a code point outside the base64 alphabet;
  \<^enum> decode with a bit buffer that emits three bytes per 24 bits and one or two bytes
    from a final 12 or 18 bits.
  Failure makes \<^verbatim>\<open>atob\<close> throw \<^verbatim>\<open>InvalidCharacterError\<close>, here \<open>None\<close>. The bytes are
  returned as a string of code points below 256.

  The buffer loop \<open>b64_loop\<close> is the standard's algorithm; \<open>decode_sextets\<close> decodes
  group by group and is the reference the round trip is proved against.
  \<open>base64_encode\<close> is the RFC 4648 encoder (what \<^verbatim>\<open>btoa\<close> and every browser use for
  Basic credentials).
\<close>

subsection \<open>The alphabet\<close>

text \<open>RFC 4648, table 1: \<^verbatim>\<open>A-Z\<close>, \<^verbatim>\<open>a-z\<close>, \<^verbatim>\<open>0-9\<close>, \<^verbatim>\<open>+\<close>, \<^verbatim>\<open>/\<close> for 0 to 63.\<close>

definition b64_value :: "cp \<Rightarrow> nat option" where
  "b64_value c =
     (if 65 \<le> c \<and> c \<le> 90 then Some (c - 65)
      else if 97 \<le> c \<and> c \<le> 122 then Some (c - 71)
      else if 48 \<le> c \<and> c \<le> 57 then Some (c + 4)
      else if c = 43 then Some 62
      else if c = 47 then Some 63
      else None)"

definition b64_char :: "nat \<Rightarrow> cp" where
  "b64_char i =
     (if i < 26 then 65 + i else if i < 52 then 71 + i else if i < 62 then i - 4
      else if i = 62 then 43 else 47)"

text \<open>ASCII white space of the Infra standard: TAB, LF, FF, CR, SPACE.\<close>

definition ascii_ws :: "cp \<Rightarrow> bool" where
  "ascii_ws c \<longleftrightarrow> c = 0x09 \<or> c = 0x0A \<or> c = 0x0C \<or> c = 0x0D \<or> c = 0x20"

subsection \<open>Forgiving-base64 decode\<close>

text \<open>Step 2: with a length divisible by 4, drop a trailing \<^verbatim>\<open>==\<close> or \<^verbatim>\<open>=\<close>.\<close>

definition strip_padding :: "jstr \<Rightarrow> jstr" where
  "strip_padding d =
     (if length d mod 4 = 0 \<and> d \<noteq> [] \<and> last d = 61
      then (let d' = butlast d in if d' \<noteq> [] \<and> last d' = 61 then butlast d' else d')
      else d)"

text \<open>Step 4: the six-bit values of the code points, or failure.\<close>

fun sextets_of :: "jstr \<Rightarrow> nat list option" where
  "sextets_of [] = Some []"
| "sextets_of (c # cs) =
     (case b64_value c of
        None \<Rightarrow> None
      | Some n \<Rightarrow> (case sextets_of cs of None \<Rightarrow> None | Some ns \<Rightarrow> Some (n # ns)))"

text \<open>
  Step 5, the loop of the standard: \<open>buf\<close> holds \<open>bits\<close> bits; six are appended per
  code point; at 24 bits three bytes are emitted and the buffer emptied; at the end
  12 bits give one byte (the last four discarded) and 18 bits two (the last two
  discarded).
\<close>

fun b64_loop :: "nat list \<Rightarrow> nat \<Rightarrow> nat \<Rightarrow> nat list" where
  "b64_loop [] buf bits =
     (if bits = 12 then [buf div 16]
      else if bits = 18 then [buf div 4 div 256, buf div 4 mod 256]
      else [])"
| "b64_loop (n # ns) buf bits =
     (let buf' = buf * 64 + n; bits' = bits + 6 in
      if bits' = 24 then [buf' div 65536, buf' div 256 mod 256, buf' mod 256] @ b64_loop ns 0 0
      else b64_loop ns buf' bits')"

definition forgiving_base64_decode :: "jstr \<Rightarrow> nat list option" where
  "forgiving_base64_decode s =
     (let d = strip_padding (filter (\<lambda>c. \<not> ascii_ws c) s) in
      if length d mod 4 = 1 then None
      else map_option (\<lambda>ns. b64_loop ns 0 0) (sextets_of d))"

text \<open>\<^verbatim>\<open>atob(data)\<close>: the decoded bytes as a string, \<open>None\<close> where it throws.\<close>

definition atob :: "jstr \<Rightarrow> jstr option" where
  "atob s = forgiving_base64_decode s"

subsection \<open>Group-wise decoding and the encoder\<close>

fun decode_sextets :: "nat list \<Rightarrow> nat list" where
  "decode_sextets (a # b # c # d # r) =
     (let n = ((a * 64 + b) * 64 + c) * 64 + d in
      [n div 65536, n div 256 mod 256, n mod 256] @ decode_sextets r)"
| "decode_sextets [a, b, c] = (let n = (a * 64 + b) * 64 + c in [n div 1024, n div 4 mod 256])"
| "decode_sextets [a, b] = [(a * 64 + b) div 16]"
| "decode_sextets _ = []"

fun enc_sextets :: "nat list \<Rightarrow> nat list" where
  "enc_sextets (x # y # z # r) =
     [x div 4, x mod 4 * 16 + y div 16, y mod 16 * 4 + z div 64, z mod 64] @ enc_sextets r"
| "enc_sextets [x, y] = [x div 4, x mod 4 * 16 + y div 16, y mod 16 * 4]"
| "enc_sextets [x] = [x div 4, x mod 4 * 16]"
| "enc_sextets [] = []"

definition b64_pad :: "nat list \<Rightarrow> nat" where
  "b64_pad bs = (if length bs mod 3 = 1 then 2 else if length bs mod 3 = 2 then 1 else 0)"

definition base64_encode :: "nat list \<Rightarrow> jstr" where
  "base64_encode bs = map b64_char (enc_sextets bs) @ replicate (b64_pad bs) 61"

subsection \<open>Lemmas\<close>

text \<open>The buffer loop of the standard computes the group-wise decoding.\<close>

lemma b64_loop_decode_sextets: "b64_loop ns 0 0 = decode_sextets ns"
  by (induction ns rule: decode_sextets.induct) (simp_all add: Let_def div_mult2_eq)

lemma b64_value_char: "i < 64 \<Longrightarrow> b64_value (b64_char i) = Some i"
  unfolding b64_value_def b64_char_def by auto

lemma b64_char_not_ws: "\<not> ascii_ws (b64_char i)"
  unfolding ascii_ws_def b64_char_def by auto

lemma b64_char_not_pad: "b64_char i \<noteq> 61"
  unfolding b64_char_def by auto

lemma sextets_of_map_char: "\<forall>i \<in> set xs. i < 64 \<Longrightarrow> sextets_of (map b64_char xs) = Some xs"
  by (induction xs) (simp_all add: b64_value_char)

lemma enc_group3:
  fixes x y z :: nat
  shows "((x div 4 * 64 + (x mod 4 * 16 + y div 16)) * 64 + (y mod 16 * 4 + z div 64)) * 64 + z mod 64
         = x * 65536 + y * 256 + z"
proof -
  have poly: "((q1 * 64 + (r1 * 16 + q2)) * 64 + (r2 * 4 + q3)) * 64 + r3
      = (4 * q1 + r1) * 65536 + (16 * q2 + r2) * 256 + (64 * q3 + r3)" for q1 r1 q2 r2 q3 r3 :: nat
    by (simp add: algebra_simps)
  show ?thesis
    using poly [of "x div 4" "x mod 4" "y div 16" "y mod 16" "z div 64" "z mod 64"] by simp
qed

lemma enc_group2:
  fixes x y :: nat
  shows "(x div 4 * 64 + (x mod 4 * 16 + y div 16)) * 64 + y mod 16 * 4 = x * 1024 + y * 4"
proof -
  have poly: "(q1 * 64 + (r1 * 16 + q2)) * 64 + r2 * 4 = (4 * q1 + r1) * 1024 + (16 * q2 + r2) * 4"
    for q1 r1 q2 r2 :: nat
    by (simp add: algebra_simps)
  show ?thesis
    using poly [of "x div 4" "x mod 4" "y div 16" "y mod 16"] by simp
qed

lemma enc_group1:
  fixes x :: nat
  shows "x div 4 * 64 + x mod 4 * 16 = x * 16"
proof -
  have poly: "q1 * 64 + r1 * 16 = (4 * q1 + r1) * 16" for q1 r1 :: nat
    by (simp add: algebra_simps)
  show ?thesis
    using poly [of "x div 4" "x mod 4"] by simp
qed

lemma bytes3_of_sum:
  fixes x y z :: nat
  assumes "y < 256" "z < 256"
  shows "(x * 65536 + y * 256 + z) div 65536 = x"
    and "(x * 65536 + y * 256 + z) div 256 mod 256 = y"
    and "(x * 65536 + y * 256 + z) mod 256 = z"
proof -
  have "y * 256 + z < 65536" using assms by linarith
  then show "(x * 65536 + y * 256 + z) div 65536 = x"
    by (simp add: add.assoc)
  have "(x * 65536 + y * 256 + z) div 256 = x * 256 + y"
    using assms by (simp add: add.assoc)
  then show "(x * 65536 + y * 256 + z) div 256 mod 256 = y"
    using assms by simp
  have "x * 65536 + y * 256 + z = z + (x * 256 + y) * 256" by simp
  then show "(x * 65536 + y * 256 + z) mod 256 = z"
    using assms by (metis mod_less mod_mult_self1)
qed

lemma bytes2_of_sum:
  fixes x y :: nat
  assumes "y < 256"
  shows "(x * 1024 + y * 4) div 1024 = x"
    and "(x * 1024 + y * 4) div 4 mod 256 = y"
proof -
  have "y * 4 < 1024" using assms by linarith
  then show "(x * 1024 + y * 4) div 1024 = x"
    by simp
  have "(x * 1024 + y * 4) div 4 = y + x * 256" by simp
  then show "(x * 1024 + y * 4) div 4 mod 256 = y"
    using assms by simp
qed

lemma decode_enc_sextets: "\<forall>b \<in> set bs. b < 256 \<Longrightarrow> decode_sextets (enc_sextets bs) = bs"
proof (induction bs rule: enc_sextets.induct)
  case (1 x y z r)
  then have "y < 256" "z < 256" by auto
  then have "decode_sextets (enc_sextets (x # y # z # r)) = [x, y, z] @ decode_sextets (enc_sextets r)"
    by (simp only: enc_sextets.simps append_Cons append_Nil decode_sextets.simps Let_def enc_group3
        bytes3_of_sum)
  with 1 show ?case by simp
next
  case (2 x y)
  then have "y < 256" by auto
  then show ?case
    by (simp only: enc_sextets.simps decode_sextets.simps Let_def enc_group2 bytes2_of_sum)
next
  case (3 x)
  then show ?case by (simp add: enc_group1)
next
  case 4
  then show ?case by simp
qed

lemma enc_sextets_bound: "\<forall>b \<in> set bs. b < 256 \<Longrightarrow> \<forall>i \<in> set (enc_sextets bs). i < 64"
  by (induction bs rule: enc_sextets.induct) auto

lemma b64_pad_Cons3 [simp]: "b64_pad (x # y # z # r) = b64_pad r"
  by (simp add: b64_pad_def)

lemma enc_sextets_length:
  "(length (enc_sextets bs) + b64_pad bs) mod 4 = 0 \<and> b64_pad bs \<le> 2
   \<and> (0 < b64_pad bs \<longrightarrow> enc_sextets bs \<noteq> [])"
  by (induction bs rule: enc_sextets.induct) (auto simp: b64_pad_def)

lemma strip_padding_encoded:
  assumes len: "(length xs + k) mod 4 = 0" and k: "k \<le> 2" and ne: "0 < k \<longrightarrow> xs \<noteq> []"
  shows "strip_padding (map b64_char xs @ replicate k 61) = map b64_char xs"
proof -
  have last_char: "ys \<noteq> [] \<Longrightarrow> last (map b64_char ys) \<noteq> 61" for ys
    by (simp add: last_map b64_char_not_pad)
  consider "k = 0" | "k = 1" | "k = 2" using k by linarith
  then show ?thesis
  proof cases
    case 1
    then show ?thesis
      by (cases "xs = []") (simp_all add: strip_padding_def last_char)
  next
    case 2
    with ne len show ?thesis
      by (simp add: strip_padding_def last_char butlast_append)
  next
    case 3
    with ne len show ?thesis
      by (simp add: strip_padding_def last_char butlast_append numeral_2_eq_2)
  qed
qed

lemma sextet_shift_bound: "p < k \<Longrightarrow> b < (64::nat) \<Longrightarrow> p * 64 + b < k * 64"
  by linarith

lemma decode_sextets_bound: "\<forall>i \<in> set ns. i < 64 \<Longrightarrow> \<forall>c \<in> set (decode_sextets ns). c < 256"
proof (induction ns rule: decode_sextets.induct)
  case (1 a b c d r)
  then have "((a * 64 + b) * 64 + c) * 64 + d < 64 * 64 * 64 * 64"
    by (auto intro!: sextet_shift_bound)
  with 1 show ?case by (auto simp: Let_def)
next
  case (2 a b c)
  then have "(a * 64 + b) * 64 + c < 64 * 64 * 64"
    by (auto intro!: sextet_shift_bound)
  then show ?case by (auto simp: Let_def)
next
  case (3 a b)
  then have "a * 64 + b < 64 * 64"
    by (auto intro!: sextet_shift_bound)
  then show ?case by auto
qed simp_all

lemma sextets_of_bound: "sextets_of d = Some ns \<Longrightarrow> \<forall>i \<in> set ns. i < 64"
proof (induction d arbitrary: ns)
  case (Cons c cs)
  then show ?case
    by (auto simp: b64_value_def split: option.splits if_splits)
qed simp

lemma atob_bytes: "atob s = Some d \<Longrightarrow> \<forall>c \<in> set d. c < 256"
  by (auto simp: atob_def forgiving_base64_decode_def Let_def b64_loop_decode_sextets
      split: if_splits dest!: sextets_of_bound decode_sextets_bound)

lemma forgiving_base64_decode_encode: "\<forall>b \<in> set bs. b < 256 \<Longrightarrow> forgiving_base64_decode (base64_encode bs) = Some bs"
proof -
  assume bytes: "\<forall>b \<in> set bs. b < 256"
  let ?xs = "enc_sextets bs"
  have "\<forall>c \<in> set (base64_encode bs). \<not> ascii_ws c"
    by (auto simp: base64_encode_def b64_char_not_ws, simp add: ascii_ws_def)
  then have nows: "filter (\<lambda>c. \<not> ascii_ws c) (base64_encode bs) = base64_encode bs"
    by (rule filter_True)
  have strip: "strip_padding (base64_encode bs) = map b64_char ?xs"
    using enc_sextets_length [of bs]
    by (simp add: base64_encode_def strip_padding_encoded)
  have "(length ?xs + b64_pad bs) mod 4 = 0" "b64_pad bs \<le> 2"
    using enc_sextets_length [of bs] by auto
  then have mod4: "length ?xs mod 4 \<noteq> 1"
    by presburger
  have sx: "sextets_of (map b64_char ?xs) = Some ?xs"
    using enc_sextets_bound [OF bytes] by (rule sextets_of_map_char)
  show ?thesis
    using mod4 by (simp add: forgiving_base64_decode_def nows strip sx
        b64_loop_decode_sextets decode_enc_sextets [OF bytes])
qed

end
