(* ===== verification/Auth.thy ===== *)
theory Auth
  imports Prelude Base64
begin

text \<open>
  The authenticator: \<^verbatim>\<open>checkAuthorization\<close> of \<^verbatim>\<open>src/server.ts\<close> (lines 198--208).
  It matches the \<^verbatim>\<open>Authorization\<close> header against \<^verbatim>\<open>/^Basic\s+(.*)$/\<close>, decodes the
  captured token with \<^verbatim>\<open>atob\<close> (theory \<open>Base64\<close>), splits the result at every colon and
  compares the first two fields with the environment variables \<^verbatim>\<open>USER\<close> and
  \<^verbatim>\<open>PASSWORD\<close>. \<^verbatim>\<open>atob\<close> throws on a token that is not base64; that exception is the
  \<open>Inl\<close> branch of the result. The lemmas characterise exactly which headers are
  accepted, for every configuration of the two variables.
\<close>

text \<open>The two environment variables, read by \<^verbatim>\<open>Deno.env.get\<close> (\<open>None\<close> when unset).\<close>

record auth_env =
  env_user :: "jstr option"
  env_password :: "jstr option"

text \<open>
  \<^verbatim>\<open>authorization.match(/^Basic\s+(.*)$/)\<close> and its capture group \<^verbatim>\<open>match[1]\<close>. The
  regular expression has no flags: \<^verbatim>\<open>\s\<close> is ECMAScript white space, \<^verbatim>\<open>.\<close> is any code
  unit but a line terminator, \<^verbatim>\<open>$\<close> is the end of the input. The greedy \<^verbatim>\<open>\s+\<close> takes the
  whole run of white space after \<^verbatim>\<open>Basic\<close>; the group is the rest, which matches
  \<^verbatim>\<open>.*$\<close> exactly when it has no line terminator. Backtracking to a shorter run
  cannot help, since the rest then still contains that line terminator.
\<close>

definition match_basic :: "jstr \<Rightarrow> jstr option" where
  "match_basic s =
     (if take 5 s = js ''Basic'' then
        (let r = drop 5 s; t = dropWhile js_ws r in
         if r \<noteq> [] \<and> js_ws (hd r) \<and> \<not> list_ex js_line_terminator t then Some t else None)
      else None)"

text \<open>
  \<^verbatim>\<open>checkAuthorization(authorization)\<close>: \<^verbatim>\<open>const [user, password] = atob(match[1]).split(":")\<close>
  reads the first two fields (the second is \<^verbatim>\<open>undefined\<close> when there is no colon), and
  \<^verbatim>\<open>===\<close> compares them with the variables (\<^verbatim>\<open>undefined\<close> when unset).
\<close>

definition checkAuthorization :: "auth_env \<Rightarrow> jstr \<Rightarrow> js_error + bool" where
  "checkAuthorization env authorization =
     (case match_basic authorization of
        Some token \<Rightarrow>
          (case atob token of
             None \<Rightarrow> Inl InvalidCharacterError
           | Some decoded \<Rightarrow>
               (let parts = js_split 58 decoded; user = js_nth parts 0; password = js_nth parts 1 in
                Inr (env_user env = user \<and> env_password env = password)))
      | None \<Rightarrow> Inr False)"

text \<open>The header a standard client sends: \<^verbatim>\<open>Basic \<close>, then the base64 of \<^verbatim>\<open>user:password\<close>.\<close>

definition basic_header :: "jstr \<Rightarrow> jstr" where
  "basic_header credentials = js ''Basic '' @ base64_encode credentials"

subsection \<open>The regular expression\<close>

lemma match_basic_header:
  assumes "w \<noteq> []" "\<forall>c \<in> set w. js_ws c" "\<forall>c \<in> set t. \<not> js_line_terminator c"
    and "t = [] \<or> \<not> js_ws (hd t)"
  shows "match_basic (js ''Basic'' @ w @ t) = Some t"
proof -
  have "dropWhile js_ws (w @ t) = t"
    using assms(2,4) by (cases t) (auto simp: dropWhile_append1 dropWhile_append2)
  with assms(1-3) show ?thesis
    by (cases w) (auto simp: match_basic_def Let_def list_ex_iff)
qed


lemma match_basic_SomeD:
  assumes "match_basic s = Some t"
  shows "\<exists>w. s = js ''Basic'' @ w @ t \<and> w \<noteq> [] \<and> (\<forall>c \<in> set w. js_ws c)
             \<and> (\<forall>c \<in> set t. \<not> js_line_terminator c)"
proof -
  let ?r = "drop 5 s"
  from assms have h: "take 5 s = js ''Basic''" "t = dropWhile js_ws ?r" "?r \<noteq> []"
    "js_ws (hd ?r)" "\<forall>c \<in> set t. \<not> js_line_terminator c"
    by (auto simp: match_basic_def Let_def list_ex_iff split: if_splits)
  let ?w = "takeWhile js_ws ?r"
  have "s = js ''Basic'' @ ?w @ t"
    using h(1,2) by (metis append_take_drop_id takeWhile_dropWhile_id)
  moreover have "?w \<noteq> []"
    using h(3,4) by (cases ?r) auto
  moreover have "\<forall>c \<in> set ?w. js_ws c"
    by (auto dest: set_takeWhileD)
  ultimately show ?thesis
    using h(5) by blast
qed

subsection \<open>Which headers are accepted\<close>

lemma js_split_fields_opt:
  "Some u = js_nth (js_split d s) 0 \<and> pw = js_nth (js_split d s) 1 \<longleftrightarrow>
   (case pw of
      None \<Rightarrow> s = u \<and> d \<notin> set u
    | Some p \<Rightarrow> d \<notin> set u \<and> d \<notin> set p \<and> (s = u @ d # p \<or> (\<exists>r. s = u @ d # p @ d # r)))"
proof (cases pw)
  case None
  have tw: "d \<notin> set s \<Longrightarrow> takeWhile (\<lambda>c. c \<noteq> d) s = s"
    by (induction s) auto
  have "Some u = js_nth (js_split d s) 0 \<and> None = js_nth (js_split d s) 1 \<longleftrightarrow>
      u = takeWhile (\<lambda>c. c \<noteq> d) s \<and> d \<notin> set s"
    using js_split_field0 [of d s] js_split_field1_None [of d s] by auto
  also have "\<dots> \<longleftrightarrow> s = u \<and> d \<notin> set u"
    by (metis tw)
  finally show ?thesis
    using None by simp
next
  case (Some p)
  then show ?thesis
    using js_split_fields01 [of d s u p] by auto
qed

lemma checkAuthorization_True_iff:
  "checkAuthorization env a = Inr True \<longleftrightarrow>
   (\<exists>token d u. match_basic a = Some token \<and> atob token = Some d \<and> env_user env = Some u
      \<and> (case env_password env of
           None \<Rightarrow> d = u \<and> 58 \<notin> set u
         | Some p \<Rightarrow> 58 \<notin> set u \<and> 58 \<notin> set p
                     \<and> (d = u @ 58 # p \<or> (\<exists>r. d = u @ 58 # p @ 58 # r))))"
proof -
  have "checkAuthorization env a = Inr True \<longleftrightarrow>
    (\<exists>token d. match_basic a = Some token \<and> atob token = Some d
       \<and> env_user env = js_nth (js_split 58 d) 0 \<and> env_password env = js_nth (js_split 58 d) 1)"
    by (auto simp: checkAuthorization_def Let_def split: option.splits)
  also have "\<dots> \<longleftrightarrow> (\<exists>token d u. match_basic a = Some token \<and> atob token = Some d
       \<and> env_user env = Some u \<and> Some u = js_nth (js_split 58 d) 0
       \<and> env_password env = js_nth (js_split 58 d) 1)"
    by (auto simp: js_split_field0)
  finally show ?thesis
    by (simp only: js_split_fields_opt)
qed


lemma base64_encode_not_ws: "c \<in> set (base64_encode bs) \<Longrightarrow> \<not> js_ws c"
  unfolding base64_encode_def js_ws_def js_line_terminator_def b64_char_def
  by (auto split: if_splits)

lemma match_basic_basic_header: "match_basic (basic_header cred) = Some (base64_encode cred)"
proof -
  have "basic_header cred = js ''Basic'' @ [32] @ base64_encode cred"
    by (simp add: basic_header_def js_def)
  moreover have "match_basic (js ''Basic'' @ [32] @ base64_encode cred) = Some (base64_encode cred)"
  proof (rule match_basic_header)
    show "\<forall>c \<in> set (base64_encode cred). \<not> js_line_terminator c"
      using base64_encode_not_ws js_line_terminator_ws by blast
    show "base64_encode cred = [] \<or> \<not> js_ws (hd (base64_encode cred))"
      using base64_encode_not_ws hd_in_set by blast
  qed (simp_all add: js_ws_def)
  ultimately show ?thesis by simp
qed

lemma atob_basic_header_token:
  "\<forall>c \<in> set cred. c < 256 \<Longrightarrow> atob (base64_encode cred) = Some cred"
  unfolding atob_def by (rule forgiving_base64_decode_encode)

lemma accepted_user_prefix:
  assumes "checkAuthorization env a = Inr True"
  shows "\<exists>token d u. match_basic a = Some token \<and> atob token = Some d
    \<and> env_user env = Some u \<and> set u \<subseteq> set d"
  using assms unfolding checkAuthorization_True_iff
  by (auto split: option.splits)

subsection \<open>Properties\<close>

text \<open>
  C8 (functional): a standard client is let in: with \<^verbatim>\<open>USER\<close> and
  \<^verbatim>\<open>PASSWORD\<close> set to colon-free Latin-1 strings, the header \<^verbatim>\<open>Basic base64(USER:PASSWORD)\<close>
  makes \<^verbatim>\<open>checkAuthorization\<close> return true.
\<close>

theorem checkAuthorization_standard_client:
  assumes "58 \<notin> set u" "58 \<notin> set p" "\<forall>c \<in> set (u @ 58 # p). c < 256"
  shows "checkAuthorization \<lparr>env_user = Some u, env_password = Some p\<rparr> (basic_header (u @ 58 # p))
         = Inr True"
  using assms by (auto simp: checkAuthorization_True_iff match_basic_basic_header
      atob_basic_header_token)

theorem checkAuthorization_standard_client_witness:
  "58 \<notin> set [97, 98::nat] \<and> 58 \<notin> set [120::nat] \<and>
   checkAuthorization \<lparr>env_user = Some [97, 98], env_password = Some [120]\<rparr>
     (basic_header [97, 98, 58, 120]) = Inr True"
  using checkAuthorization_standard_client [of "[97, 98]" "[120]"] by simp

text \<open>
  C1 (safety): with both variables set, a header is accepted only if it has the
  form \<^verbatim>\<open>Basic <token>\<close> and the token decodes to \<^verbatim>\<open>USER:PASSWORD\<close>, or to
  \<^verbatim>\<open>USER:PASSWORD:\<close> followed by anything.
\<close>

theorem checkAuthorization_accepts_only:
  assumes "checkAuthorization \<lparr>env_user = Some u, env_password = Some p\<rparr> a = Inr True"
  shows "\<exists>token. match_basic a = Some token
     \<and> (atob token = Some (u @ 58 # p) \<or> (\<exists>r. atob token = Some (u @ 58 # p @ 58 # r)))"
  using assms by (auto simp: checkAuthorization_True_iff)

theorem checkAuthorization_accepts_only_witness:
  "checkAuthorization \<lparr>env_user = Some [97, 98], env_password = Some [120]\<rparr> (js ''Basic YWI6eA=='')
     = Inr True \<and>
   (\<exists>token. match_basic (js ''Basic YWI6eA=='') = Some token
     \<and> (atob token = Some ([97, 98] @ 58 # [120]) \<or> (\<exists>r. atob token = Some ([97, 98] @ 58 # [120] @ 58 # r))))"
proof -
  have acc: "checkAuthorization \<lparr>env_user = Some [97, 98], env_password = Some [120]\<rparr> (js ''Basic YWI6eA=='')
     = Inr True"
    by (simp add: checkAuthorization_def match_basic_def atob_def forgiving_base64_decode_def
        strip_padding_def b64_value_def js_ws_def js_line_terminator_def ascii_ws_def Let_def
        jstr_simps js_nth_def)
  show ?thesis
    using acc checkAuthorization_accepts_only [OF acc] by simp
qed

text \<open>
  C16 (error): a configured \<^verbatim>\<open>PASSWORD\<close> that contains a colon can never be
  entered: \<^verbatim>\<open>split(":")\<close> cuts the decoded credentials at every colon, so the second field
  never contains one. The spec says the credentials are split at the first colon.
\<close>

theorem checkAuthorization_colon_password:
  assumes "58 \<in> set p"
  shows "checkAuthorization \<lparr>env_user = eu, env_password = Some p\<rparr> a \<noteq> Inr True"
  using assms by (auto simp: checkAuthorization_True_iff)

theorem checkAuthorization_colon_password_witness:
  "58 \<in> set [112, 58, 113::nat] \<and>
   checkAuthorization \<lparr>env_user = Some [117], env_password = Some [112, 58, 113]\<rparr>
     (basic_header [117, 58, 112, 58, 113]) \<noteq> Inr True"
  using checkAuthorization_colon_password [of "[112, 58, 113]" "Some [117]"] by simp

text \<open>
  C17 (functional): a decoded token with a third field is accepted too:
  \<^verbatim>\<open>Basic base64(USER:PASSWORD:anything)\<close> is let in, because destructuring ignores
  every field after the second.
\<close>

theorem checkAuthorization_extra_field:
  assumes "58 \<notin> set u" "58 \<notin> set p" "\<forall>c \<in> set (u @ 58 # p @ 58 # r). c < 256"
  shows "checkAuthorization \<lparr>env_user = Some u, env_password = Some p\<rparr>
           (basic_header (u @ 58 # p @ 58 # r)) = Inr True"
  using assms by (auto simp: checkAuthorization_True_iff match_basic_basic_header
      atob_basic_header_token)

theorem checkAuthorization_extra_field_witness:
  "58 \<notin> set [97::nat] \<and> 58 \<notin> set [98::nat] \<and>
   checkAuthorization \<lparr>env_user = Some [97], env_password = Some [98]\<rparr>
     (basic_header [97, 58, 98, 58, 122]) = Inr True"
  using checkAuthorization_extra_field [of "[97]" "[98]" "[122]"] by simp

text \<open>
  C18 (safety): with \<^verbatim>\<open>PASSWORD\<close> unset, the header \<^verbatim>\<open>Basic base64(USER)\<close>
  (no colon, no password) is accepted: both sides of \<^verbatim>\<open>Deno.env.get("PASSWORD") === password\<close>
  are \<^verbatim>\<open>undefined\<close>. The spec says a missing configured secret rejects every request.
\<close>

theorem checkAuthorization_password_unset:
  assumes "58 \<notin> set u" "\<forall>c \<in> set u. c < 256"
  shows "checkAuthorization \<lparr>env_user = Some u, env_password = None\<rparr> (basic_header u) = Inr True"
  using assms by (auto simp: checkAuthorization_True_iff match_basic_basic_header
      atob_basic_header_token)

theorem checkAuthorization_password_unset_witness:
  "58 \<notin> set [114, 111, 111, 116::nat] \<and>
   checkAuthorization \<lparr>env_user = Some [114, 111, 111, 116], env_password = None\<rparr>
     (basic_header [114, 111, 111, 116]) = Inr True"
  using checkAuthorization_password_unset [of "[114, 111, 111, 116]"] by simp

text \<open>
  C19 (bounds): \<^verbatim>\<open>atob\<close> yields code points below 256 (bytes), and the server
  compares them with \<^verbatim>\<open>USER\<close> without decoding UTF-8: a \<^verbatim>\<open>USER\<close> with a character
  beyond Latin-1 can never log in.
\<close>

theorem checkAuthorization_latin1_user:
  assumes "c \<in> set u" "256 \<le> c"
  shows "checkAuthorization \<lparr>env_user = Some u, env_password = pw\<rparr> a \<noteq> Inr True"
proof
  assume "checkAuthorization \<lparr>env_user = Some u, env_password = pw\<rparr> a = Inr True"
  then obtain token d where "atob token = Some d" "set u \<subseteq> set d"
    using accepted_user_prefix by fastforce
  with assms show False
    using atob_bytes by fastforce
qed

theorem checkAuthorization_latin1_user_witness:
  "(955::nat) \<in> set [955] \<and> 256 \<le> (955::nat) \<and>
   checkAuthorization \<lparr>env_user = Some [955], env_password = None\<rparr> (basic_header [206, 187]) \<noteq> Inr True"
  using checkAuthorization_latin1_user [of 955 "[955]" None] by simp


end
