(* ===== verification/URI.thy ===== *)
theory URI
  imports Prelude
begin

text \<open>
  \<^verbatim>\<open>decodeURI\<close>, which the handler applies to the \<^verbatim>\<open>:id\<close> segment of a note's path
  (\<^verbatim>\<open>src/server.ts\<close>, line 39). It is an ECMAScript built-in, modelled from ECMA-262
  (\<open>Decode(string, reservedSet)\<close> with the reserved set \<^verbatim>\<open>;/?:@&=+$,#\<close>): every
  \<^verbatim>\<open>%XY\<close> escape is decoded, a multi-byte UTF-8 sequence of escapes becomes one code
  point, an escape of a reserved ASCII character is kept as it is, and any malformed
  escape or invalid UTF-8 throws \<^verbatim>\<open>URIError\<close> (here \<open>None\<close>).

  The theory also holds UTF-8 encoding and the WHATWG \<open>UTF-8 percent-encode\<close> step of
  the URL parser, which is how a browser turns the note name typed into the list page
  into the request path the server decodes.
\<close>

subsection \<open>Hexadecimal escapes\<close>

definition hex_digit_value :: "cp \<Rightarrow> nat option" where
  "hex_digit_value c =
     (if 48 \<le> c \<and> c \<le> 57 then Some (c - 48)
      else if 65 \<le> c \<and> c \<le> 70 then Some (c - 55)
      else if 97 \<le> c \<and> c \<le> 102 then Some (c - 87)
      else None)"

text \<open>\<open>ParseHexOctet\<close>: two hexadecimal digits, either case.\<close>

definition parse_hex_octet :: "cp \<Rightarrow> cp \<Rightarrow> nat option" where
  "parse_hex_octet h l =
     (case hex_digit_value h of
        None \<Rightarrow> None
      | Some a \<Rightarrow> (case hex_digit_value l of None \<Rightarrow> None | Some b \<Rightarrow> Some (a * 16 + b)))"

text \<open>The number of leading 1 bits of an octet, read off its range.\<close>

definition octet_leading_ones :: "nat \<Rightarrow> nat" where
  "octet_leading_ones b =
     (if b < 0x80 then 0 else if b < 0xC0 then 1 else if b < 0xE0 then 2 else if b < 0xF0 then 3
      else if b < 0xF8 then 4 else if b < 0xFC then 5 else if b < 0xFE then 6 else if b < 0xFF then 7
      else 8)"

text \<open>The reserved set of \<^verbatim>\<open>decodeURI\<close>: \<^verbatim>\<open>; / ? : @ & = + $ , #\<close>.\<close>

definition uri_reserved :: "cp \<Rightarrow> bool" where
  "uri_reserved c \<longleftrightarrow> c \<in> set (js '';/?:@&=+$,#'')"

subsection \<open>UTF-8\<close>

text \<open>A continuation byte \<^verbatim>\<open>10xxxxxx\<close> adds six bits.\<close>

fun utf8_continue :: "nat \<Rightarrow> nat list \<Rightarrow> nat option" where
  "utf8_continue v [] = Some v"
| "utf8_continue v (b # bs) =
     (if b div 64 = 2 then utf8_continue (v * 64 + b mod 64) bs else None)"

definition is_surrogate :: "nat \<Rightarrow> bool" where
  "is_surrogate v \<longleftrightarrow> 0xD800 \<le> v \<and> v \<le> 0xDFFF"

definition scalar_value :: "nat \<Rightarrow> bool" where
  "scalar_value v \<longleftrightarrow> v \<le> 0x10FFFF \<and> \<not> is_surrogate v"

text \<open>
  A valid UTF-8 encoding (RFC 3629) of one code point of two to four bytes: the lead
  byte's pattern fixes the length, every other byte is a continuation byte, the value
  is not overlong for its length, not a surrogate and at most \<^verbatim>\<open>U+10FFFF\<close>.
\<close>

definition utf8_decode :: "nat list \<Rightarrow> nat option" where
  "utf8_decode os =
     (case os of
        [] \<Rightarrow> None
      | b0 # bs \<Rightarrow>
          (let n = length os;
               lead = (if n = 2 \<and> b0 div 32 = 6 then Some (b0 mod 32, 0x80)
                       else if n = 3 \<and> b0 div 16 = 14 then Some (b0 mod 16, 0x800)
                       else if n = 4 \<and> b0 div 8 = 30 then Some (b0 mod 8, 0x10000)
                       else None)
           in case lead of
                None \<Rightarrow> None
              | Some (v0, least) \<Rightarrow>
                  (case utf8_continue v0 bs of
                     None \<Rightarrow> None
                   | Some v \<Rightarrow> if least \<le> v \<and> scalar_value v then Some v else None)))"

definition utf8_encode :: "nat \<Rightarrow> nat list" where
  "utf8_encode v =
     (if v < 0x80 then [v]
      else if v < 0x800 then [0xC0 + v div 64, 0x80 + v mod 64]
      else if v < 0x10000 then [0xE0 + v div 4096, 0x80 + v div 64 mod 64, 0x80 + v mod 64]
      else [0xF0 + v div 262144, 0x80 + v div 4096 mod 64, 0x80 + v div 64 mod 64,
            0x80 + v mod 64])"

subsection \<open>\<^verbatim>\<open>decodeURI\<close>\<close>

text \<open>The \<open>m\<close> escapes \<^verbatim>\<open>%XY\<close> that must follow a lead byte, as octets.\<close>

fun take_escapes :: "nat \<Rightarrow> jstr \<Rightarrow> nat list option" where
  "take_escapes 0 s = Some []"
| "take_escapes (Suc m) (p # h # l # rest) =
     (if p = 37 then
        (case parse_hex_octet h l of
           None \<Rightarrow> None
         | Some b \<Rightarrow> map_option (Cons b) (take_escapes m rest))
      else None)"
| "take_escapes (Suc m) _ = None"

function decodeURI :: "jstr \<Rightarrow> jstr option" where
  "decodeURI [] = Some []"
| "decodeURI (c # cs) =
     (if c \<noteq> 37 then map_option (Cons c) (decodeURI cs)
      else
        (case cs of
           h # l # rest \<Rightarrow>
             (case parse_hex_octet h l of
                None \<Rightarrow> None
              | Some b \<Rightarrow>
                  (let n = octet_leading_ones b in
                   if n = 0 then
                     map_option ((@) (if uri_reserved b then [37, h, l] else [b])) (decodeURI rest)
                   else if n = 1 \<or> 4 < n then None
                   else
                     (case take_escapes (n - 1) rest of
                        None \<Rightarrow> None
                      | Some conts \<Rightarrow>
                          (case utf8_decode (b # conts) of
                             None \<Rightarrow> None
                           | Some v \<Rightarrow> map_option (Cons v) (decodeURI (drop (3 * (n - 1)) rest))))))
         | _ \<Rightarrow> None))"
  by pat_completeness auto
termination
  by (relation "measure length") auto

subsection \<open>Percent-encoding\<close>

definition hex_upper :: "nat \<Rightarrow> cp" where
  "hex_upper d = (if d < 10 then 48 + d else 55 + d)"

definition percent_byte :: "nat \<Rightarrow> jstr" where
  "percent_byte b = [37, hex_upper (b div 16), hex_upper (b mod 16)]"

text \<open>WHATWG URL, \<open>UTF-8 percent-encode\<close> of each code point in the encode set \<open>P\<close>.\<close>

definition utf8_percent_encode :: "(cp \<Rightarrow> bool) \<Rightarrow> jstr \<Rightarrow> jstr" where
  "utf8_percent_encode P s = concat (map (\<lambda>c. if P c then concat (map percent_byte (utf8_encode c)) else [c]) s)"

subsection \<open>Lemmas\<close>

text \<open>
  A string without \<^verbatim>\<open>%\<close> is its own decoding; UTF-8 decoding inverts UTF-8 encoding;
  and \<^verbatim>\<open>decodeURI\<close> inverts percent-encoding with any encode set that escapes
  \<^verbatim>\<open>%\<close> and no reserved ASCII character.
\<close>

lemma decodeURI_no_percent: "37 \<notin> set s \<Longrightarrow> decodeURI s = Some s"
  by (induction s) auto

lemma hex_upper_value: "d < 16 \<Longrightarrow> hex_digit_value (hex_upper d) = Some d"
  by (auto simp: hex_digit_value_def hex_upper_def)

lemma parse_hex_octet_percent_byte:
  "b < 256 \<Longrightarrow> parse_hex_octet (hex_upper (b div 16)) (hex_upper (b mod 16)) = Some b"
  by (simp add: parse_hex_octet_def hex_upper_value less_mult_imp_div_less)

lemma utf8_encode_bytes: "scalar_value v \<Longrightarrow> \<forall>b \<in> set (utf8_encode v). b < 256"
  by (auto simp: utf8_encode_def scalar_value_def)

lemma take_escapes_percent:
  "\<forall>b \<in> set bs. b < 256 \<Longrightarrow> take_escapes (length bs) (concat (map percent_byte bs) @ rest) = Some bs"
  by (induction bs) (simp_all add: percent_byte_def parse_hex_octet_percent_byte)

lemma length_percent_bytes: "length (concat (map percent_byte bs)) = 3 * length bs"
  by (induction bs) (simp_all add: percent_byte_def)

lemma lead_split:
  fixes k m q :: nat
  assumes "q < k"
  shows "(k * m + q) div k = m" "(k * m + q) mod k = q"
  using assms by simp_all

lemma utf8_continue_Cons:
  "b div 64 = 2 \<Longrightarrow> utf8_continue v (b # bs) = utf8_continue (v * 64 + b mod 64) bs"
  by simp

lemma cont_byte: "(128 + x mod 64) div 64 = 2" "(128 + x mod 64) mod 64 = x mod (64::nat)"
  using lead_split [of "x mod 64" 64 2] by simp_all

lemma recombine_64:
  fixes v :: nat
  shows "v div 4096 * 64 + v div 64 mod 64 = v div 64"
    and "v div 262144 * 64 + v div 4096 mod 64 = v div 4096"
proof -
  have "v div 4096 = v div 64 div 64" "v div 262144 = v div 4096 div 64"
    by (simp_all add: div_mult2_eq [symmetric])
  then show "v div 4096 * 64 + v div 64 mod 64 = v div 64"
    and "v div 262144 * 64 + v div 4096 mod 64 = v div 4096"
    by simp_all
qed

lemma utf8_roundtrip:
  assumes v: "scalar_value v" "0x80 \<le> v"
  shows "utf8_decode (utf8_encode v) = Some v"
proof -
  consider (two) "v < 0x800" | (three) "0x800 \<le> v" "v < 0x10000" | (four) "0x10000 \<le> v"
    by linarith
  then show ?thesis
  proof cases
    case two
    have "v div 64 < 32" using two by linarith
    then have "(192 + v div 64) div 32 = 6" "(192 + v div 64) mod 32 = v div 64"
      using lead_split [of "v div 64" 32 6] by simp_all
    with v two show ?thesis
      by (simp add: utf8_decode_def utf8_encode_def Let_def cont_byte)
  next
    case three
    have "v div 4096 < 16" using three by linarith
    then have "(224 + v div 4096) div 16 = 14" "(224 + v div 4096) mod 16 = v div 4096"
      using lead_split [of "v div 4096" 16 14] by simp_all
    moreover have "(v div 4096 * 64 + v div 64 mod 64) * 64 + v mod 64 = v"
      by (simp only: recombine_64) simp
    ultimately show ?thesis using v three
      by (simp add: utf8_decode_def utf8_encode_def Let_def cont_byte)
  next
    case four
    have "v div 262144 < 8" using v(1) by (simp add: scalar_value_def) linarith
    then have "(240 + v div 262144) div 8 = 30" "(240 + v div 262144) mod 8 = v div 262144"
      using lead_split [of "v div 262144" 8 30] by simp_all
    moreover have "((v div 262144 * 64 + v div 4096 mod 64) * 64 + v div 64 mod 64) * 64 + v mod 64 = v"
      by (simp only: recombine_64) simp
    ultimately show ?thesis using v four
      by (simp add: utf8_decode_def utf8_encode_def Let_def cont_byte)
  qed
qed


lemma utf8_encode_lead:
  assumes "scalar_value v" "0x80 \<le> v"
  obtains b0 conts where "utf8_encode v = b0 # conts" "octet_leading_ones b0 = Suc (length conts)"
    "2 \<le> Suc (length conts)" "Suc (length conts) \<le> 4"
proof -
  consider (two) "v < 0x800" | (three) "0x800 \<le> v" "v < 0x10000" | (four) "0x10000 \<le> v"
    by linarith
  then show ?thesis
  proof cases
    case two
    then have "2 \<le> v div 64" "v div 64 < 32" using assms(2) by linarith+
    then show ?thesis
      using two assms(2) by (intro that [of "192 + v div 64" "[128 + v mod 64]"])
        (simp_all add: utf8_encode_def octet_leading_ones_def)
  next
    case three
    then have "v div 4096 < 16" by linarith
    then show ?thesis
      using three by (intro that [of "224 + v div 4096" "[128 + v div 64 mod 64, 128 + v mod 64]"])
        (simp_all add: utf8_encode_def octet_leading_ones_def)
  next
    case four
    have "v div 262144 \<le> 4" using assms(1) by (simp add: scalar_value_def) linarith
    then show ?thesis
      using four by (intro that [of "240 + v div 262144"
          "[128 + v div 4096 mod 64, 128 + v div 64 mod 64, 128 + v mod 64]"])
        (simp_all add: utf8_encode_def octet_leading_ones_def)
  qed
qed

lemma append_singleton_fun: "(@) [x] = (#) x"
  by (rule ext) simp

lemma percent_byte_Cons: "percent_byte b @ rest = 37 # hex_upper (b div 16) # hex_upper (b mod 16) # rest"
  by (simp add: percent_byte_def)

lemma decodeURI_encoded_char:
  assumes c: "scalar_value c" "c = 37 \<longrightarrow> P c" "P c \<and> c < 0x80 \<longrightarrow> \<not> uri_reserved c"
  shows "decodeURI ((if P c then concat (map percent_byte (utf8_encode c)) else [c]) @ rest)
         = map_option (Cons c) (decodeURI rest)"
proof (cases "P c")
  case False
  with c show ?thesis by (cases "c = 37") auto
next
  case True
  show ?thesis
  proof (cases "c < 0x80")
    case True
    with \<open>P c\<close> c show ?thesis
      by (simp add: utf8_encode_def percent_byte_Cons parse_hex_octet_percent_byte
          octet_leading_ones_def append_singleton_fun)
  next
    case False
    then have big: "0x80 \<le> c" by simp
    obtain b0 conts where e: "utf8_encode c = b0 # conts" "octet_leading_ones b0 = Suc (length conts)"
      "2 \<le> Suc (length conts)" "Suc (length conts) \<le> 4"
      using utf8_encode_lead [OF c(1) big] by blast
    have bytes: "\<forall>b \<in> set (b0 # conts). b < 256"
      using utf8_encode_bytes [OF c(1)] e(1) by simp
    have dec: "utf8_decode (b0 # conts) = Some c"
      using utf8_roundtrip [OF c(1) big] e(1) by simp
    have "take_escapes (length conts) (concat (map percent_byte conts) @ rest) = Some conts"
      using bytes by (simp add: take_escapes_percent)
    moreover have "conts \<noteq> []" using e(3) by auto
    ultimately show ?thesis using \<open>P c\<close> e bytes dec
      by (simp add: percent_byte_Cons parse_hex_octet_percent_byte length_percent_bytes Let_def)
  qed
qed

lemma decodeURI_percent_encode:
  assumes "\<forall>c \<in> set s. scalar_value c \<and> (c = 37 \<longrightarrow> P c) \<and> (P c \<and> c < 0x80 \<longrightarrow> \<not> uri_reserved c)"
  shows "decodeURI (utf8_percent_encode P s) = Some s"
  using assms
proof (induction s)
  case (Cons c cs)
  then show ?case
    by (simp add: utf8_percent_encode_def decodeURI_encoded_char)
qed (simp add: utf8_percent_encode_def)

lemma utf8_decode_ge: "utf8_decode os = Some v \<Longrightarrow> 0x80 \<le> v"
  by (auto simp: utf8_decode_def Let_def split: list.splits if_splits option.splits)

text \<open>\<^verbatim>\<open>decodeURI\<close> never produces a slash that was not in its input: \<^verbatim>\<open>%2F\<close> is an
  escape of a reserved character and stays as it is, and a multi-byte sequence
  decodes to a code point of at least 0x80.\<close>

lemma utf8_decode_not_slash: "utf8_decode os \<noteq> Some 47"
  using utf8_decode_ge [of os 47] by auto

lemma decodeURI_no_slash: "47 \<notin> set s \<Longrightarrow> decodeURI s = Some t \<Longrightarrow> 47 \<notin> set t"
proof (induction s arbitrary: t rule: decodeURI.induct)
  case (2 c cs)
  show ?case
  proof (cases "c = 37")
    case False
    with "2.prems" "2.IH"(1) show ?thesis by auto
  next
    case True
    then obtain h l rest b where cs: "cs = h # l # rest" and b: "parse_hex_octet h l = Some b"
      using "2.prems"(2) by (auto split: list.splits option.splits)
    have r: "47 \<notin> set rest" "h \<noteq> 47" "l \<noteq> 47" using "2.prems"(1) cs by auto
    show ?thesis
    proof (cases "octet_leading_ones b = 0")
      case z: True
      have "uri_reserved 47" by (simp add: uri_reserved_def js_def)
      have ih: "\<And>t. decodeURI rest = Some t \<Longrightarrow> 47 \<notin> set t"
        using "2.IH"(2) [of h "l # rest" l rest b "octet_leading_ones b"] True cs b z r by simp
      with "2.prems"(2) True cs b z r \<open>uri_reserved 47\<close> show ?thesis
        by (auto simp: Let_def split: if_splits)
    next
      case nz: False
      have d: "47 \<notin> set (drop (3 * (octet_leading_ones b - 1)) rest)" using r(1) by (auto dest: in_set_dropD)
      with "2.prems"(2) True cs b r nz "2.IH"(3) [of h "l # rest" l rest b "octet_leading_ones b"]
      show ?thesis
        by (auto simp: Let_def split: if_splits option.splits simp add: utf8_decode_not_slash)
    qed
  qed
qed simp

end
