(* ===== verification/URL.thy ===== *)
theory URL
  imports URI
begin

text \<open>
  The part of the WHATWG URL parser that runs when the list page's script assigns
  \<^verbatim>\<open>document.location = '/' + name\<close> (\<^verbatim>\<open>src/server.ts\<close>, line 83): the input is a
  path-absolute relative reference, parsed against the page's \<^verbatim>\<open>http\<close> or \<^verbatim>\<open>https\<close>
  URL (a special scheme). The parser
  \<^enum> strips leading and trailing C0 controls and spaces and removes every tab and
    newline;
  \<^enum> in the relative slash state, reads a second \<^verbatim>\<open>/\<close> or \<^verbatim>\<open>\\\<close> as the start of an
    authority (another host); otherwise it keeps the base's host and enters the path
    state;
  \<^enum> in the path state, splits at \<^verbatim>\<open>/\<close> and \<^verbatim>\<open>\\\<close>, stops at \<^verbatim>\<open>?\<close> (query) and
    \<^verbatim>\<open>#\<close> (fragment), removes single-dot segments and lets double-dot segments remove
    the previous one, and UTF-8 percent-encodes every code point of the path
    percent-encode set.
  The result is the URL's pathname, which the browser sends in the request line and
  the server's router reads.
\<close>

text \<open>The path percent-encode set: C0 controls, code points above \<^verbatim>\<open>~\<close>, and
  space \<^verbatim>\<open>" # < > ? ^ ` { }\<close>.\<close>

definition path_percent_encode_set :: "cp \<Rightarrow> bool" where
  "path_percent_encode_set c \<longleftrightarrow> c < 0x20 \<or> 0x7E < c \<or> c \<in> set (js '' \"#<>?^`{}'')"

definition c0_or_space :: "cp \<Rightarrow> bool" where
  "c0_or_space c \<longleftrightarrow> c \<le> 0x20"

definition tab_or_newline :: "cp \<Rightarrow> bool" where
  "tab_or_newline c \<longleftrightarrow> c = 9 \<or> c = 10 \<or> c = 13"

text \<open>The preprocessing of the input.\<close>

definition url_clean :: "jstr \<Rightarrow> jstr" where
  "url_clean s = filter (\<lambda>c. \<not> tab_or_newline c)
     (rev (dropWhile c0_or_space (rev (dropWhile c0_or_space s))))"

text \<open>Single-dot and double-dot segments, compared ASCII case-insensitively.\<close>

definition single_dot :: "jstr \<Rightarrow> bool" where
  "single_dot b \<longleftrightarrow> b \<in> {js ''.'', js ''%2e'', js ''%2E''}"

definition double_dot :: "jstr \<Rightarrow> bool" where
  "double_dot b \<longleftrightarrow> b \<in> {js ''..'', js ''.%2e'', js ''.%2E'', js ''%2e.'', js ''%2E.'',
                         js ''%2e%2e'', js ''%2E%2E'', js ''%2e%2E'', js ''%2E%2e''}"

text \<open>The end of a segment; \<open>last_seg\<close> says the segment is not followed by a slash.\<close>

definition end_segment :: "jstr list \<Rightarrow> jstr \<Rightarrow> bool \<Rightarrow> jstr list" where
  "end_segment path buf last_seg =
     (if double_dot buf then butlast path @ (if last_seg then [[]] else [])
      else if single_dot buf then path @ (if last_seg then [[]] else [])
      else path @ [buf])"

definition path_char_encode :: "cp \<Rightarrow> jstr" where
  "path_char_encode c =
     (if path_percent_encode_set c then concat (map percent_byte (utf8_encode c)) else [c])"

text \<open>The path state, one code point at a time; \<open>?\<close> and \<open>#\<close> end the path.\<close>

fun path_state :: "jstr list \<Rightarrow> jstr \<Rightarrow> jstr \<Rightarrow> jstr list" where
  "path_state path buf [] = end_segment path buf True"
| "path_state path buf (c # cs) =
     (if c = 47 \<or> c = 92 then path_state (end_segment path buf False) [] cs
      else if c = 63 \<or> c = 35 then end_segment path buf True
      else path_state path (buf @ path_char_encode c) cs)"

definition serialize_path :: "jstr list \<Rightarrow> jstr" where
  "serialize_path path = concat (map (Cons 47) path)"

datatype url_target = Same_origin_path jstr | Other_authority

text \<open>Parsing \<open>s\<close>, which starts with \<^verbatim>\<open>/\<close>, against a base URL with a special scheme.\<close>

definition parse_path_absolute :: "jstr \<Rightarrow> url_target option" where
  "parse_path_absolute s =
     (case url_clean s of
        c # rest \<Rightarrow>
          if c = 47 \<or> c = 92 then
            (case rest of
               d # _ \<Rightarrow> if d = 47 \<or> d = 92 then Some Other_authority
                        else Some (Same_origin_path (serialize_path (path_state [] [] rest)))
             | [] \<Rightarrow> Some (Same_origin_path (serialize_path (path_state [] [] rest))))
          else None
      | [] \<Rightarrow> None)"

text \<open>
  The server side: Deno's HTTP server builds \<^verbatim>\<open>req.url\<close> from the scheme, the
  \<^verbatim>\<open>Host\<close> header and the request target, and the \<^verbatim>\<open>URLPattern\<close>s of the router parse
  that absolute URL. For a target in origin form (starting with \<^verbatim>\<open>/\<close>) the host is
  already read, the path start state consumes the first slash, and the path state
  runs on the rest; the pathname is the serialised path. HTTP does not allow
  spaces or control characters in a target, so the preprocessing leaves it as it
  is. Targets of other forms are \<open>None\<close>.
\<close>

definition server_pathname :: "jstr \<Rightarrow> jstr option" where
  "server_pathname target =
     (if target \<noteq> [] \<and> hd target = 47 then Some (serialize_path (path_state [] [] (tl target)))
      else None)"

subsection \<open>Lemmas\<close>

lemma path_state_segment:
  "\<forall>c \<in> set seg. c \<notin> {47, 92, 63, 35} \<Longrightarrow>
   path_state path buf seg = end_segment path (buf @ utf8_percent_encode path_percent_encode_set seg) True"
  by (induction seg arbitrary: buf) (simp_all add: utf8_percent_encode_def path_char_encode_def)

lemma utf8_percent_encode_Cons:
  "utf8_percent_encode P (c # cs) =
     (if P c then concat (map percent_byte (utf8_encode c)) else [c]) @ utf8_percent_encode P cs"
  by (simp add: utf8_percent_encode_def)

lemma utf8_percent_encode_Nil_iff [simp]: "utf8_percent_encode P s = [] \<longleftrightarrow> s = []"
  by (cases s) (auto simp: utf8_percent_encode_def utf8_encode_def percent_byte_def)

lemma utf8_encode_hd:
  "utf8_encode c = hd (utf8_encode c) # tl (utf8_encode c)"
  "c < 0x80 \<Longrightarrow> hd (utf8_encode c) = c"
  "0x80 \<le> c \<Longrightarrow> 0xC0 \<le> hd (utf8_encode c)"
  by (simp_all add: utf8_encode_def)

lemma hex_upper_eq: "hex_upper d = 50 \<Longrightarrow> d = 2" "d < 16 \<Longrightarrow> hex_upper d \<in> {69, 101} \<Longrightarrow> d = 14"
  by (auto simp: hex_upper_def split: if_splits)

text \<open>An encoding that starts with \<^verbatim>\<open>%2E\<close> comes from a literal \<^verbatim>\<open>%\<close>: the only code
  point whose first UTF-8 byte is 0x2E is \<^verbatim>\<open>.\<close> itself.\<close>

lemma encode_starts_2E:
  assumes "\<not> P 46" "utf8_percent_encode P (c # cs) = 37 # 50 # h # r" "h \<in> {69, 101}"
  shows "c = 37"
proof (cases "P c")
  case True
  define b0 where "b0 = hd (utf8_encode c)"
  define bs where "bs = tl (utf8_encode c)"
  have u: "utf8_encode c = b0 # bs" "c < 0x80 \<Longrightarrow> b0 = c" "0x80 \<le> c \<Longrightarrow> 0xC0 \<le> b0"
    unfolding b0_def bs_def using utf8_encode_hd [of c] by simp_all
  from assms(2) True u(1) have "hex_upper (b0 div 16) = 50" "hex_upper (b0 mod 16) = h"
    by (simp_all add: utf8_percent_encode_Cons percent_byte_Cons)
  then have "b0 div 16 = 2" "b0 mod 16 = 14"
    using hex_upper_eq assms(3) by auto
  then have "b0 = 46" using div_mult_mod_eq [of b0 16] by simp
  with u(2,3) have "c = 46" by fastforce
  with True assms(1) show ?thesis by simp
next
  case False
  with assms(2) show ?thesis by (simp add: utf8_percent_encode_Cons)
qed

lemma encode_no_2E:
  "37 \<notin> set s \<Longrightarrow> \<not> P 46 \<Longrightarrow> h \<in> {69, 101} \<Longrightarrow> utf8_percent_encode P s \<noteq> 37 # 50 # h # r"
proof (cases s)
  case (Cons c cs)
  then show "37 \<notin> set s \<Longrightarrow> \<not> P 46 \<Longrightarrow> h \<in> {69, 101} \<Longrightarrow> ?thesis"
    using encode_starts_2E [of P c cs h r] by auto
qed (simp add: utf8_percent_encode_def)

lemma encode_starts_percent: "P c \<Longrightarrow> \<exists>r. utf8_percent_encode P (c # cs) = 37 # r"
  using utf8_encode_hd(1) [of c]
  by (simp add: utf8_percent_encode_Cons) (metis append_Cons concat.simps(2) list.simps(9) percent_byte_Cons)

lemma encode_single: "utf8_percent_encode P s = [x] \<Longrightarrow> x \<noteq> 37 \<Longrightarrow> s = [x]"
proof (cases s)
  case (Cons c cs)
  assume e: "utf8_percent_encode P s = [x]" and x: "x \<noteq> 37"
  show ?thesis
  proof (cases "P c")
    case True
    then show ?thesis using encode_starts_percent [of P c cs, OF True] e x Cons by auto
  next
    case False
    then show ?thesis using e Cons by (simp add: utf8_percent_encode_Cons)
  qed
qed (simp add: utf8_percent_encode_def)

text \<open>Without a literal \<^verbatim>\<open>%\<close>, only the names \<^verbatim>\<open>.\<close> and \<^verbatim>\<open>..\<close> encode to dot segments.\<close>

lemma encode_not_dot:
  assumes "37 \<notin> set s" "\<not> P 46" "s \<noteq> js ''.''" "s \<noteq> js ''..''"
  shows "\<not> single_dot (utf8_percent_encode P s) \<and> \<not> double_dot (utf8_percent_encode P s)"
proof (cases s)
  case Nil
  then show ?thesis by (simp add: single_dot_def double_dot_def utf8_percent_encode_def js_def)
next
  case (Cons c cs)
  have no2E: "utf8_percent_encode P s \<noteq> 37 # 50 # h # r" "utf8_percent_encode P cs \<noteq> 37 # 50 # h # r"
    if "h \<in> {69, 101}" for h r
    using assms(1,2) that Cons encode_no_2E [of s P h r] encode_no_2E [of cs P h r] by auto
  show ?thesis
  proof (cases "P c")
    case True
    obtain r where r: "utf8_percent_encode P s = 37 # r"
      using encode_starts_percent [of P c cs, OF True] Cons by auto
    then show ?thesis
      using no2E(1) by (auto simp: single_dot_def double_dot_def js_def)
  next
    case False
    then have e: "utf8_percent_encode P s = c # utf8_percent_encode P cs"
      using Cons by (simp add: utf8_percent_encode_Cons)
    have "c = 46 \<Longrightarrow> utf8_percent_encode P cs \<noteq> [46]"
      using encode_single [of P cs 46] assms(4) Cons by (auto simp: js_def)
    moreover have "c = 46 \<Longrightarrow> utf8_percent_encode P cs \<noteq> []"
      using assms(3) Cons by (auto simp: js_def)
    ultimately show ?thesis
    proof (cases "c = 46")
      case False
      with e assms(1) Cons show ?thesis by (auto simp: single_dot_def double_dot_def js_def)
    qed (use e no2E(2) in \<open>auto simp: single_dot_def double_dot_def js_def\<close>)
  qed
qed

lemma dot_not_encoded: "\<not> path_percent_encode_set 46"
  by (simp add: path_percent_encode_set_def js_def)

definition plain_note_name :: "jstr \<Rightarrow> bool" where
  "plain_note_name name \<longleftrightarrow> name \<noteq> [] \<and> \<not> c0_or_space (hd name) \<and> \<not> c0_or_space (last name)
     \<and> list_all (\<lambda>c. \<not> tab_or_newline c \<and> c \<notin> {47, 92, 63, 35, 37}) name
     \<and> name \<noteq> js ''.'' \<and> name \<noteq> js ''..''"

lemma dropWhile_rev_snoc:
  assumes "s \<noteq> []" "\<not> P (last s)"
  shows "dropWhile P (rev s @ [x]) = rev s @ [x]"
proof -
  obtain a l where r: "rev s = a # l" using assms(1) by (cases "rev s") auto
  have "a = last s"
    using r by (metis hd_rev list.sel(1))
  then show ?thesis using assms(2) by (simp add: r)
qed

lemma url_clean_plain:
  assumes "plain_note_name name"
  shows "url_clean (47 # name) = 47 # name"
proof -
  from assms have ne: "name \<noteq> []" and l: "\<not> c0_or_space (last name)"
    and nl: "\<forall>c \<in> set name. \<not> tab_or_newline c"
    by (auto simp: plain_note_name_def list_all_iff)
  have "dropWhile c0_or_space (rev name @ [47]) = rev name @ [47]"
    using ne l by (rule dropWhile_rev_snoc)
  with nl show ?thesis
    by (simp add: url_clean_def c0_or_space_def tab_or_newline_def filter_id_conv)
qed

lemma parse_plain_name:
  assumes "plain_note_name name"
  shows "parse_path_absolute (47 # name) =
    Some (Same_origin_path (47 # utf8_percent_encode path_percent_encode_set name))"
proof -
  from assms have ne: "name \<noteq> []" and h: "hd name \<notin> {47, 92}"
    and seg: "\<forall>c \<in> set name. c \<notin> {47, 92, 63, 35}" and pct: "37 \<notin> set name"
    and dots: "name \<noteq> js ''.''" "name \<noteq> js ''..''"
    by (auto simp: plain_note_name_def list_all_iff)
  have nd: "\<not> single_dot (utf8_percent_encode path_percent_encode_set name)"
      "\<not> double_dot (utf8_percent_encode path_percent_encode_set name)"
    using encode_not_dot [of name path_percent_encode_set, OF pct dot_not_encoded dots] by simp_all
  obtain d ds where name: "name = d # ds" using ne by (cases name) auto
  have ps: "path_state [] [] name = [utf8_percent_encode path_percent_encode_set name]"
    using nd by (simp add: path_state_segment [OF seg] end_segment_def)
  show ?thesis
    using url_clean_plain [OF assms] h ps
    by (simp add: parse_path_absolute_def serialize_path_def name del: path_state.simps)
qed

end
