(* ===== verification/Router.thy ===== *)
theory Router
  imports URL
begin

text \<open>
  The router of \<^verbatim>\<open>src/server.ts\<close> (lines 3--6): two \<^verbatim>\<open>URLPattern\<close>s that constrain
  only the pathname, \<^verbatim>\<open>home\<close> with \<^verbatim>\<open>"/"\<close> and \<^verbatim>\<open>note\<close> with \<^verbatim>\<open>"/:id"\<close>. Every other URL
  component of such a pattern is the wildcard, so \<^verbatim>\<open>test(req.url)\<close> and
  \<^verbatim>\<open>exec(req.url)\<close> depend only on the pathname of the request URL, which the WHATWG URL
  parser has already percent-encoded and normalised. The pattern \<^verbatim>\<open>"/:id"\<close> compiles to
  \<^verbatim>\<open>^\/([^\/]+?)$\<close>: a slash, then a non-empty segment without a slash, which is the group
  \<^verbatim>\<open>id\<close> (still percent-encoded).
\<close>

text \<open>\<^verbatim>\<open>routes.home.test(req.url)\<close>.\<close>

definition home_test :: "jstr \<Rightarrow> bool" where
  "home_test pathname \<longleftrightarrow> pathname = [47]"

text \<open>\<^verbatim>\<open>routes.note.exec(req.url)\<close>, reduced to \<^verbatim>\<open>route.pathname.groups.id\<close>; \<open>None\<close> is
  \<^verbatim>\<open>null\<close> (no match).\<close>

definition note_exec :: "jstr \<Rightarrow> jstr option" where
  "note_exec pathname =
     (if pathname \<noteq> [] \<and> hd pathname = 47 \<and> tl pathname \<noteq> [] \<and> 47 \<notin> set (tl pathname)
      then Some (tl pathname) else None)"

text \<open>The tests as the handler writes them, on \<^verbatim>\<open>req.url\<close>: the patterns see the
  pathname that the URL parser makes of the request target (lines 23 and 36).\<close>

definition route_home :: "jstr \<Rightarrow> bool" where
  "route_home target = (case server_pathname target of Some p \<Rightarrow> home_test p | None \<Rightarrow> False)"

definition route_note :: "jstr \<Rightarrow> jstr option" where
  "route_note target = (case server_pathname target of Some p \<Rightarrow> note_exec p | None \<Rightarrow> None)"

lemma note_exec_Some_iff: "note_exec p = Some seg \<longleftrightarrow> p = 47 # seg \<and> seg \<noteq> [] \<and> 47 \<notin> set seg"
  by (cases p) (auto simp: note_exec_def)

lemma home_not_note: "home_test p \<Longrightarrow> note_exec p = None"
  by (simp add: home_test_def note_exec_def)

lemma note_exec_segment [simp]:
  "seg \<noteq> [] \<Longrightarrow> 47 \<notin> set seg \<Longrightarrow> note_exec (47 # seg) = Some seg"
  by (simp add: note_exec_def)

lemma home_test_segment [simp]: "seg \<noteq> [] \<Longrightarrow> \<not> home_test (47 # seg)"
  by (simp add: home_test_def)

lemma note_exec_two_segments:
  "note_exec (47 # a @ 47 # b) = None"
  by (simp add: note_exec_def)


end
