(* ===== verification/KV.thy ===== *)
theory KV
  imports Prelude
begin

text \<open>
  The key-value store the server opens with \<^verbatim>\<open>Deno.openKv()\<close> (\<^verbatim>\<open>src/server.ts\<close>,
  line 8) and calls with \<^verbatim>\<open>get\<close>, \<^verbatim>\<open>set\<close>, \<^verbatim>\<open>delete\<close> and \<^verbatim>\<open>list({prefix})\<close>. Deno KV is
  an external collaborator; the model follows its documented behaviour. A key is a
  tuple of parts, here strings only (the server uses \<^verbatim>\<open>["notes", id]\<close>); keys are
  ordered by their encoding, which for string parts is the lexicographic order of the
  parts, each compared by code points with a prefix first (the order of
  \<open>HOL-Library.List_Lexorder\<close>). \<^verbatim>\<open>list\<close> returns the entries whose key strictly
  extends the prefix, in ascending key order.

  The store is an association list sorted strictly by key (\<open>kv_inv\<close>). Its abstraction
  is the finite map \<open>map_of\<close>; the lemmas show that every operation implements the
  map operation it stands for, keeps the invariant, and that \<open>kv_list\<close> lists exactly
  the map's entries under the prefix, in key order.
\<close>

type_synonym kv_key = "jstr list"
type_synonym kv_store = "(kv_key \<times> jstr) list"

definition kv_inv :: "kv_store \<Rightarrow> bool" where
  "kv_inv db \<longleftrightarrow> sorted_wrt (<) (map fst db)"

text \<open>\<^verbatim>\<open>(await db.get(key)).value\<close>, \<open>None\<close> for \<^verbatim>\<open>null\<close>.\<close>

fun kv_get :: "kv_store \<Rightarrow> kv_key \<Rightarrow> jstr option" where
  "kv_get [] k = None"
| "kv_get ((k', v) # db) k = (if k = k' then Some v else kv_get db k)"

text \<open>\<^verbatim>\<open>db.set(key, value)\<close>: insert or replace.\<close>

fun kv_set :: "kv_key \<Rightarrow> jstr \<Rightarrow> kv_store \<Rightarrow> kv_store" where
  "kv_set k v [] = [(k, v)]"
| "kv_set k v ((k', v') # db) =
     (if k < k' then (k, v) # (k', v') # db
      else if k = k' then (k, v) # db
      else (k', v') # kv_set k v db)"

text \<open>\<^verbatim>\<open>db.delete(key)\<close>: no effect on an absent key.\<close>

fun kv_delete :: "kv_key \<Rightarrow> kv_store \<Rightarrow> kv_store" where
  "kv_delete k [] = []"
| "kv_delete k ((k', v') # db) = (if k = k' then db else (k', v') # kv_delete k db)"

definition kv_strict_prefix :: "kv_key \<Rightarrow> kv_key \<Rightarrow> bool" where
  "kv_strict_prefix p k \<longleftrightarrow> length p < length k \<and> take (length p) k = p"

text \<open>\<^verbatim>\<open>db.list({ prefix })\<close>, iterated to the end.\<close>

definition kv_list :: "kv_key \<Rightarrow> kv_store \<Rightarrow> (kv_key \<times> jstr) list" where
  "kv_list p db = filter (\<lambda>(k, v). kv_strict_prefix p k) db"

text \<open>
  The iterator that \<^verbatim>\<open>list\<close> returns: each step yields the first entry under the
  prefix whose key lies after the cursor (the key of the entry yielded last, \<open>None\<close>
  before the first step), and ends when there is none.
\<close>

definition kv_after :: "kv_key option \<Rightarrow> kv_key \<Rightarrow> bool" where
  "kv_after cursor k = (case cursor of None \<Rightarrow> True | Some c \<Rightarrow> c < k)"

definition kv_next :: "kv_key \<Rightarrow> kv_key option \<Rightarrow> kv_store \<Rightarrow> (kv_key \<times> jstr) option" where
  "kv_next p cursor db = find (\<lambda>(k, v). kv_strict_prefix p k \<and> kv_after cursor k) db"

subsection \<open>Refinement of a finite map\<close>

lemma kv_get_map_of: "kv_get db k = map_of db k"
  by (induction db) auto

lemma map_of_kv_set: "map_of (kv_set k v db) = (map_of db)(k \<mapsto> v)"
  by (induction db) (auto simp: fun_eq_iff)

lemma kv_set_entries: "(x, y) \<in> set (kv_set k v db) \<Longrightarrow> (x = k \<and> y = v) \<or> (x, y) \<in> set db"
  by (induction db) (auto split: if_splits)

lemma kv_delete_entries: "e \<in> set (kv_delete k db) \<Longrightarrow> e \<in> set db"
  by (induction db) (auto split: if_splits)

lemma kv_inv_Cons: "kv_inv ((k, v) # db) \<longleftrightarrow> (\<forall>(k', v') \<in> set db. k < k') \<and> kv_inv db"
  by (auto simp: kv_inv_def)

lemma kv_inv_set: "kv_inv db \<Longrightarrow> kv_inv (kv_set k v db)"
proof (induction db)
  case (Cons e db)
  obtain k' v' where e: "e = (k', v')" by fastforce
  from Cons.prems e have all: "\<forall>(k'', v'') \<in> set db. k' < k''" and inv: "kv_inv db"
    by (simp_all add: kv_inv_Cons)
  consider "k < k'" | "k = k'" | "k' < k" by fastforce
  then show ?case
  proof cases
    case 1
    with all inv e show ?thesis by (auto simp: kv_inv_Cons)
  next
    case 2
    with all inv e show ?thesis by (auto simp: kv_inv_Cons)
  next
    case 3
    with all Cons.IH [OF inv] e show ?thesis
      by (auto simp: kv_inv_Cons dest!: kv_set_entries)
  qed
qed (simp add: kv_inv_def)

lemma kv_inv_delete: "kv_inv db \<Longrightarrow> kv_inv (kv_delete k db)"
proof (induction db)
  case (Cons e db)
  obtain k' v' where e: "e = (k', v')" by fastforce
  with Cons show ?case
    by (auto simp: kv_inv_Cons dest!: kv_delete_entries)
qed simp

lemma map_of_kv_delete: "kv_inv db \<Longrightarrow> map_of (kv_delete k db) = (map_of db)(k := None)"
proof (induction db)
  case (Cons e db)
  obtain k' v' where e: "e = (k', v')" by fastforce
  from Cons.prems e have "kv_inv db" "k' \<notin> set (map fst db)"
    by (auto simp: kv_inv_def)
  with Cons.IH e show ?case
    by (auto simp: fun_eq_iff map_of_eq_None_iff)
qed simp

lemma kv_set_idem: "kv_set k v (kv_set k v db) = kv_set k v db"
  by (induction db) auto

lemma kv_delete_absent: "map_of db k = None \<Longrightarrow> kv_delete k db = db"
  by (induction db) (auto split: if_splits)

lemma kv_delete_idem: "kv_inv db \<Longrightarrow> kv_delete k (kv_delete k db) = kv_delete k db"
  by (simp add: kv_delete_absent map_of_kv_delete)

lemma kv_inv_Nil [simp]: "kv_inv []"
  by (simp add: kv_inv_def)

lemma kv_list_sorted: "kv_inv db \<Longrightarrow> sorted_wrt (<) (map fst (kv_list p db))"
  by (simp add: kv_inv_def kv_list_def sorted_wrt_map sorted_wrt_filter)

lemma kv_list_entries:
  "kv_inv db \<Longrightarrow> set (kv_list p db) = {(k, v). map_of db k = Some v \<and> kv_strict_prefix p k}"
  by (auto simp: kv_inv_def kv_list_def strict_sorted_iff)

text \<open>A sorted store is determined by the map it represents: \<open>kv_inv\<close> makes the
  representation canonical.\<close>

lemma kv_canonical:
  "kv_inv db \<Longrightarrow> kv_inv db' \<Longrightarrow> map_of db = map_of db' \<Longrightarrow> db = db'"
proof (induction db arbitrary: db')
  case Nil
  have "fst ` set db' = {}"
    using arg_cong [OF Nil.prems(3), of dom] by (simp add: dom_map_of_conv_image_fst)
  then show ?case by simp
next
  case (Cons e db)
  obtain k v where e: "e = (k, v)" by fastforce
  from Cons.prems(3) e obtain k' v' db'' where db': "db' = (k', v') # db''"
    by (cases db') (auto dest: fun_cong [of _ _ k])
  have inv: "kv_inv db" "kv_inv db''" and
    gt: "\<forall>(x, y) \<in> set db. k < x" "\<forall>(x, y) \<in> set db''. k' < x"
    using Cons.prems(1,2) e db' by (simp_all add: kv_inv_Cons)
  have "k = k'"
  proof (rule ccontr)
    assume ne: "k \<noteq> k'"
    have "map_of db' k = Some v" using Cons.prems(3) e by (metis fun_upd_same map_of.simps(2) prod.sel)
    then have "k \<in> fst ` set db''" using ne db' by (auto dest: map_of_SomeD intro: rev_image_eqI)
    moreover have "map_of db k' = Some v'"
      using Cons.prems(3) e db' ne by (metis fun_upd_apply map_of.simps(2) prod.sel)
    then have "k' \<in> fst ` set db" by (auto dest: map_of_SomeD intro: rev_image_eqI)
    ultimately show False using gt by force
  qed
  moreover have "v = v'"
    using Cons.prems(3) e db' \<open>k = k'\<close> by (metis fun_upd_same map_of.simps(2) option.inject prod.sel)
  moreover have "map_of db = map_of db''"
  proof
    fix x
    show "map_of db x = map_of db'' x"
    proof (cases "x = k")
      case True
      have "map_of db k = None" "map_of db'' k = None"
        using gt \<open>k = k'\<close> by (auto simp: map_of_eq_None_iff)
      with True show ?thesis by simp
    next
      case False
      with Cons.prems(3) e db' \<open>k = k'\<close> show ?thesis by (metis fun_upd_other map_of.simps(2) prod.sel)
    qed
  qed
  ultimately show ?case using Cons.IH [OF inv(1) inv(2)] e db' by simp
qed

subsection \<open>The iterator\<close>

lemma kv_next_SomeD:
  "kv_next p c db = Some (k, v) \<Longrightarrow> (k, v) \<in> set db \<and> kv_strict_prefix p k \<and> kv_after c k"
  by (auto simp: kv_next_def find_Some_iff in_set_conv_nth)

lemma kv_after_Some_trans: "kv_after c k \<Longrightarrow> kv_after (Some k) k' \<Longrightarrow> kv_after c k'"
  by (auto simp: kv_after_def split: option.splits)

lemma length_filter_mono_less:
  assumes "\<And>x. P x \<Longrightarrow> Q x" "x \<in> set xs" "Q x" "\<not> P x"
  shows "length (filter P xs) < length (filter Q xs)"
proof -
  have "filter P xs = filter P (filter Q xs)"
    using assms(1) by (simp add: filter_filter) (metis (mono_tags, lifting))
  also have "length \<dots> < length (filter Q xs)"
    using assms(2-4) by (intro length_filter_less) simp_all
  finally show ?thesis .
qed

text \<open>Each step moves the cursor past one more entry of the store.\<close>

lemma kv_next_variant:
  assumes "kv_next p c db = Some (k, v)"
  shows "length (filter (\<lambda>(k', v'). kv_after (Some k) k') db) < length (filter (\<lambda>(k', v'). kv_after c k') db)"
proof -
  from kv_next_SomeD [OF assms] have kv: "(k, v) \<in> set db" "kv_after c k" by simp_all
  show ?thesis
    by (rule length_filter_mono_less [OF _ kv(1)])
       (auto simp: kv(2) kv_after_Some_trans [OF kv(2)], simp add: kv_after_def)
qed

lemma find_SomeD_split:
  "find P xs = Some x \<Longrightarrow> \<exists>us vs. xs = us @ x # vs \<and> (\<forall>u \<in> set us. \<not> P u) \<and> P x"
proof (induction xs)
  case (Cons y xs)
  show ?case
  proof (cases "P y")
    case True
    with Cons.prems show ?thesis by (intro exI [of _ "[]"] exI [of _ xs]) auto
  next
    case False
    with Cons obtain us vs where "xs = us @ x # vs" "\<forall>u \<in> set us. \<not> P u" "P x" by auto
    with False show ?thesis by (intro exI [of _ "y # us"] exI [of _ vs]) auto
  qed
qed simp

text \<open>On a sorted store the step yields the least remaining entry.\<close>

lemma kv_next_sorted:
  assumes "kv_inv db" "kv_next p c db = Some (k, v)"
  shows "filter (\<lambda>(k', v'). kv_strict_prefix p k' \<and> kv_after c k') db
       = (k, v) # filter (\<lambda>(k', v'). kv_strict_prefix p k' \<and> kv_after (Some k) k') db"
proof -
  let ?Q = "\<lambda>(k', v'). kv_strict_prefix p k' \<and> kv_after c k'"
  let ?R = "\<lambda>(k', v'). kv_strict_prefix p k' \<and> kv_after (Some k) k'"
  obtain xs ys where db: "db = xs @ (k, v) # ys" and xs: "\<forall>e \<in> set xs. \<not> ?Q e"
      and q: "?Q (k, v)"
    using find_SomeD_split [OF assms(2) [unfolded kv_next_def]] by blast
  from assms(1) db have less_xs: "\<forall>(k', v') \<in> set xs. k' < k" and less_ys: "\<forall>(k', v') \<in> set ys. k < k'"
    by (auto simp: kv_inv_def sorted_wrt_append)
  have "filter ?R xs = []"
    using less_xs by (auto simp: filter_empty_conv kv_after_def)
  moreover have "filter ?Q ys = filter ?R ys"
    using less_ys q by (intro filter_cong) (auto simp: kv_after_def split: option.splits)
  moreover have "filter ?Q xs = []"
    using xs by (auto simp: filter_empty_conv)
  moreover have "\<not> ?R (k, v)" by (simp add: kv_after_def)
  ultimately show ?thesis using q db by simp
qed

lemma kv_next_None:
  "kv_next p c db = None \<Longrightarrow> filter (\<lambda>(k', v'). kv_strict_prefix p k' \<and> kv_after c k') db = []"
  by (auto simp: kv_next_def find_None_iff filter_empty_conv)

end
