(* ===== verification/Views.thy ===== *)
theory Views
  imports Prelude
begin

text \<open>
  The view renderer of \<^verbatim>\<open>src/server.ts\<close>: \<^verbatim>\<open>layout\<close> (lines 117--196), \<^verbatim>\<open>indexNote\<close>
  (lines 63--90) and \<^verbatim>\<open>templateNote\<close> (lines 92--115). Each is a JavaScript template
  literal; the model concatenates the literal's text, copied character for character
  (new lines and indentation included), with the interpolated values. No value is
  escaped, as in the source. The pages carry client-side scripts (the new-note form
  and the autosave loop); here they are text of the page, and theory \<open>Client\<close>
  models what they do.
\<close>

text \<open>\<^verbatim>\<open>layout(content, title)\<close>: the page frame with \<^verbatim>\<open>title\<close> in the head and
  \<^verbatim>\<open>content\<close> in the body.\<close>

definition layout :: "jstr \<Rightarrow> jstr \<Rightarrow> jstr" where
  \<open>layout content title =
  js ''
    <html>
      <head>
        <meta charset="UTF-8">
        <title>'' @ title @ js ''</title>
        <meta name="viewport" content="width=device-width, initial-scale=1">
        <link rel="stylesheet" href="https://cdnjs.cloudflare.com/ajax/libs/modern-normalize/1.1.0/modern-normalize.min.css">
        <style type="text/css">
          body {
            padding: 20px;
            max-width: 800px;
            margin: 0 auto;
          }
          ul {
            list-style: none;
            padding: 0;
          }
          ul a {
            display: block;
            padding: 1em;
            color: #000;
            text-decoration: none;
            font-weight: bold;
          }
          ul a:hover {
            background: #eee;
          }
          li + li {
            border-top: 1px solid #eee;
          }
          textarea {
            width: 100%;
            height: calc(100vh - 40px);
            border: none;
            resize: none;
            padding: 20px;
            line-height: 1.6;
            outline: 0;
          }
          textarea:focus-visible {
            outline: 0;
          }
          form {
            display: flex;
          }
          input[type="text"] {
            padding: 1em;
            background: #efefef;
            border: none;
            flex: 1;
            outline: 0;
          }
          input[type="text"]:focus {
            background: #eee;
          }
          .button {
            border: none;
            padding: 1em;
            background: #000;
            color: #fff;
            text-decoration: none;
            cursor: pointer;
          }
          .button:hover {
            background: #333;
          }
          .is-floating {
            position: fixed;
            bottom: 20px;
            right: 20px;
          }
        </style>
      </head>
      <body>
        '' @ content @ js ''
      </body>
    </html>
  ''\<close>

text \<open>One link of the list: \<^verbatim>\<open>`<li><a href="/${id}">${id}</a></li>`\<close>.\<close>

definition note_item :: "jstr \<Rightarrow> jstr" where
  \<open>note_item note_id = js ''<li><a href="/'' @ note_id @ js ''">'' @ note_id @ js ''</a></li>''\<close>

text \<open>Lines 68--70: \<^verbatim>\<open>notes.map(...).join("")\<close>, the links one after the other.\<close>

definition note_list :: "jstr list \<Rightarrow> jstr" where
  "note_list notes = js_join [] (map note_item notes)"

text \<open>\<^verbatim>\<open>indexNote(notes)\<close>: the list of links, then the new-note form.\<close>

definition indexNote :: "jstr list \<Rightarrow> jstr" where
  \<open>indexNote notes = layout (
    js ''
    <ul>
      '' @ note_list notes @ js ''
    </ul>
    <form action="/" method="GET" id="new">
      <input type="text" name="name" required placeholder="Title of the note" autofocus>
      <button class="button">New note</button>
    </form>
    <script type="module">
      const form = document.getElementById('new');
      form.addEventListener('submit', function (e) {
        e.preventDefault();
        const name = new FormData(form).get('name');
        if (name) {
          document.location = '/' + name;
        }
      });
    </script>
  '')
    (js ''Notes'')\<close>

text \<open>\<^verbatim>\<open>content || ""\<close>: \<^verbatim>\<open>null\<close> and the empty string both give the empty string.\<close>

definition or_empty :: "jstr option \<Rightarrow> jstr" where
  "or_empty content = (case content of None \<Rightarrow> [] | Some c \<Rightarrow> if c = [] then [] else c)"

text \<open>\<^verbatim>\<open>templateNote(title, content)\<close>: the editing field holding the note's body.\<close>

definition templateNote :: "jstr \<Rightarrow> jstr option \<Rightarrow> jstr" where
  \<open>templateNote title content = layout (
    js ''
    <textarea id="text" placeholder="Write here your notes" autofocus>'' @ or_empty content @ js ''</textarea>
    <a class="button is-floating" href="../">Back</a>

    <script type="module">
        const textarea = document.getElementById('text');
        const button = document.getElementById('delete');

        let sending = false;
        textarea.addEventListener('keyup', function () {
          if (sending) return;
          sending = true;
          fetch(location.pathname, { method: 'POST', body: this.value })
            .then(() => sending = false);
        });
    </script>
  '')
    title\<close>

subsection \<open>Lemmas\<close>

text \<open>The note's text stands right after the opening tag of the editing field and is
  followed by its closing tag.\<close>

lemma templateNote_shape:
  \<open>\<exists>pre post. templateNote title content =
     pre @ js ''<textarea id="text" placeholder="Write here your notes" autofocus>'' @ or_empty content
     @ js ''</textarea>'' @ post\<close>
proof -
  have t1: \<open>js ''
    <textarea id="text" placeholder="Write here your notes" autofocus>''
    = js ''
    '' @ js ''<textarea id="text" placeholder="Write here your notes" autofocus>''\<close>
    by (simp add: js_def)
  have t2: \<open>js ''</textarea>
    <a class="button is-floating" href="../">Back</a>

    <script type="module">
        const textarea = document.getElementById('text');
        const button = document.getElementById('delete');

        let sending = false;
        textarea.addEventListener('keyup', function () {
          if (sending) return;
          sending = true;
          fetch(location.pathname, { method: 'POST', body: this.value })
            .then(() => sending = false);
        });
    </script>
  ''
    = js ''</textarea>'' @ js ''
    <a class="button is-floating" href="../">Back</a>

    <script type="module">
        const textarea = document.getElementById('text');
        const button = document.getElementById('delete');

        let sending = false;
        textarea.addEventListener('keyup', function () {
          if (sending) return;
          sending = true;
          fetch(location.pathname, { method: 'POST', body: this.value })
            .then(() => sending = false);
        });
    </script>
  ''\<close>
    by (simp add: js_def)
  have shape: "\<exists>pre post. a @ b @ c @ d @ x @ y @ z @ e = pre @ x @ y @ z @ post"
    for a b c d e x y z :: jstr
    by (intro exI [of _ "a @ b @ c @ d"] exI [of _ e]) simp
  show ?thesis
    unfolding templateNote_def layout_def t1 t2 append_assoc by (rule shape)
qed

lemma templateNote_textarea:
  \<open>sublist (js ''<textarea id="text" placeholder="Write here your notes" autofocus>'' @ or_empty content @ js ''</textarea>'')
    (templateNote title content)\<close>
proof -
  obtain pre post where e: \<open>templateNote title content =
     pre @ js ''<textarea id="text" placeholder="Write here your notes" autofocus>'' @ or_empty content
     @ js ''</textarea>'' @ post\<close>
    using templateNote_shape by blast
  show ?thesis unfolding e by (metis append_assoc sublist_appendI)
qed

lemma layout_title:
  "\<exists>pre post. layout content title = pre @ js ''<title>'' @ title @ js ''</title>'' @ post"
proof -
  have l1: \<open>js ''
    <html>
      <head>
        <meta charset="UTF-8">
        <title>'' = js ''
    <html>
      <head>
        <meta charset="UTF-8">
        '' @ js ''<title>''\<close>
    by (simp add: js_def)
  have l2: \<open>js ''</title>
        <meta name="viewport" content="width=device-width, initial-scale=1">
        <link rel="stylesheet" href="https://cdnjs.cloudflare.com/ajax/libs/modern-normalize/1.1.0/modern-normalize.min.css">
        <style type="text/css">
          body {
            padding: 20px;
            max-width: 800px;
            margin: 0 auto;
          }
          ul {
            list-style: none;
            padding: 0;
          }
          ul a {
            display: block;
            padding: 1em;
            color: #000;
            text-decoration: none;
            font-weight: bold;
          }
          ul a:hover {
            background: #eee;
          }
          li + li {
            border-top: 1px solid #eee;
          }
          textarea {
            width: 100%;
            height: calc(100vh - 40px);
            border: none;
            resize: none;
            padding: 20px;
            line-height: 1.6;
            outline: 0;
          }
          textarea:focus-visible {
            outline: 0;
          }
          form {
            display: flex;
          }
          input[type="text"] {
            padding: 1em;
            background: #efefef;
            border: none;
            flex: 1;
            outline: 0;
          }
          input[type="text"]:focus {
            background: #eee;
          }
          .button {
            border: none;
            padding: 1em;
            background: #000;
            color: #fff;
            text-decoration: none;
            cursor: pointer;
          }
          .button:hover {
            background: #333;
          }
          .is-floating {
            position: fixed;
            bottom: 20px;
            right: 20px;
          }
        </style>
      </head>
      <body>
        '' = js ''</title>'' @ js ''
        <meta name="viewport" content="width=device-width, initial-scale=1">
        <link rel="stylesheet" href="https://cdnjs.cloudflare.com/ajax/libs/modern-normalize/1.1.0/modern-normalize.min.css">
        <style type="text/css">
          body {
            padding: 20px;
            max-width: 800px;
            margin: 0 auto;
          }
          ul {
            list-style: none;
            padding: 0;
          }
          ul a {
            display: block;
            padding: 1em;
            color: #000;
            text-decoration: none;
            font-weight: bold;
          }
          ul a:hover {
            background: #eee;
          }
          li + li {
            border-top: 1px solid #eee;
          }
          textarea {
            width: 100%;
            height: calc(100vh - 40px);
            border: none;
            resize: none;
            padding: 20px;
            line-height: 1.6;
            outline: 0;
          }
          textarea:focus-visible {
            outline: 0;
          }
          form {
            display: flex;
          }
          input[type="text"] {
            padding: 1em;
            background: #efefef;
            border: none;
            flex: 1;
            outline: 0;
          }
          input[type="text"]:focus {
            background: #eee;
          }
          .button {
            border: none;
            padding: 1em;
            background: #000;
            color: #fff;
            text-decoration: none;
            cursor: pointer;
          }
          .button:hover {
            background: #333;
          }
          .is-floating {
            position: fixed;
            bottom: 20px;
            right: 20px;
          }
        </style>
      </head>
      <body>
        ''\<close>
    by (simp add: js_def)
  have shape: "\<exists>pre post. a @ x @ t @ y @ b = pre @ x @ t @ y @ post" for a b x y t :: jstr
    by (intro exI [of _ a] exI [of _ b]) simp
  show ?thesis
    unfolding layout_def l1 l2 append_assoc by (rule shape)
qed

lemma or_empty_nonblank: "js_trim b \<noteq> [] \<Longrightarrow> or_empty (Some b) = b"
  by (auto simp: or_empty_def js_trim_def)

end
