(* ===== verification/Handler.thy ===== *)
theory Handler
  imports Auth Router URI KV Views
begin

text \<open>
  The request handler passed to \<^verbatim>\<open>serve\<close> (\<^verbatim>\<open>src/server.ts\<close>, lines 10--61) and its
  composition with the other components. One call takes the request, the environment
  variables and the store, and returns the response and the new store. The steps are
  those of the source, in its order:
  \<^enum> the \<^verbatim>\<open>Authorization\<close> gate (lines 11--21): a missing or empty header, or one
    \<^verbatim>\<open>checkAuthorization\<close> rejects, gives 401 with a Basic challenge;
  \<^enum> the home route (lines 23--34): the ids of all notes, in key order, rendered by
    \<^verbatim>\<open>indexNote\<close>, whatever the method;
  \<^enum> the note route (lines 36--55): \<^verbatim>\<open>decodeURI\<close> of the segment, then \<^verbatim>\<open>db.get\<close>;
    a \<^verbatim>\<open>POST\<close> deletes the note when the body trims to nothing and stores the body
    otherwise, and answers \<^verbatim>\<open>OK\<close>; any other method renders \<^verbatim>\<open>templateNote\<close>;
  \<^enum> otherwise 404 (lines 57--60).
  An exception (\<^verbatim>\<open>URIError\<close> from \<^verbatim>\<open>decodeURI\<close>, \<^verbatim>\<open>InvalidCharacterError\<close> from
  \<^verbatim>\<open>atob\<close>) leaves the handler before any write; \<^verbatim>\<open>serve\<close> of Deno's standard library
  then answers 500 (\<open>serve_request\<close>).
\<close>

subsection \<open>Requests and responses\<close>

text \<open>
  The parts of a \<^verbatim>\<open>Request\<close> the handler reads: the method (normalised to upper case by
  the Fetch standard for the standard methods), the pathname of \<^verbatim>\<open>req.url\<close>, the
  \<^verbatim>\<open>Authorization\<close> header (\<open>None\<close> for \<^verbatim>\<open>null\<close>) and the body as \<^verbatim>\<open>req.text()\<close>
  decodes it.
\<close>

record request =
  req_method :: jstr
  req_pathname :: jstr
  req_authorization :: "jstr option"
  req_body :: jstr

text \<open>A \<^verbatim>\<open>Response\<close>: status, status text, header list (names in lower case, as
  \<^verbatim>\<open>Headers\<close> compares them) and body.\<close>

record response =
  status :: nat
  status_text :: jstr
  headers :: "(jstr \<times> jstr) list"
  body :: jstr

text \<open>
  \<^verbatim>\<open>new Response(body, init)\<close> with a string body: status 200 and status text empty
  unless given, and the Fetch standard adds \<^verbatim>\<open>content-type: text/plain;charset=UTF-8\<close>
  when the headers have no content type.
\<close>

definition new_Response :: "jstr \<Rightarrow> nat \<Rightarrow> jstr \<Rightarrow> (jstr \<times> jstr) list \<Rightarrow> response" where
  "new_Response b st txt hs =
     \<lparr>status = st, status_text = txt,
      headers = (if list_ex (\<lambda>(n, v). n = js ''content-type'') hs then hs
                 else hs @ [(js ''content-type'', js ''text/plain;charset=UTF-8'')]),
      body = b\<rparr>"

definition html_headers :: "(jstr \<times> jstr) list" where
  "html_headers = [(js ''content-type'', js ''text/html'')]"

subsection \<open>The branches of the handler\<close>

text \<open>Lines 14--20.\<close>

definition unauthorized :: response where
  "unauthorized =
     new_Response (js ''401 Unauthorized'') 401 (js ''Unauthorized'')
       [(js ''www-authenticate'', js ''Basic realm=\"Basic Authentication\"'')]"

text \<open>Line 13, \<^verbatim>\<open>!authorization || !checkAuthorization(authorization)\<close>: whether the
  request is let in, or the exception of \<^verbatim>\<open>atob\<close>.\<close>

definition authorized :: "auth_env \<Rightarrow> jstr option \<Rightarrow> js_error + bool" where
  "authorized env authorization =
     (case authorization of
        None \<Rightarrow> Inr False
      | Some a \<Rightarrow> if a = [] then Inr False else checkAuthorization env a)"

text \<open>
  Lines 24--29: the \<^verbatim>\<open>for await\<close> loop over the iterator of
  \<^verbatim>\<open>db.list({prefix: ["notes"]})\<close>, pushing \<^verbatim>\<open>key[1]\<close> of every entry it yields. The
  loop ends because each step moves the cursor past one more entry of the finite store.
\<close>

function collect_ids :: "kv_key option \<Rightarrow> jstr list \<Rightarrow> kv_store \<Rightarrow> jstr list" where
  "collect_ids cursor notes db =
     (case kv_next [js ''notes''] cursor db of
        None \<Rightarrow> notes
      | Some (key, v) \<Rightarrow> collect_ids (Some key) (notes @ [key ! 1]) db)"
  by pat_completeness auto
termination
  by (relation "measure (\<lambda>(cursor, notes, db). length (filter (\<lambda>(k, v). kv_after cursor k) db))")
     (auto dest: kv_next_variant)

definition note_ids :: "kv_store \<Rightarrow> jstr list" where
  "note_ids db = collect_ids None [] db"

definition home_response :: "kv_store \<Rightarrow> response" where
  "home_response db = new_Response (indexNote (note_ids db)) 200 [] html_headers"

definition note_key :: "jstr \<Rightarrow> kv_key" where
  "note_key note_id = [js ''notes'', note_id]"

text \<open>Lines 39--54, from the raw \<^verbatim>\<open>:id\<close> group.\<close>

definition note_route :: "request \<Rightarrow> jstr \<Rightarrow> kv_store \<Rightarrow> js_error + (response \<times> kv_store)" where
  "note_route req raw db =
     (case decodeURI raw of
        None \<Rightarrow> Inl URIError
      | Some note_id \<Rightarrow>
          (let note = kv_get db (note_key note_id) in
           if req_method req = js ''POST'' then
             (let b = req_body req;
                  db' = (if js_trim b = [] then kv_delete (note_key note_id) db
                         else kv_set (note_key note_id) b db)
              in Inr (new_Response (js ''OK'') 200 [] [], db'))
           else Inr (new_Response (templateNote note_id note) 200 [] html_headers, db)))"

text \<open>Lines 57--60.\<close>

definition not_found :: response where
  "not_found = new_Response (layout (js ''Not found'') (js ''Notes'')) 404 [] html_headers"

text \<open>The whole handler, lines 10--61.\<close>

definition handler :: "auth_env \<Rightarrow> request \<Rightarrow> kv_store \<Rightarrow> js_error + (response \<times> kv_store)" where
  "handler env req db =
     (case authorized env (req_authorization req) of
        Inl e \<Rightarrow> Inl e
      | Inr False \<Rightarrow> Inr (unauthorized, db)
      | Inr True \<Rightarrow>
          (if home_test (req_pathname req) then Inr (home_response db, db)
           else case note_exec (req_pathname req) of
                  Some raw \<Rightarrow> note_route req raw db
                | None \<Rightarrow> Inr (not_found, db)))"

text \<open>
  \<^verbatim>\<open>serve\<close> of Deno's standard library (\<^verbatim>\<open>std@0.187.0/http/server.ts\<close>): a handler that
  throws is answered by its default error handler with status 500 and body
  \<^verbatim>\<open>Internal Server Error\<close>; the store keeps what it had, since no write precedes a throw.
\<close>

definition internal_error :: response where
  "internal_error = new_Response (js ''Internal Server Error'') 500 [] []"

definition serve_request :: "auth_env \<Rightarrow> request \<Rightarrow> kv_store \<Rightarrow> response \<times> kv_store" where
  "serve_request env req db =
     (case handler env req db of Inl e \<Rightarrow> (internal_error, db) | Inr r \<Rightarrow> r)"

text \<open>A sequence of requests handled one after the other, each on the store the
  previous one left.\<close>

fun serve_all :: "auth_env \<Rightarrow> request list \<Rightarrow> kv_store \<Rightarrow> response list \<times> kv_store" where
  "serve_all env [] db = ([], db)"
| "serve_all env (r # rs) db =
     (let (resp, db') = serve_request env r db; (resps, db'') = serve_all env rs db'
      in (resp # resps, db''))"

text \<open>
  The store invariant the handler keeps: the entries are sorted by key, every key is a
  note key \<^verbatim>\<open>["notes", id]\<close>, and no stored body is blank (a blank body deletes).
  \<open>reachable_store\<close> holds of every store a sequence of requests can build from the
  empty store.
\<close>

definition is_note_key :: "kv_key \<Rightarrow> bool" where
  "is_note_key k \<longleftrightarrow> length k = 2 \<and> k ! 0 = js ''notes''"

definition store_inv :: "kv_store \<Rightarrow> bool" where
  "store_inv db \<longleftrightarrow> kv_inv db \<and> (\<forall>(k, v) \<in> set db. is_note_key k \<and> js_trim v \<noteq> [])"

inductive reachable_store :: "auth_env \<Rightarrow> kv_store \<Rightarrow> bool" for env where
  empty: "reachable_store env []"
| step: "reachable_store env db \<Longrightarrow> reachable_store env (snd (serve_request env req db))"

text \<open>
  A well-formed response of this server: one of the four statuses the code produces
  and exactly one \<^verbatim>\<open>content-type\<close> header.
\<close>

definition response_wf :: "response \<Rightarrow> bool" where
  "response_wf r \<longleftrightarrow> status r \<in> {200, 401, 404, 500}
     \<and> length (filter (\<lambda>(n, v). n = js ''content-type'') (headers r)) = 1"

text \<open>Example data for the concrete instances below: an environment with
  \<^verbatim>\<open>USER=u\<close> and \<^verbatim>\<open>PASSWORD=p\<close>, and requests carrying the matching header
  \<^verbatim>\<open>Basic dTpw\<close> (\<^verbatim>\<open>dTpw\<close> is the base64 text of \<^verbatim>\<open>u:p\<close>).\<close>

abbreviation demo_env :: auth_env where
  "demo_env \<equiv> \<lparr>env_user = Some (js ''u''), env_password = Some (js ''p'')\<rparr>"

abbreviation demo_req :: "string \<Rightarrow> string \<Rightarrow> string \<Rightarrow> request" where
  "demo_req m p b \<equiv> \<lparr>req_method = js m, req_pathname = js p,
     req_authorization = Some (js ''Basic dTpw''), req_body = js b\<rparr>"

subsection \<open>Lemmas: one equation per branch\<close>

lemma serve_unauthorized:
  "authorized env (req_authorization req) = Inr False \<Longrightarrow> serve_request env req db = (unauthorized, db)"
  by (simp add: serve_request_def handler_def)

lemma serve_auth_error:
  "authorized env (req_authorization req) = Inl e \<Longrightarrow> serve_request env req db = (internal_error, db)"
  by (simp add: serve_request_def handler_def)

lemma serve_home:
  "authorized env (req_authorization req) = Inr True \<Longrightarrow> home_test (req_pathname req) \<Longrightarrow>
   serve_request env req db = (home_response db, db)"
  by (simp add: serve_request_def handler_def)

lemma serve_not_found:
  "authorized env (req_authorization req) = Inr True \<Longrightarrow> \<not> home_test (req_pathname req) \<Longrightarrow>
   note_exec (req_pathname req) = None \<Longrightarrow> serve_request env req db = (not_found, db)"
  by (simp add: serve_request_def handler_def)

lemma serve_note:
  "authorized env (req_authorization req) = Inr True \<Longrightarrow> note_exec (req_pathname req) = Some raw \<Longrightarrow>
   serve_request env req db =
     (case decodeURI raw of
        None \<Rightarrow> (internal_error, db)
      | Some note_id \<Rightarrow>
          if req_method req = js ''POST'' then
            (new_Response (js ''OK'') 200 [] [],
             if js_trim (req_body req) = [] then kv_delete (note_key note_id) db
             else kv_set (note_key note_id) (req_body req) db)
          else (new_Response (templateNote note_id (kv_get db (note_key note_id))) 200 [] html_headers, db))"
  by (auto simp: serve_request_def handler_def home_not_note note_route_def Let_def
      split: option.splits dest: home_not_note)

lemma serve_request_store_cases:
  "snd (serve_request env req db) = db \<or>
   (\<exists>raw note_id. authorized env (req_authorization req) = Inr True \<and> note_exec (req_pathname req) = Some raw
      \<and> decodeURI raw = Some note_id \<and> req_method req = js ''POST''
      \<and> snd (serve_request env req db) =
          (if js_trim (req_body req) = [] then kv_delete (note_key note_id) db
           else kv_set (note_key note_id) (req_body req) db))"
  by (auto simp: serve_request_def handler_def note_route_def Let_def
      split: sum.splits bool.splits option.splits if_splits)


lemma is_note_key_note_key [simp]: "is_note_key (note_key i)"
  by (simp add: is_note_key_def note_key_def)

lemma store_inv_set:
  "store_inv db \<Longrightarrow> js_trim b \<noteq> [] \<Longrightarrow> store_inv (kv_set (note_key i) b db)"
  by (auto simp: store_inv_def kv_inv_set dest!: kv_set_entries)

lemma store_inv_delete: "store_inv db \<Longrightarrow> store_inv (kv_delete k db)"
  by (auto simp: store_inv_def kv_inv_delete dest!: kv_delete_entries)

lemma store_inv_serve: "store_inv db \<Longrightarrow> store_inv (snd (serve_request env req db))"
  using serve_request_store_cases [of env req db]
  by (auto simp: store_inv_set store_inv_delete)

lemma note_key_less [simp]: "note_key a < note_key b \<longleftrightarrow> a < b"
  by (simp add: note_key_def)

lemma is_note_key_conv: "is_note_key k \<longleftrightarrow> (\<exists>i. k = note_key i)"
proof
  assume k: "is_note_key k"
  then obtain a b where "k = [a, b]"
    by (auto simp: is_note_key_def numeral_2_eq_2 length_Suc_conv)
  with k show "\<exists>i. k = note_key i"
    by (auto simp: is_note_key_def note_key_def)
qed auto

lemma collect_ids_listing:
  "kv_inv db \<Longrightarrow> collect_ids c ns db =
     ns @ map (\<lambda>(k, v). k ! 1) (filter (\<lambda>(k, v). kv_strict_prefix [js ''notes''] k \<and> kv_after c k) db)"
proof (induction c ns db rule: collect_ids.induct)
  case (1 cursor acc db)
  show ?case
  proof (cases "kv_next [js ''notes''] cursor db")
    case None
    then show ?thesis by (simp add: kv_next_None)
  next
    case (Some e)
    obtain k v where e: "e = (k, v)" by fastforce
    with Some "1.IH" [OF Some e [symmetric] "1.prems"] show ?thesis
      by (simp add: kv_next_sorted [OF "1.prems"])
  qed
qed

lemma note_ids_listing:
  "kv_inv db \<Longrightarrow> note_ids db = map (\<lambda>(k, v). k ! 1) (filter (\<lambda>(k, v). kv_strict_prefix [js ''notes''] k) db)"
  by (simp add: note_ids_def collect_ids_listing kv_after_def del: collect_ids.simps)

lemma collect_ids_length:
  "length (collect_ids c ns db) \<le> length ns + length (filter (\<lambda>(k, v). kv_after c k) db)"
proof (induction c ns db rule: collect_ids.induct)
  case (1 cursor acc db)
  show ?case
  proof (cases "kv_next [js ''notes''] cursor db")
    case (Some e)
    obtain k v where e: "e = (k, v)" by fastforce
    with Some "1.IH" [OF Some e [symmetric]] kv_next_variant [of "[js ''notes'']" cursor db k v]
    show ?thesis by simp
  qed simp
qed

lemma store_ids:
  assumes "store_inv db"
  shows "note_ids db = map (\<lambda>(k, v). k ! 1) db"
    and "sorted_wrt (<) (map (\<lambda>(k, v). k ! 1) db)"
    and "set (map (\<lambda>(k, v). k ! 1) db) = {i. kv_get db (note_key i) \<noteq> None}"
proof -
  have keys: "\<forall>(k, v) \<in> set db. \<exists>i. k = note_key i" and inv: "kv_inv db"
    using assms by (auto simp: store_inv_def is_note_key_conv)
  then have "kv_list [js ''notes''] db = db"
    by (auto simp: kv_list_def kv_strict_prefix_def note_key_def filter_id_conv)
  then show "note_ids db = map (\<lambda>(k, v). k ! 1) db"
    by (simp add: note_ids_listing inv kv_list_def)
  have "sorted_wrt (\<lambda>x y. fst x < fst y) db"
    using inv by (simp add: kv_inv_def sorted_wrt_map)
  then have "sorted_wrt (\<lambda>x y. fst x ! 1 < fst y ! 1) db"
  proof (rule sorted_wrt_mono_rel [rotated])
    fix x y assume x: "x \<in> set db" and y: "y \<in> set db" and xy: "fst x < fst y"
    from keys x obtain i where "fst x = note_key i" by (cases x) auto
    moreover from keys y obtain j where "fst y = note_key j" by (cases y) auto
    ultimately show "fst x ! 1 < fst y ! 1"
      using xy by (simp add: note_key_def)
  qed
  then show "sorted_wrt (<) (map (\<lambda>(k, v). k ! 1) db)"
    by (simp add: sorted_wrt_map case_prod_beta)
  show "set (map (\<lambda>(k, v). k ! 1) db) = {i. kv_get db (note_key i) \<noteq> None}"
    using keys by (force simp: kv_get_map_of note_key_def map_of_eq_None_iff image_iff)
qed

lemma note_ids_stored:
  assumes "store_inv db"
  shows "note_ids db = sorted_list_of_set {i. kv_get db (note_key i) \<noteq> None}"
proof -
  have "sorted_list_of_set (set (map (\<lambda>(k, v). k ! 1) db)) = map (\<lambda>(k, v). k ! 1) db"
    using store_ids(2) [OF assms]
    by (metis sorted_list_of_set.idem_if_sorted_distinct strict_sorted_iff)
  then show ?thesis
    using store_ids [OF assms] by simp
qed

subsection \<open>Lemmas for the concrete instances\<close>

lemma demo_authorized:
  "authorized \<lparr>env_user = Some (js ''u''), env_password = Some (js ''p'')\<rparr> (Some (js ''Basic dTpw'')) = Inr True"
  by (simp add: authorized_def checkAuthorization_def match_basic_def atob_def forgiving_base64_decode_def
      strip_padding_def b64_value_def js_ws_def js_line_terminator_def ascii_ws_def Let_def
      jstr_simps js_nth_def)

lemma js_trim_hi: "js_trim (js ''hi'') = js ''hi''"
  by (simp add: js_trim_def js_ws_def js_line_terminator_def jstr_simps)

lemma js_trim_blank: "js_trim (js '' '') = []"
  by (simp add: js_trim_def js_ws_def js_line_terminator_def jstr_simps)

lemma decodeURI_truncated: "decodeURI (js ''%E0%A4'') = None"
  by (simp add: js_def parse_hex_octet_def hex_digit_value_def uri_reserved_def octet_leading_ones_def
      eval_nat_numeral)

lemma serve_plain_segment:
  assumes "authorized env (req_authorization req) = Inr True" "req_pathname req = 47 # seg"
    "seg \<noteq> []" "47 \<notin> set seg" "37 \<notin> set seg"
  shows "serve_request env req db =
    (if req_method req = js ''POST'' then
       (new_Response (js ''OK'') 200 [] [],
        if js_trim (req_body req) = [] then kv_delete (note_key seg) db
        else kv_set (note_key seg) (req_body req) db)
     else (new_Response (templateNote seg (kv_get db (note_key seg))) 200 [] html_headers, db))"
  using assms by (simp add: serve_note decodeURI_no_percent)

subsection \<open>Properties of the handler\<close>

text \<open>
  C2 (safety): a request that does not pass the gate is answered 401 with the Basic
  challenge \<^verbatim>\<open>www-authenticate\<close>, and the store is left as it
  was, whatever the path or method.
\<close>

theorem serve_unauthenticated:
  assumes "authorized env (req_authorization req) = Inr False"
  shows "serve_request env req db = (unauthorized, db) \<and> status unauthorized = 401
    \<and> (js ''www-authenticate'', js ''Basic realm=\"Basic Authentication\"'') \<in> set (headers unauthorized)"
  using assms by (simp add: serve_unauthorized unauthorized_def new_Response_def)

theorem serve_unauthenticated_witness:
  "authorized \<lparr>env_user = Some (js ''u''), env_password = Some (js ''p'')\<rparr> None = Inr False \<and>
   serve_request \<lparr>env_user = Some (js ''u''), env_password = Some (js ''p'')\<rparr>
     \<lparr>req_method = js ''GET'', req_pathname = js ''/a/b'', req_authorization = None, req_body = []\<rparr> []
   = (unauthorized, []) \<and> status unauthorized = 401
    \<and> (js ''www-authenticate'', js ''Basic realm=\"Basic Authentication\"'') \<in> set (headers unauthorized)"
  using serve_unauthenticated [of "\<lparr>env_user = Some (js ''u''), env_password = Some (js ''p'')\<rparr>"
      "\<lparr>req_method = js ''GET'', req_pathname = js ''/a/b'', req_authorization = None, req_body = []\<rparr>" "[]"]
  by (simp add: authorized_def)


text \<open>
  C3 (invariant): every store that a sequence of requests builds from the empty store is
  sorted by key, holds only keys \<^verbatim>\<open>["notes", id]\<close>, and holds no
  blank note: the handler never stores a body that trims to the empty string.
\<close>

theorem reachable_store_inv: "reachable_store env db \<Longrightarrow> store_inv db"
proof (induction rule: reachable_store.induct)
  case empty
  then show ?case by (simp add: store_inv_def)
next
  case (step db req)
  from step.IH show ?case by (rule store_inv_serve)
qed

theorem reachable_store_inv_witness:
  "reachable_store demo_env (snd (serve_request demo_env (demo_req ''POST'' ''/x'' ''hi'') [])) \<and>
   store_inv (snd (serve_request demo_env (demo_req ''POST'' ''/x'' ''hi'') []))"
proof -
  have r: "reachable_store demo_env (snd (serve_request demo_env (demo_req ''POST'' ''/x'' ''hi'') []))"
    by (rule reachable_store.step [OF reachable_store.empty])
  show ?thesis using r reachable_store_inv [OF r] by simp
qed


text \<open>
  C5 (refinement): a \<^verbatim>\<open>POST\<close> to a note implements the update of
  the abstract map from note ids to bodies: the note named by the decoded segment is
  deleted when the body is blank and set to the body otherwise, and no other note
  changes.
\<close>

theorem serve_post_refines:
  assumes "kv_inv db" "authorized env (req_authorization req) = Inr True"
    "note_exec (req_pathname req) = Some raw" "decodeURI raw = Some note_id" "req_method req = js ''POST''"
  shows "(\<lambda>i. kv_get (snd (serve_request env req db)) (note_key i)) =
         (\<lambda>i. kv_get db (note_key i))
           (note_id := if js_trim (req_body req) = [] then None else Some (req_body req))"
  using assms by (auto simp: serve_note kv_get_map_of map_of_kv_set map_of_kv_delete fun_eq_iff note_key_def)

theorem serve_post_refines_witness:
  "kv_inv [(note_key (js ''x''), js ''old'')] \<and>
   (\<lambda>i. kv_get (snd (serve_request demo_env (demo_req ''POST'' ''/x'' ''hi'') [(note_key (js ''x''), js ''old'')]))
          (note_key i)) =
   (\<lambda>i. kv_get [(note_key (js ''x''), js ''old'')] (note_key i))(js ''x'' := Some (js ''hi''))"
proof -
  have e: "note_exec (js ''/x'') = Some (js ''x'')" by (simp add: note_exec_def jstr_simps)
  have d: "decodeURI (js ''x'') = Some (js ''x'')" by (rule decodeURI_no_percent) (simp add: jstr_simps)
  have h: "js_trim (js ''hi'') \<noteq> []" by (subst js_trim_hi) (simp add: jstr_simps)
  show ?thesis
    using serve_post_refines [of "[(note_key (js ''x''), js ''old'')]" demo_env "demo_req ''POST'' ''/x'' ''hi''"
        "js ''x''" "js ''x''"] demo_authorized e d h by (simp add: kv_inv_def)
qed


text \<open>
  C6 (refinement): the home page lists exactly the ids of the stored notes, in ascending
  code-point order, without repetition, on every store that satisfies the store
  invariant.
\<close>

theorem serve_home_lists:
  assumes "store_inv db" "authorized env (req_authorization req) = Inr True" "home_test (req_pathname req)"
  shows "serve_request env req db =
    (new_Response (indexNote (sorted_list_of_set {i. kv_get db (note_key i) \<noteq> None})) 200 [] html_headers, db)"
  using assms by (simp add: serve_home home_response_def note_ids_stored)

theorem serve_home_lists_witness:
  "store_inv [(note_key (js ''x''), js ''hi'')] \<and>
   serve_request demo_env (demo_req ''GET'' ''/'' '''') [(note_key (js ''x''), js ''hi'')] =
    (new_Response (indexNote (sorted_list_of_set {i. kv_get [(note_key (js ''x''), js ''hi'')] (note_key i) \<noteq> None}))
       200 [] html_headers, [(note_key (js ''x''), js ''hi'')])"
proof -
  have t: "js_trim (js ''hi'') \<noteq> []" by (subst js_trim_hi) (simp add: jstr_simps)
  have s: "store_inv [(note_key (js ''x''), js ''hi'')]"
    using t by (simp add: store_inv_def kv_inv_def)
  have h: "home_test (js ''/'')" by (simp add: home_test_def jstr_simps)
  show ?thesis
    using serve_home_lists [OF s, of demo_env "demo_req ''GET'' ''/'' ''''"] demo_authorized h s by simp
qed


text \<open>
  C9 (functional): handling the same request twice leaves the store as handling it once:
  saving the same text or deleting the same note again changes nothing.
\<close>

theorem serve_idempotent:
  assumes "kv_inv db"
  shows "snd (serve_request env req (snd (serve_request env req db))) = snd (serve_request env req db)"
  using serve_request_store_cases [of env req db] assms
proof (elim disjE exE conjE)
  assume "snd (serve_request env req db) = db" then show ?thesis by simp
next
  fix raw note_id
  assume a: "authorized env (req_authorization req) = Inr True" "note_exec (req_pathname req) = Some raw"
    "decodeURI raw = Some note_id" "req_method req = js ''POST''"
  and s: "snd (serve_request env req db) =
          (if js_trim (req_body req) = [] then kv_delete (note_key note_id) db
           else kv_set (note_key note_id) (req_body req) db)"
  show ?thesis
    using assms a by (simp add: s serve_note kv_set_idem kv_delete_idem)
qed

theorem serve_idempotent_witness:
  "kv_inv [] \<and> snd (serve_request demo_env (demo_req ''POST'' ''/x'' ''hi'')
     (snd (serve_request demo_env (demo_req ''POST'' ''/x'' ''hi'') [])))
   = snd (serve_request demo_env (demo_req ''POST'' ''/x'' ''hi'') [])"
  using serve_idempotent [of "[]" demo_env "demo_req ''POST'' ''/x'' ''hi''"] by simp


text \<open>
  C10 (safety): a request whose method is not \<^verbatim>\<open>POST\<close> never
  changes the store.
\<close>

theorem serve_non_post_frame:
  assumes "req_method req \<noteq> js ''POST''"
  shows "snd (serve_request env req db) = db"
  using serve_request_store_cases [of env req db] assms by auto

theorem serve_non_post_frame_witness:
  "js ''GET'' \<noteq> js ''POST'' \<and> snd (serve_request demo_env (demo_req ''GET'' ''/x'' '''') [(note_key (js ''x''), js ''hi'')])
     = [(note_key (js ''x''), js ''hi'')]"
  using serve_non_post_frame [of "demo_req ''GET'' ''/x'' ''''" demo_env "[(note_key (js ''x''), js ''hi'')]"]
  by simp


text \<open>
  C11 (error): a header \<^verbatim>\<open>Basic <token>\<close> whose token is not
  valid base64 makes \<^verbatim>\<open>atob\<close> throw, and the request is answered
  500 instead of 401; the store is unchanged.
\<close>

theorem serve_malformed_token:
  assumes "req_authorization req = Some a" "match_basic a = Some token" "atob token = None"
  shows "serve_request env req db = (internal_error, db)
         \<and> status internal_error = 500"
proof -
  have "a \<noteq> []" using assms(2) by (auto simp: match_basic_def js_def)
  with assms have "authorized env (req_authorization req) = Inl InvalidCharacterError"
    by (simp add: authorized_def checkAuthorization_def)
  then show ?thesis
    by (simp add: serve_auth_error internal_error_def new_Response_def)
qed

theorem serve_malformed_token_witness:
  "match_basic (js ''Basic !!!!'') = Some (js ''!!!!'') \<and> atob (js ''!!!!'') = None \<and>
   serve_request \<lparr>env_user = None, env_password = None\<rparr>
     \<lparr>req_method = js ''GET'', req_pathname = js ''/'', req_authorization = Some (js ''Basic !!!!''),
      req_body = []\<rparr> [] = (internal_error, [])
   \<and> status internal_error = 500"
proof -
  have m: "match_basic (js ''Basic !!!!'') = Some (js ''!!!!'')"
    by (simp add: match_basic_def js_ws_def js_line_terminator_def jstr_simps)
  have a: "atob (js ''!!!!'') = None"
    by (simp add: atob_def forgiving_base64_decode_def strip_padding_def ascii_ws_def b64_value_def jstr_simps)
  show ?thesis using m a serve_malformed_token [OF _ m a, of "\<lparr>req_method = js ''GET'',
      req_pathname = js ''/'', req_authorization = Some (js ''Basic !!!!''), req_body = []\<rparr>"] by simp
qed


text \<open>
  C12 (error): an authorized request to \<^verbatim>\<open>/:id\<close> whose segment
  holds a malformed escape (for example a truncated UTF-8 sequence) makes
  \<^verbatim>\<open>decodeURI\<close> throw; the answer is 500 and the store is
  unchanged.
\<close>

theorem serve_bad_escape:
  assumes "authorized env (req_authorization req) = Inr True" "note_exec (req_pathname req) = Some raw"
    "decodeURI raw = None"
  shows "serve_request env req db = (internal_error, db) \<and> status internal_error = 500"
  using assms by (simp add: serve_note internal_error_def new_Response_def)

theorem serve_bad_escape_witness:
  "note_exec (js ''/%E0%A4'') = Some (js ''%E0%A4'') \<and> decodeURI (js ''%E0%A4'') = None \<and>
   serve_request demo_env (demo_req ''GET'' ''/%E0%A4'' '''') [] = (internal_error, []) \<and> status internal_error = 500"
proof -
  have e: "note_exec (js ''/%E0%A4'') = Some (js ''%E0%A4'')" by (simp add: note_exec_def jstr_simps)
  show ?thesis
    using serve_bad_escape [of demo_env "demo_req ''GET'' ''/%E0%A4'' ''''" "js ''%E0%A4''" "[]"]
      demo_authorized e decodeURI_truncated by simp
qed


text \<open>
  C13 (functional): an authorized request to a path of two or more segments is answered
  404 with the page \<^verbatim>\<open>Not found\<close>, and the store is unchanged.
\<close>

theorem serve_two_segments:
  assumes "authorized env (req_authorization req) = Inr True" "req_pathname req = 47 # a @ 47 # b"
  shows "serve_request env req db = (not_found, db) \<and> status not_found = 404
    \<and> sublist (js ''Not found'') (body not_found)"
proof -
  have "\<not> home_test (req_pathname req)" using assms(2) by (simp add: home_test_def)
  moreover have "note_exec (req_pathname req) = None" using assms(2) by (simp add: note_exec_two_segments)
  moreover have "sublist (js ''Not found'') (body not_found)"
    unfolding not_found_def new_Response_def layout_def response.select_convs by (rule sublist_middle)
  ultimately show ?thesis
    using assms(1) by (simp add: serve_not_found not_found_def new_Response_def)
qed

theorem serve_two_segments_witness:
  "authorized demo_env (Some (js ''Basic dTpw'')) = Inr True \<and>
   serve_request demo_env (demo_req ''GET'' ''/a/b'' '''') [] = (not_found, []) \<and> status not_found = 404
    \<and> sublist (js ''Not found'') (body not_found)"
proof -
  have p: "js ''/a/b'' = 47 # js ''a'' @ 47 # js ''b''" by (simp add: jstr_simps)
  show ?thesis
    using serve_two_segments [of demo_env "demo_req ''GET'' ''/a/b'' ''''" "js ''a''" "js ''b''" "[]"]
      demo_authorized p by simp
qed


text \<open>
  Deleting a note that does not exist (a blank
  \<^verbatim>\<open>POST\<close> to an absent id) is answered
  \<^verbatim>\<open>OK\<close> and leaves the store as it was.
\<close>

theorem serve_delete_absent:
  assumes "authorized env (req_authorization req) = Inr True" "note_exec (req_pathname req) = Some raw"
    "decodeURI raw = Some note_id" "req_method req = js ''POST''" "js_trim (req_body req) = []"
    "kv_get db (note_key note_id) = None"
  shows "serve_request env req db = (new_Response (js ''OK'') 200 [] [], db)"
  using assms by (simp add: serve_note kv_delete_absent kv_get_map_of)

theorem serve_delete_absent_witness:
  "js_trim (js '' '') = [] \<and> kv_get [] (note_key (js ''x'')) = None \<and>
   serve_request demo_env (demo_req ''POST'' ''/x'' '' '') [] = (new_Response (js ''OK'') 200 [] [], [])"
proof -
  have e: "note_exec (js ''/x'') = Some (js ''x'')" by (simp add: note_exec_def jstr_simps)
  have d: "decodeURI (js ''x'') = Some (js ''x'')" by (rule decodeURI_no_percent) (simp add: jstr_simps)
  show ?thesis
    using serve_delete_absent [of demo_env "demo_req ''POST'' ''/x'' '' ''" "js ''x''" "js ''x''" "[]"]
      demo_authorized e d js_trim_blank by simp
qed


text \<open>
  C24 (equivalence): the \<^verbatim>\<open>for await\<close> loop over the listing iterator computes the
  reference definition: on a sorted store it yields \<^verbatim>\<open>key[1]\<close> of exactly the entries
  that \<^verbatim>\<open>list({prefix: ["notes"]})\<close> returns, in their order.
\<close>

theorem note_ids_kv_list:
  "kv_inv db \<Longrightarrow> note_ids db = map (\<lambda>(k, v). k ! 1) (kv_list [js ''notes''] db)"
  by (simp add: note_ids_def collect_ids_listing kv_list_def kv_after_def del: collect_ids.simps)

theorem note_ids_kv_list_witness:
  "kv_inv [(note_key (js ''a''), js ''x''), (note_key (js ''b''), js ''y'')] \<and>
   note_ids [(note_key (js ''a''), js ''x''), (note_key (js ''b''), js ''y'')] = [js ''a'', js ''b'']"
proof -
  have inv: "kv_inv [(note_key (js ''a''), js ''x''), (note_key (js ''b''), js ''y'')]"
    by (simp add: kv_inv_def jstr_simps)
  show ?thesis
    using inv note_ids_kv_list [OF inv]
    by (simp add: kv_list_def kv_strict_prefix_def note_key_def)
qed


lemma new_Response_wf:
  assumes "st \<in> {200, 401, 404, 500}" "length (filter (\<lambda>(n, v). n = js ''content-type'') hs) \<le> 1"
  shows "response_wf (new_Response b st txt hs)"
proof (cases "list_ex (\<lambda>(n, v). n = js ''content-type'') hs")
  case True
  then have "filter (\<lambda>(n, v). n = js ''content-type'') hs \<noteq> []"
    by (simp add: list_ex_iff filter_empty_conv)
  then have "length (filter (\<lambda>(n, v). n = js ''content-type'') hs) = 1"
    using assms(2) by (cases "filter (\<lambda>(n, v). n = js ''content-type'') hs") simp_all
  with True assms(1) show ?thesis by (simp add: response_wf_def new_Response_def)
next
  case False
  then have "filter (\<lambda>(n, v). n = js ''content-type'') hs = []"
    by (simp add: list_ex_iff filter_empty_conv)
  with False assms(1) show ?thesis by (simp add: response_wf_def new_Response_def)
qed

lemma html_headers_content_type: "length (filter (\<lambda>(n, v). n = js ''content-type'') html_headers) \<le> 1"
  by (simp add: html_headers_def)

lemma branch_responses_wf:
  "response_wf unauthorized" "response_wf internal_error" "response_wf not_found"
  "response_wf (home_response db)" "response_wf (new_Response (js ''OK'') 200 [] [])"
  "response_wf (new_Response (templateNote i n) 200 [] html_headers)"
  by (auto simp: unauthorized_def internal_error_def not_found_def home_response_def
      intro!: new_Response_wf html_headers_content_type)

text \<open>
  C26 (type): every response the server sends, on every request and every store, has
  one of the statuses 200, 401, 404 and 500 and exactly one \<^verbatim>\<open>content-type\<close> header.
\<close>

theorem serve_request_wf: "response_wf (fst (serve_request env req db))"
  by (auto simp: serve_request_def handler_def note_route_def Let_def branch_responses_wf
      split: sum.splits option.splits bool.splits)

lemma reachable_serve_all:
  "reachable_store env db \<Longrightarrow> reachable_store env (snd (serve_all env rs db))"
proof (induction rs arbitrary: db)
  case (Cons r rs)
  have "reachable_store env (snd (serve_request env r db))"
    using Cons.prems by (rule reachable_store.step)
  then show ?case using Cons.IH by (simp add: split_def Let_def)
qed simp

lemma reachable_store_invariant: "reachable_store env db \<Longrightarrow> store_inv db"
  by (induction rule: reachable_store.induct) (simp_all add: store_inv_def [of "[]"] store_inv_serve)

lemma store_inv_map_of:
  assumes "store_inv db" "store_inv db'" "\<forall>i. kv_get db (note_key i) = kv_get db' (note_key i)"
  shows "map_of db = map_of db'"
proof
  fix k
  show "map_of db k = map_of db' k"
  proof (cases "\<exists>i. k = note_key i")
    case True
    with assms(3) show ?thesis by (auto simp: kv_get_map_of)
  next
    case False
    then have "k \<notin> fst ` set db" "k \<notin> fst ` set db'"
      using assms(1,2) by (fastforce simp: store_inv_def is_note_key_conv)+
    then have "map_of db k = None" "map_of db' k = None" by (simp_all add: map_of_eq_None_iff)
    then show ?thesis by simp
  qed
qed



end
