(* ===== verification/Client.thy ===== *)
theory Client
  imports Handler
begin

text \<open>
  The autosave script that \<^verbatim>\<open>templateNote\<close> embeds in the note page
  (\<^verbatim>\<open>src/server.ts\<close>, lines 100--111), run against the server. The script keeps one
  flag, \<^verbatim>\<open>sending\<close>; on every \<^verbatim>\<open>keyup\<close> of the textarea it returns at once when the
  flag is set, and otherwise sets it and sends the textarea's value with
  \<^verbatim>\<open>fetch(location.pathname, {method: 'POST', body: this.value})\<close>; the flag is
  cleared by \<^verbatim>\<open>.then(() => sending = false)\<close>, that is when a response arrives,
  whatever its status. A network error rejects the promise, and \<^verbatim>\<open>.then\<close> has no
  rejection handler, so the flag is never cleared.

  The state joins the page (flag, textarea value, requests in flight, oldest first)
  and the server's store. The events are the user's input, the key-up that runs the
  listener, the arrival of the response to the oldest request (which runs the handler
  on the store, then the \<^verbatim>\<open>.then\<close> callback), and a network error that loses the
  oldest request. The browser sends the same \<^verbatim>\<open>Authorization\<close> header with every
  request of the page.
\<close>

record client =
  sending :: bool
  textarea :: jstr
  in_flight :: "jstr list"
  store :: kv_store

datatype client_event = Input jstr | KeyUp | Respond | NetworkError

text \<open>The request \<^verbatim>\<open>fetch\<close> sends: \<^verbatim>\<open>POST\<close> to the page's own path.\<close>

definition save_request :: "jstr \<Rightarrow> jstr \<Rightarrow> jstr \<Rightarrow> request" where
  "save_request path auth b =
     \<lparr>req_method = js ''POST'', req_pathname = path, req_authorization = Some auth, req_body = b\<rparr>"

text \<open>The \<^verbatim>\<open>keyup\<close> listener, lines 105--110.\<close>

definition keyup :: "client \<Rightarrow> client" where
  "keyup c = (if sending c then c else c\<lparr>sending := True, in_flight := in_flight c @ [textarea c]\<rparr>)"

fun client_step :: "auth_env \<Rightarrow> jstr \<Rightarrow> jstr \<Rightarrow> client_event \<Rightarrow> client \<Rightarrow> client" where
  "client_step env path auth (Input v) c = c\<lparr>textarea := v\<rparr>"
| "client_step env path auth KeyUp c = keyup c"
| "client_step env path auth Respond c =
     (case in_flight c of
        [] \<Rightarrow> c
      | b # rest \<Rightarrow>
          c\<lparr>in_flight := rest, sending := False,
            store := snd (serve_request env (save_request path auth b) (store c))\<rparr>)"
| "client_step env path auth NetworkError c =
     (case in_flight c of [] \<Rightarrow> c | b # rest \<Rightarrow> c\<lparr>in_flight := rest\<rparr>)"

fun client_run :: "auth_env \<Rightarrow> jstr \<Rightarrow> jstr \<Rightarrow> client_event list \<Rightarrow> client \<Rightarrow> client" where
  "client_run env path auth [] c = c"
| "client_run env path auth (e # es) c = client_run env path auth es (client_step env path auth e c)"

text \<open>A freshly loaded page: the flag is \<^verbatim>\<open>false\<close> (line 104) and nothing is in flight.\<close>

definition client_init :: "jstr \<Rightarrow> kv_store \<Rightarrow> client" where
  "client_init content db = \<lparr>sending = False, textarea = content, in_flight = [], store = db\<rparr>"

text \<open>The flag's invariant: at most one request in flight, and none unless the flag is set.\<close>

definition client_inv :: "client \<Rightarrow> bool" where
  "client_inv c \<longleftrightarrow> length (in_flight c) \<le> 1 \<and> (in_flight c \<noteq> [] \<longrightarrow> sending c)"

text \<open>A user who waits for each save: type a value, release the key, wait for the answer.\<close>

definition paced :: "jstr list \<Rightarrow> client_event list" where
  "paced vs = concat (map (\<lambda>v. [Input v, KeyUp, Respond]) vs)"

subsection \<open>Lemmas\<close>

lemma client_run_append:
  "client_run env path auth (es @ fs) c = client_run env path auth fs (client_run env path auth es c)"
  by (induction es arbitrary: c) simp_all

lemma client_inv_step: "client_inv c \<Longrightarrow> client_inv (client_step env path auth e c)"
  by (cases e) (auto simp: client_inv_def keyup_def split: list.splits)

lemma client_inv_run: "client_inv c \<Longrightarrow> client_inv (client_run env path auth es c)"
  by (induction es arbitrary: c) (simp_all add: client_inv_step)

lemma client_inv_init: "client_inv (client_init t db)"
  by (simp add: client_inv_def client_init_def)

text \<open>Once the flag is set with nothing in flight, no event ever sends again.\<close>

lemma stuck_step:
  "sending c \<Longrightarrow> in_flight c = [] \<Longrightarrow>
   sending (client_step env path auth e c) \<and> in_flight (client_step env path auth e c) = []
   \<and> store (client_step env path auth e c) = store c"
  by (cases e) (simp_all add: keyup_def)

lemma stuck_run:
  "sending c \<Longrightarrow> in_flight c = [] \<Longrightarrow> store (client_run env path auth es c) = store c"
proof (induction es arbitrary: c)
  case (Cons e es)
  then show ?case using stuck_step [OF Cons.prems, of env path auth e] by simp
qed simp

text \<open>One paced round on an idle page sends the typed value and ends idle.\<close>

lemma paced_round:
  assumes "\<not> sending c" "in_flight c = []"
  shows "client_run env path auth [Input v, KeyUp, Respond] c =
    c\<lparr>textarea := v, store := snd (serve_request env (save_request path auth v) (store c))\<rparr>"
  using assms by (simp add: keyup_def)

lemma paced_idle:
  "\<not> sending c \<Longrightarrow> in_flight c = [] \<Longrightarrow>
   \<not> sending (client_run env path auth (paced vs) c) \<and> in_flight (client_run env path auth (paced vs) c) = []"
proof (induction vs arbitrary: c)
  case (Cons v vs)
  then show ?case
    by (simp add: paced_def client_run_append [of _ _ _ "[Input v, KeyUp, Respond]", simplified] keyup_def)
qed (simp add: paced_def)

lemma paced_snoc:
  "paced (vs @ [v]) = paced vs @ [Input v, KeyUp, Respond]"
  by (simp add: paced_def)

lemma serve_save_nonblank:
  assumes "authorized env (Some auth) = Inr True" "note_exec path = Some raw" "decodeURI raw = Some nid"
    "js_trim b \<noteq> []"
  shows "kv_get (snd (serve_request env (save_request path auth b) db)) (note_key nid) = Some b"
  using assms by (simp add: serve_note save_request_def kv_get_map_of map_of_kv_set)

subsection \<open>Properties of the autosave script\<close>

text \<open>
  C20 (invariant): whatever the user does and whatever the network does, the flag keeps
  at most one save request in flight, and none while the flag is clear.
\<close>

theorem client_single_in_flight:
  "client_inv (client_run env path auth es (client_init t db))"
  by (rule client_inv_run [OF client_inv_init])

theorem client_single_in_flight_witness:
  "length (in_flight (client_run demo_env (js ''/x'') (js ''Basic dTpw'') [KeyUp, Input (js ''a''), KeyUp]
       (client_init [] []))) \<le> 1 \<and>
   in_flight (client_run demo_env (js ''/x'') (js ''Basic dTpw'') [KeyUp, Input (js ''a''), KeyUp]
       (client_init [] [])) = [[]]"
proof -
  have "client_inv (client_run demo_env (js ''/x'') (js ''Basic dTpw'') [KeyUp, Input (js ''a''), KeyUp]
       (client_init [] []))"
    by (rule client_single_in_flight)
  then show ?thesis by (simp add: client_inv_def client_init_def keyup_def)
qed

text \<open>
  C21 (functional): a user who waits for each save before typing on gets every value
  saved in turn: after the last answer the page is idle and the store holds the last
  value typed, when it is not blank.
\<close>

theorem autosave_paced_saves_last:
  assumes "authorized env (Some auth) = Inr True" "note_exec path = Some raw" "decodeURI raw = Some nid"
    "js_trim v \<noteq> []"
  shows "let c = client_run env path auth (paced (vs @ [v])) (client_init t db) in
    \<not> sending c \<and> in_flight c = [] \<and> textarea c = v \<and> kv_get (store c) (note_key nid) = Some v"
proof -
  let ?c = "client_run env path auth (paced vs) (client_init t db)"
  have idle: "\<not> sending ?c" "in_flight ?c = []"
    using paced_idle [of "client_init t db"] by (simp_all add: client_init_def)
  have r: "client_run env path auth [Input v, KeyUp, Respond] ?c =
    ?c\<lparr>textarea := v, store := snd (serve_request env (save_request path auth v) (store ?c))\<rparr>"
    by (rule paced_round [OF idle])
  show ?thesis
    unfolding paced_snoc client_run_append r
    using idle serve_save_nonblank [OF assms] by simp
qed

theorem autosave_paced_saves_last_witness:
  "let c = client_run demo_env (js ''/x'') (js ''Basic dTpw'') (paced [js ''a'', js ''hi'']) (client_init [] []) in
    \<not> sending c \<and> in_flight c = [] \<and> textarea c = js ''hi'' \<and> kv_get (store c) (note_key (js ''x'')) = Some (js ''hi'')"
proof -
  have e: "note_exec (js ''/x'') = Some (js ''x'')" by (simp add: note_exec_def jstr_simps)
  have d: "decodeURI (js ''x'') = Some (js ''x'')" by (rule decodeURI_no_percent) (simp add: jstr_simps)
  have h: "js_trim (js ''hi'') \<noteq> []" by (subst js_trim_hi) (simp add: jstr_simps)
  show ?thesis
    using autosave_paced_saves_last [OF demo_authorized e d h, of "[js ''a'']" "[]" "[]"] by simp
qed

text \<open>
  C22 (functional): the last edit can be lost. When the user types a second value while
  the first is being saved, the key-up of the second value is ignored; once the answer
  arrives the page is idle, nothing is in flight, the textarea shows the second value
  and the store keeps the first, and no further answer or error changes that.
\<close>

theorem autosave_loses_last_edit:
  assumes "authorized env (Some auth) = Inr True" "note_exec path = Some raw" "decodeURI raw = Some nid"
    "js_trim a \<noteq> []"
  shows "let c = client_run env path auth [Input a, KeyUp, Input b, KeyUp, Respond] (client_init t db) in
    \<not> sending c \<and> in_flight c = [] \<and> textarea c = b \<and> kv_get (store c) (note_key nid) = Some a
    \<and> client_step env path auth Respond c = c \<and> client_step env path auth NetworkError c = c"
  using serve_save_nonblank [OF assms, of db] by (simp add: client_init_def keyup_def)

theorem autosave_loses_last_edit_witness:
  "let c = client_run demo_env (js ''/x'') (js ''Basic dTpw'')
        [Input (js ''hi''), KeyUp, Input (js ''hi!''), KeyUp, Respond] (client_init [] []) in
    \<not> sending c \<and> in_flight c = [] \<and> textarea c = js ''hi!'' \<and> kv_get (store c) (note_key (js ''x'')) = Some (js ''hi'')
    \<and> client_step demo_env (js ''/x'') (js ''Basic dTpw'') Respond c = c
    \<and> client_step demo_env (js ''/x'') (js ''Basic dTpw'') NetworkError c = c"
proof -
  have e: "note_exec (js ''/x'') = Some (js ''x'')" by (simp add: note_exec_def jstr_simps)
  have d: "decodeURI (js ''x'') = Some (js ''x'')" by (rule decodeURI_no_percent) (simp add: jstr_simps)
  have h: "js_trim (js ''hi'') \<noteq> []" by (subst js_trim_hi) (simp add: jstr_simps)
  show ?thesis
    using autosave_loses_last_edit [OF demo_authorized e d h, of "js ''hi!''" "[]" "[]"] by simp
qed

text \<open>
  C23 (liveness): a single network error stops autosave for good. If the first save of an
  idle page is lost, the flag stays set, and no later sequence of edits, key-ups,
  answers or errors ever changes the store again.
\<close>

theorem autosave_stuck_after_network_error:
  assumes "\<not> sending c" "in_flight c = []"
  shows "store (client_run env path auth (KeyUp # NetworkError # es) c) = store c"
proof -
  let ?c = "client_step env path auth NetworkError (client_step env path auth KeyUp c)"
  have "sending ?c" "in_flight ?c = []" "store ?c = store c"
    using assms by (simp_all add: keyup_def)
  then show ?thesis using stuck_run [of ?c env path auth es] by simp
qed

theorem autosave_stuck_after_network_error_witness:
  "store (client_run demo_env (js ''/x'') (js ''Basic dTpw'')
      [KeyUp, NetworkError, Input (js ''hi''), KeyUp, Respond] (client_init [] [])) = []"
  using autosave_stuck_after_network_error [of "client_init [] []" demo_env "js ''/x''" "js ''Basic dTpw''"
      "[Input (js ''hi''), KeyUp, Respond]"] by (simp add: client_init_def)

end
