(* ===== verification/HTML.thy ===== *)
theory HTML
  imports Views
begin

text \<open>
  How a browser reads back the pages of \<open>Views\<close>: the parts of the WHATWG HTML parser
  that decide where the text of a \<^verbatim>\<open><title>\<close> or \<^verbatim>\<open><textarea>\<close> element ends and
  what value the editing field starts with. The input stream is first normalised
  (every CR LF pair and every lone CR becomes LF). After the start tag of either
  element the tokenizer is in the RCDATA state: everything is text until an
  \<^emph>\<open>appropriate end tag\<close>, that is \<^verbatim>\<open></\<close> followed by the element's name in any
  ASCII case and then white space, \<^verbatim>\<open>/\<close> or \<^verbatim>\<open>>\<close>; what follows that end tag is
  tokenized as markup again. For a \<^verbatim>\<open>textarea\<close>, a line feed right after the start tag
  is dropped, U+0000 becomes U+FFFD, and the remaining text is the field's initial
  value. Character references (\<^verbatim>\<open>&...;\<close>) are decoded in RCDATA and in attribute
  values (\<open>decode_refs\<close>), numeric ones by the standard's rules and named ones by a
  table given as a parameter.
\<close>

function normalize_newlines :: "jstr \<Rightarrow> jstr" where
  "normalize_newlines [] = []"
| "normalize_newlines (c # cs) =
     (if c = 13 then 10 # normalize_newlines (if cs \<noteq> [] \<and> hd cs = 10 then tl cs else cs)
      else c # normalize_newlines cs)"
  by pat_completeness auto
termination
  by (relation "measure length") auto

definition ascii_lower :: "cp \<Rightarrow> cp" where
  "ascii_lower c = (if 65 \<le> c \<and> c \<le> 90 then c + 32 else c)"

text \<open>The characters that end a tag name: tab, line feed, form feed, space, \<^verbatim>\<open>/\<close>, \<^verbatim>\<open>>\<close>.\<close>

definition tag_name_end :: "cp \<Rightarrow> bool" where
  "tag_name_end c \<longleftrightarrow> c \<in> {9, 10, 12, 32, 47, 62}"

definition appropriate_end_tag :: "jstr \<Rightarrow> jstr \<Rightarrow> bool" where
  "appropriate_end_tag tag s \<longleftrightarrow> take 2 s = [60, 47] \<and> length tag + 2 < length s
     \<and> map ascii_lower (take (length tag) (drop 2 s)) = tag \<and> tag_name_end (s ! (length tag + 2))"

text \<open>The RCDATA text up to the appropriate end tag, and the input from that tag on.\<close>

fun rcdata_text :: "jstr \<Rightarrow> jstr \<Rightarrow> jstr \<times> jstr" where
  "rcdata_text tag [] = ([], [])"
| "rcdata_text tag (c # cs) =
     (if appropriate_end_tag tag (c # cs) then ([], c # cs)
      else (let (t, r) = rcdata_text tag cs in (c # t, r)))"

definition rcdata_element :: "jstr \<Rightarrow> jstr \<Rightarrow> jstr \<times> jstr" where
  "rcdata_element tag s = rcdata_text tag (normalize_newlines s)"

subsection \<open>Character references\<close>

text \<open>
  The character reference state and the states it leads to, entered on \<^verbatim>\<open>&\<close> in
  the RCDATA state and in the attribute value states. \<open>char_ref tbl attr s\<close> reads
  the input \<open>s\<close> after the \<^verbatim>\<open>&\<close> and gives the characters emitted for it and the
  number of characters of \<open>s\<close> it consumed; when nothing is consumed the \<^verbatim>\<open>&\<close> stands
  for itself and the rest is read again in the return state, which is what the
  standard's flush of the temporary buffer and the ambiguous ampersand state come to
  in RCDATA and in an attribute value. The table of named character references
  (some two thousand names, each with the \<^verbatim>\<open>;\<close> it ends with where it has one) is the
  parameter \<open>tbl\<close>; the longest name that the input starts with is taken.
  \<open>attr\<close> is set in an attribute value, where a match not ending in \<^verbatim>\<open>;\<close> and
  followed by \<^verbatim>\<open>=\<close> or an ASCII alphanumeric is left as text.
\<close>

type_synonym named_refs = "(jstr \<times> jstr) list"

definition is_ascii_digit :: "cp \<Rightarrow> bool" where
  "is_ascii_digit c \<longleftrightarrow> 48 \<le> c \<and> c \<le> 57"

definition is_ascii_hex_digit :: "cp \<Rightarrow> bool" where
  "is_ascii_hex_digit c \<longleftrightarrow> is_ascii_digit c \<or> (65 \<le> c \<and> c \<le> 70) \<or> (97 \<le> c \<and> c \<le> 102)"

definition is_ascii_alnum :: "cp \<Rightarrow> bool" where
  "is_ascii_alnum c \<longleftrightarrow> is_ascii_digit c \<or> (65 \<le> c \<and> c \<le> 90) \<or> (97 \<le> c \<and> c \<le> 122)"

definition hex_value :: "cp \<Rightarrow> nat" where
  "hex_value c = (if c \<le> 57 then c - 48 else if c \<le> 70 then c - 55 else c - 87)"

definition digits_value :: "nat \<Rightarrow> (cp \<Rightarrow> nat) \<Rightarrow> jstr \<Rightarrow> nat" where
  "digits_value base val ds = foldl (\<lambda>n c. n * base + val c) 0 ds"

text \<open>The numeric character reference end state: the replacements of the standard's
  table for the C1 range.\<close>

definition c1_remap :: "(nat \<times> cp) list" where
  "c1_remap = [(0x80, 0x20AC), (0x82, 0x201A), (0x83, 0x0192), (0x84, 0x201E), (0x85, 0x2026),
    (0x86, 0x2020), (0x87, 0x2021), (0x88, 0x02C6), (0x89, 0x2030), (0x8A, 0x0160), (0x8B, 0x2039),
    (0x8C, 0x0152), (0x8E, 0x017D), (0x91, 0x2018), (0x92, 0x2019), (0x93, 0x201C), (0x94, 0x201D),
    (0x95, 0x2022), (0x96, 0x2013), (0x97, 0x2014), (0x98, 0x02DC), (0x99, 0x2122), (0x9A, 0x0161),
    (0x9B, 0x203A), (0x9C, 0x0153), (0x9E, 0x017E), (0x9F, 0x0178)]"

text \<open>Zero, a value above U+10FFFF and a surrogate become U+FFFD; the other parse errors
  of that state keep the value.\<close>

definition numeric_ref_value :: "nat \<Rightarrow> cp" where
  "numeric_ref_value n =
     (if n = 0 \<or> 0x10FFFF < n \<or> (0xD800 \<le> n \<and> n \<le> 0xDFFF) then 0xFFFD
      else case map_of c1_remap n of Some c \<Rightarrow> c | None \<Rightarrow> n)"

text \<open>The (hexadecimal) numeric character reference start and value states: \<open>skip\<close>
  characters (\<^verbatim>\<open>#\<close>, or \<^verbatim>\<open>#x\<close>) have been read; without a digit they are text again.
  The closing \<^verbatim>\<open>;\<close> is consumed when present.\<close>

definition numeric_ref :: "nat \<Rightarrow> (cp \<Rightarrow> bool) \<Rightarrow> (cp \<Rightarrow> nat) \<Rightarrow> nat \<Rightarrow> jstr \<Rightarrow> jstr \<times> nat" where
  "numeric_ref base is_digit val skip s =
     (let ds = takeWhile is_digit s; r = dropWhile is_digit s in
      if ds = [] then ([38], 0)
      else ([numeric_ref_value (digits_value base val ds)],
            skip + length ds + (if r \<noteq> [] \<and> hd r = 59 then 1 else 0)))"

definition longest_named_ref :: "named_refs \<Rightarrow> jstr \<Rightarrow> (jstr \<times> jstr) option" where
  "longest_named_ref tbl s =
     fold (\<lambda>(n, v) best. if prefix n s \<and> (case best of None \<Rightarrow> True | Some (m, _) \<Rightarrow> length m < length n)
                         then Some (n, v) else best) tbl None"

definition char_ref :: "named_refs \<Rightarrow> bool \<Rightarrow> jstr \<Rightarrow> jstr \<times> nat" where
  "char_ref tbl attr s =
     (case s of
        [] \<Rightarrow> ([38], 0)
      | c # r \<Rightarrow>
          if is_ascii_alnum c then
            (case longest_named_ref tbl s of
               Some (n, v) \<Rightarrow>
                 (let after = drop (length n) s in
                  if attr \<and> last n \<noteq> 59 \<and> after \<noteq> [] \<and> (hd after = 61 \<or> is_ascii_alnum (hd after))
                  then ([38], 0) else (v, length n))
             | None \<Rightarrow> ([38], 0))
          else if c = 35 then
            (case r of
               x # r' \<Rightarrow> if x = 120 \<or> x = 88 then numeric_ref 16 is_ascii_hex_digit hex_value 2 r'
                         else numeric_ref 10 is_ascii_digit (\<lambda>d. d - 48) 1 r
             | [] \<Rightarrow> ([38], 0))
          else ([38], 0))"

text \<open>The text of an RCDATA run or of an attribute value as the tokenizer emits it:
  references decoded, U+0000 replaced by U+FFFD.\<close>

function decode_refs :: "named_refs \<Rightarrow> bool \<Rightarrow> jstr \<Rightarrow> jstr" where
  "decode_refs tbl attr [] = []"
| "decode_refs tbl attr (c # cs) =
     (if c = 38 then (let (v, n) = char_ref tbl attr cs in v @ decode_refs tbl attr (drop n cs))
      else (if c = 0 then 0xFFFD else c) # decode_refs tbl attr cs)"
  by pat_completeness auto
termination
  by (relation "measure (length \<circ> snd \<circ> snd)") auto

text \<open>The initial value of the editing field whose start tag is followed by \<open>s\<close>: the
  decoded text, less a line feed that comes first (the tree builder drops that
  character token whether it was written as such or as a reference).\<close>

definition textarea_value :: "named_refs \<Rightarrow> jstr \<Rightarrow> jstr" where
  "textarea_value tbl s =
     (let t = decode_refs tbl False (fst (rcdata_element (js ''textarea'') s))
      in if t \<noteq> [] \<and> hd t = 10 then tl t else t)"

definition textarea_open :: jstr where
  \<open>textarea_open = js ''<textarea id="text" placeholder="Write here your notes" autofocus>''\<close>

text \<open>The attribute value (double-quoted) state: the value runs to the next \<^verbatim>\<open>"\<close>,
  and the tokenizer reads what follows as the rest of the tag.\<close>

definition dq_attribute_value :: "jstr \<Rightarrow> jstr \<times> jstr" where
  "dq_attribute_value s = (takeWhile (\<lambda>c. c \<noteq> 34) s, dropWhile (\<lambda>c. c \<noteq> 34) s)"

subsection \<open>Lemmas\<close>

lemma rcdata_text_end_tag:
  "appropriate_end_tag tag r \<Longrightarrow> rcdata_text tag r = ([], r)"
  by (cases r) (simp_all add: appropriate_end_tag_def)

lemma normalize_newlines_append:
  "13 \<notin> set a \<Longrightarrow> normalize_newlines (a @ r) = a @ normalize_newlines r"
  by (induction a rule: normalize_newlines.induct) auto

lemma end_tag_textarea: "appropriate_end_tag (js ''textarea'') (js ''</textarea>'' @ r)"
  by (simp add: appropriate_end_tag_def ascii_lower_def tag_name_end_def js_def)

text \<open>Text without \<^verbatim>\<open></\<close> holds no end tag, as long as what follows does not
  start with \<^verbatim>\<open>/\<close>.\<close>

lemma rcdata_text_plain:
  assumes "\<not> sublist [60, 47] a" "r = [] \<or> hd r \<noteq> 47"
  shows "rcdata_text tag (a @ r) = (a @ fst (rcdata_text tag r), snd (rcdata_text tag r))"
  using assms
proof (induction a)
  case (Cons c cs)
  have ih: "rcdata_text tag (cs @ r) = (cs @ fst (rcdata_text tag r), snd (rcdata_text tag r))"
    using Cons.prems by (intro Cons.IH) (auto simp: sublist_Cons_right)
  have "\<not> appropriate_end_tag tag (c # cs @ r)"
  proof
    assume e: "appropriate_end_tag tag (c # cs @ r)"
    then have "2 < length (c # cs @ r)" by (simp add: appropriate_end_tag_def)
    then obtain d ds where dd: "cs @ r = d # ds" by (cases "cs @ r") auto
    with e have c: "c = 60" and "d = 47" by (simp_all add: appropriate_end_tag_def)
    with dd have h: "hd (cs @ r) = 47" "cs @ r \<noteq> []" by simp_all
    show False
    proof (cases cs)
      case Nil
      with h Cons.prems(2) show False by auto
    next
      case (Cons d ds)
      with h c Cons.prems(1) show False
        by (simp add: sublist_Cons_right)
    qed
  qed
  with ih show ?case by simp
qed simp

lemma templateNote_some_shape:
  "\<exists>pre post. templateNote title (Some b) = pre @ textarea_open @ b @ js ''</textarea>'' @ post"
  using templateNote_shape [of title "Some b"] by (simp add: textarea_open_def or_empty_def)

lemma textarea_element_plain:
  assumes "\<not> sublist [60, 47] b" "13 \<notin> set b"
  shows "rcdata_element (js ''textarea'') (b @ js ''</textarea>'' @ post) =
    (b, js ''</textarea>'' @ normalize_newlines post)"
proof -
  have n: "normalize_newlines (b @ js ''</textarea>'' @ post) = b @ js ''</textarea>'' @ normalize_newlines post"
    using assms(2) by (simp add: normalize_newlines_append js_def)
  have "hd (js ''</textarea>'' @ normalize_newlines post) \<noteq> 47" by (simp add: js_def)
  then show ?thesis
    unfolding rcdata_element_def n
    using rcdata_text_plain [OF assms(1)] rcdata_text_end_tag [OF end_tag_textarea]
    by simp
qed

lemma normalize_newlines_split:
  "r = [] \<or> hd r \<noteq> 10 \<Longrightarrow> normalize_newlines (a @ r) = normalize_newlines a @ normalize_newlines r"
proof (induction a rule: normalize_newlines.induct)
  case (2 c cs)
  show ?case
  proof (cases "c = 13")
    case c: True
    show ?thesis
    proof (cases "cs = []")
      case True
      with c "2.prems" show ?thesis by auto
    next
      case False
      then have "(if cs @ r \<noteq> [] \<and> hd (cs @ r) = 10 then tl (cs @ r) else cs @ r)
          = (if cs \<noteq> [] \<and> hd cs = 10 then tl cs else cs) @ r" by auto
      with c "2.IH"(1) [OF c "2.prems"] show ?thesis by simp
    qed
  next
    case False
    with "2.IH"(2) [OF False "2.prems"] show ?thesis by simp
  qed
qed simp

lemma set_normalize_newlines: "c \<in> set (normalize_newlines s) \<Longrightarrow> c \<in> set s \<or> c = 10"
  by (induction s rule: normalize_newlines.induct) (auto split: if_splits dest: list.set_sel(2))

lemma end_tag_title: "appropriate_end_tag (js ''title'') (js ''</title>'' @ r)"
  by (simp add: appropriate_end_tag_def ascii_lower_def tag_name_end_def js_def)

text \<open>A title without a slash ends exactly at the template's closing tag.\<close>

lemma title_element_no_slash:
  assumes "47 \<notin> set t"
  shows "fst (rcdata_element (js ''title'') (t @ js ''</title>'' @ post)) = normalize_newlines t"
proof -
  have n: "normalize_newlines (t @ js ''</title>'' @ post) = normalize_newlines t @ js ''</title>'' @ normalize_newlines post"
    using normalize_newlines_split [of "js ''</title>'' @ post" t]
    by (simp add: js_def normalize_newlines_append)
  have "\<not> sublist [60, 47] (normalize_newlines t)"
    using assms by (auto dest!: set_mono_sublist set_normalize_newlines)
  moreover have "hd (js ''</title>'' @ normalize_newlines post) \<noteq> 47" by (simp add: js_def)
  ultimately show ?thesis
    unfolding rcdata_element_def n
    using rcdata_text_plain rcdata_text_end_tag [OF end_tag_title] by simp
qed

text \<open>A text in which no \<^verbatim>\<open>&\<close> is followed by \<^verbatim>\<open>#\<close> or an ASCII alphanumeric
  holds no character reference, and one without NUL is emitted unchanged.\<close>

lemma decode_refs_plain:
  "0 \<notin> set b \<Longrightarrow> list_all (\<lambda>(a, c). a = 38 \<longrightarrow> c \<noteq> 35 \<and> \<not> is_ascii_alnum c) (zip b (tl b)) \<Longrightarrow>
   decode_refs tbl attr b = b"
proof (induction b)
  case (Cons c cs)
  have "list_all (\<lambda>(a, c). a = 38 \<longrightarrow> c \<noteq> 35 \<and> \<not> is_ascii_alnum c) (zip cs (tl cs))"
    using Cons.prems(2) by (cases cs) auto
  then have ih: "decode_refs tbl attr cs = cs"
    using Cons.prems(1) by (intro Cons.IH) auto
  have "c = 38 \<Longrightarrow> char_ref tbl attr cs = ([38], 0)"
    using Cons.prems by (cases cs) (auto simp: char_ref_def)
  with Cons.prems ih show ?case by auto
qed simp

lemma decode_refs_append:
  "38 \<notin> set x \<Longrightarrow> 0 \<notin> set x \<Longrightarrow> decode_refs tbl attr (x @ r) = x @ decode_refs tbl attr r"
  by (induction x) auto

lemma decode_refs_amp_ref: "decode_refs tbl attr (js ''&#38;'' @ y) = 38 # decode_refs tbl attr y"
  by (simp add: js_def char_ref_def numeric_ref_def numeric_ref_value_def is_ascii_alnum_def
      is_ascii_digit_def digits_value_def c1_remap_def)

lemma textarea_value_plain:
  assumes "\<not> sublist [60, 47] b" "13 \<notin> set b"
  shows "textarea_value tbl (b @ js ''</textarea>'' @ post) =
    (let t = decode_refs tbl False b in if t \<noteq> [] \<and> hd t = 10 then tl t else t)"
  using textarea_element_plain [OF assms] by (simp add: textarea_value_def)

subsection \<open>Properties of the note page\<close>

text \<open>
  C31 (roundtrip): an ordinary note survives the page: when the stored body has no
  \<^verbatim>\<open></\<close>, no carriage return or NUL, no \<^verbatim>\<open>&\<close> that starts a character reference
  (one followed by \<^verbatim>\<open>#\<close> or a letter or digit) and does not start with a line feed,
  the editing field of the page \<^verbatim>\<open>templateNote\<close> renders starts with exactly that
  body, whatever the table of named references.
\<close>

theorem note_page_textarea_value:
  assumes "\<not> sublist [60, 47] b" "list_all (\<lambda>c. c \<notin> {0, 13}) b"
    "list_all (\<lambda>(a, c). a = 38 \<longrightarrow> c \<noteq> 35 \<and> \<not> is_ascii_alnum c) (zip b (tl b))" "b = [] \<or> hd b \<noteq> 10"
  shows "\<exists>pre post. templateNote title (Some b) = pre @ textarea_open @ b @ js ''</textarea>'' @ post
    \<and> textarea_value tbl (b @ js ''</textarea>'' @ post) = b"
proof -
  obtain pre post where e: "templateNote title (Some b) = pre @ textarea_open @ b @ js ''</textarea>'' @ post"
    using templateNote_some_shape by blast
  have "13 \<notin> set b" "0 \<notin> set b" using assms(2) by (auto simp: list_all_iff)
  then have "textarea_value tbl (b @ js ''</textarea>'' @ post) = b"
    using assms textarea_value_plain [OF assms(1)] decode_refs_plain by auto
  with e show ?thesis by blast
qed

theorem note_page_textarea_value_witness:
  "\<exists>pre post. templateNote (js ''x'') (Some (js ''Tom & Jerry'')) =
      pre @ textarea_open @ js ''Tom & Jerry'' @ js ''</textarea>'' @ post
    \<and> textarea_value [(js ''amp;'', [38])] (js ''Tom & Jerry'' @ js ''</textarea>'' @ post) = js ''Tom & Jerry''"
proof -
  have "\<not> sublist [60, 47] (js ''Tom & Jerry'')" by (simp add: js_def sublist_Cons_right)
  moreover have "list_all (\<lambda>c. c \<notin> {0, 13}) (js ''Tom & Jerry'')" by (simp add: js_def)
  moreover have "list_all (\<lambda>(a, c). a = 38 \<longrightarrow> c \<noteq> 35 \<and> \<not> is_ascii_alnum c)
      (zip (js ''Tom & Jerry'') (tl (js ''Tom & Jerry'')))"
    by (simp add: js_def is_ascii_alnum_def is_ascii_digit_def)
  moreover have "js ''Tom & Jerry'' = [] \<or> hd (js ''Tom & Jerry'') \<noteq> 10" by (simp add: js_def)
  ultimately show ?thesis by (rule note_page_textarea_value)
qed

text \<open>
  C32 (safety): a stored body can end the editing field early. When the body is
  \<^verbatim>\<open>a</textarea>r\<close> with no \<^verbatim>\<open></\<close> in \<open>a\<close>, the field holds only \<open>a\<close>, and the
  browser reads \<open>r\<close> as markup of the page: a note can inject script into the page
  of everyone who opens it.
\<close>

theorem note_page_textarea_breakout:
  assumes "\<not> sublist [60, 47] a" "13 \<notin> set a"
  shows "\<exists>pre post.
    templateNote title (Some (a @ js ''</textarea>'' @ r)) =
      pre @ textarea_open @ a @ js ''</textarea>'' @ r @ js ''</textarea>'' @ post
    \<and> rcdata_element (js ''textarea'') (a @ js ''</textarea>'' @ r @ js ''</textarea>'' @ post) =
      (a, js ''</textarea>'' @ normalize_newlines (r @ js ''</textarea>'' @ post))"
proof -
  obtain pre post where
    "templateNote title (Some (a @ js ''</textarea>'' @ r)) =
       pre @ textarea_open @ (a @ js ''</textarea>'' @ r) @ js ''</textarea>'' @ post"
    using templateNote_some_shape by blast
  then show ?thesis
    using textarea_element_plain [OF assms, of "r @ js ''</textarea>'' @ post"] by auto
qed

theorem note_page_textarea_breakout_witness:
  "\<exists>pre post.
    templateNote (js ''x'') (Some (js ''hi'' @ js ''</textarea>'' @ js ''<script>alert(1)</script>'')) =
      pre @ textarea_open @ js ''hi'' @ js ''</textarea>'' @ js ''<script>alert(1)</script>''
        @ js ''</textarea>'' @ post
    \<and> rcdata_element (js ''textarea'')
        (js ''hi'' @ js ''</textarea>'' @ js ''<script>alert(1)</script>'' @ js ''</textarea>'' @ post) =
      (js ''hi'', js ''</textarea>'' @ normalize_newlines (js ''<script>alert(1)</script>'' @ js ''</textarea>'' @ post))"
proof -
  have "\<not> sublist [60, 47] (js ''hi'')" "13 \<notin> set (js ''hi'')" by (simp_all add: js_def sublist_Cons_right)
  then show ?thesis by (rule note_page_textarea_breakout)
qed

text \<open>
  C35 (safety): a note id with a double quote ends the link's \<^verbatim>\<open>href\<close> attribute on
  the list page: \<^verbatim>\<open>note_item\<close> inserts the id unescaped, so for the id
  \<open>a"r\<close> the attribute value is \<^verbatim>\<open>/a\<close> and \<open>r\<close> is read as further attributes of
  the link (for example an event handler).
\<close>

theorem note_item_attribute_breakout:
  assumes "34 \<notin> set a"
  shows "\<exists>post. note_item (a @ 34 # r) = js ''<li><a href=\"'' @ js ''/'' @ a @ 34 # r @ post
    \<and> dq_attribute_value (js ''/'' @ a @ 34 # r @ post) = (js ''/'' @ a, 34 # r @ post)"
proof -
  have "note_item (a @ 34 # r) = js ''<li><a href=\"'' @ js ''/'' @ a @ 34 # r @
      (js ''\">'' @ (a @ 34 # r) @ js ''</a></li>'')"
    by (simp add: note_item_def js_def)
  moreover have "dq_attribute_value (js ''/'' @ a @ 34 # r @ p) = (js ''/'' @ a, 34 # r @ p)" for p
    using assms by (simp add: dq_attribute_value_def takeWhile_append dropWhile_append js_def)
  ultimately show ?thesis by blast
qed

theorem note_item_attribute_breakout_witness:
  "\<exists>post. note_item (js ''x'' @ 34 # js '' onmouseover=alert(1) '') =
      js ''<li><a href=\"'' @ js ''/'' @ js ''x'' @ 34 # js '' onmouseover=alert(1) '' @ post
    \<and> dq_attribute_value (js ''/'' @ js ''x'' @ 34 # js '' onmouseover=alert(1) '' @ post) =
      (js ''/'' @ js ''x'', 34 # js '' onmouseover=alert(1) '' @ post)"
  by (rule note_item_attribute_breakout) (simp add: js_def)

end
