(* ===== verification/Form.thy ===== *)
theory Form
  imports URL Handler HTML
begin

text \<open>
  The new-note form of the list page (\<^verbatim>\<open>src/server.ts\<close>, lines 73--86) and the
  request it leads to. On submit the script cancels the form's own \<^verbatim>\<open>GET /\<close>, reads
  the text field (\<^verbatim>\<open>new FormData(form).get('name')\<close>, the field's value, from which the
  browser has removed line breaks), and, when it is not empty, assigns
  \<^verbatim>\<open>document.location = '/' + name\<close>. The browser parses that string against the page's
  URL (theory \<open>URL\<close>) and, for a same-origin path, sends \<^verbatim>\<open>GET\<close> of the pathname with the
  page's credentials; the server then answers as \<open>serve_request\<close> says.
\<close>

text \<open>Lines 81--84: the assignment, or nothing for an empty name.\<close>

definition new_note_location :: "jstr \<Rightarrow> jstr option" where
  "new_note_location name = (if name \<noteq> [] then Some (js ''/'' @ name) else None)"

definition new_note_navigation :: "jstr \<Rightarrow> url_target option" where
  "new_note_navigation name =
     (case new_note_location name of None \<Rightarrow> None | Some href \<Rightarrow> parse_path_absolute href)"

definition get_request :: "jstr \<Rightarrow> jstr \<Rightarrow> request" where
  "get_request auth path =
     \<lparr>req_method = js ''GET'', req_pathname = path, req_authorization = Some auth, req_body = []\<rparr>"

text \<open>Following the link of a note on the list page: the browser reads the
  \<^verbatim>\<open>href\<close> attribute of \<^verbatim>\<open>note_item\<close> (line 69), decodes its character references
  with the table \<open>tbl\<close>, and parses it like the form's location.\<close>

definition note_link_navigation :: "named_refs \<Rightarrow> jstr \<Rightarrow> url_target option" where
  \<open>note_link_navigation tbl note_id =
     parse_path_absolute (decode_refs tbl True
       (fst (dq_attribute_value (drop (length (js ''<li><a href="'')) (note_item note_id)))))\<close>

text \<open>Following the link \<^verbatim>\<open><a class="button is-floating" href="../">Back</a>\<close> of the
  note page (line 98) from a page whose URL has the path segments \<open>base\<close>:
  \<^verbatim>\<open>../\<close> has no scheme and does not start with a slash, so the URL parser's relative
  state takes the base's path less its last segment, and the path state reads
  \<^verbatim>\<open>../\<close> from there.\<close>

definition back_link_navigation :: "jstr list \<Rightarrow> url_target" where
  "back_link_navigation base = Same_origin_path (serialize_path (path_state (butlast base) [] (js ''../'')))"

subsection \<open>Lemmas\<close>

lemma set_utf8_percent_encode:
  "c \<in> set (utf8_percent_encode P s) \<Longrightarrow> c \<in> set s \<or> c = 37 \<or> (\<exists>d. c = hex_upper d)"
  by (auto simp: utf8_percent_encode_def percent_byte_def split: if_splits)

lemma slash_not_encoded: "47 \<notin> set s \<Longrightarrow> 47 \<notin> set (utf8_percent_encode P s)"
  by (auto dest!: set_utf8_percent_encode simp: hex_upper_def split: if_splits)

lemma plain_name_decodes:
  assumes "plain_note_name name" "\<forall>c \<in> set name. scalar_value c"
  shows "decodeURI (utf8_percent_encode path_percent_encode_set name) = Some name"
proof (rule decodeURI_percent_encode, intro ballI conjI impI)
  fix c assume c: "c \<in> set name"
  with assms show "scalar_value c" by simp
  from c assms(1) have "c \<notin> {47, 92, 63, 35, 37}" by (auto simp: plain_note_name_def list_all_iff)
  then show "c = 37 \<Longrightarrow> path_percent_encode_set c" by simp
  show "\<not> uri_reserved c" if "path_percent_encode_set c \<and> c < 0x80"
    using that \<open>c \<notin> {47, 92, 63, 35, 37}\<close>
    by (auto simp: path_percent_encode_set_def uri_reserved_def js_def)
qed

lemma new_note_plain_path:
  assumes "plain_note_name name"
  shows "new_note_navigation name =
    Some (Same_origin_path (47 # utf8_percent_encode path_percent_encode_set name))"
  using assms parse_plain_name [OF assms]
  by (simp add: new_note_navigation_def new_note_location_def plain_note_name_def js_def)

lemma plain_path_opens:
  assumes "authorized env (Some auth) = Inr True" "plain_note_name name" "\<forall>c \<in> set name. scalar_value c"
  shows "serve_request env (get_request auth (47 # utf8_percent_encode path_percent_encode_set name)) db =
      (new_Response (templateNote name (kv_get db (note_key name))) 200 [] html_headers, db)"
proof -
  let ?e = "utf8_percent_encode path_percent_encode_set name"
  from assms(2) have ne: "name \<noteq> []" and sl: "47 \<notin> set name"
    by (auto simp: plain_note_name_def list_all_iff)
  have "note_exec (47 # ?e) = Some ?e"
    using ne slash_not_encoded [OF sl] by simp
  moreover have "js ''GET'' \<noteq> js ''POST''" by simp
  ultimately show ?thesis
    using plain_name_decodes [OF assms(2,3)] assms(1)
    by (simp add: serve_note get_request_def)
qed

lemma note_link_href:
  assumes "list_all (\<lambda>c. c \<notin> {0, 34}) note_id"
    "list_all (\<lambda>(a, c). a = 38 \<longrightarrow> c \<noteq> 35 \<and> \<not> is_ascii_alnum c) (zip note_id (tl note_id))"
  shows "note_link_navigation tbl note_id = parse_path_absolute (47 # note_id)"
proof -
  have \<open>fst (dq_attribute_value (drop (length (js ''<li><a href="'')) (note_item note_id))) = 47 # note_id\<close>
    using assms(1) by (simp add: note_item_def dq_attribute_value_def takeWhile_append list_all_iff js_def)
  moreover have "list_all (\<lambda>(a, c). a = 38 \<longrightarrow> c \<noteq> 35 \<and> \<not> is_ascii_alnum c)
      (zip (47 # note_id) (tl (47 # note_id)))"
    using assms(2) by (cases note_id) auto
  then have "decode_refs tbl True (47 # note_id) = 47 # note_id"
    using assms(1) by (intro decode_refs_plain) (auto simp: list_all_iff)
  ultimately show ?thesis by (simp add: note_link_navigation_def)
qed

lemma back_link_single_segment: "back_link_navigation [seg] = Same_origin_path (js ''/'')"
  by (simp add: back_link_navigation_def end_segment_def single_dot_def double_dot_def
      serialize_path_def path_char_encode_def path_percent_encode_set_def js_def)

subsection \<open>Properties of the new-note form\<close>

text \<open>
  C27 (roundtrip): a note name typed into the form reaches the server intact. For a
  name without \<^verbatim>\<open>/ \ ? # %\<close>, line breaks or surrounding spaces, other than
  \<^verbatim>\<open>.\<close> and \<^verbatim>\<open>..\<close>, the browser navigates to a path of this server, and the
  authorized \<^verbatim>\<open>GET\<close> of that path opens the editor of the note with exactly that name:
  \<^verbatim>\<open>decodeURI\<close> undoes the browser's percent-encoding.
\<close>

theorem new_note_opens_named_note:
  assumes "authorized env (Some auth) = Inr True" "plain_note_name name" "\<forall>c \<in> set name. scalar_value c"
  shows "\<exists>p. new_note_navigation name = Some (Same_origin_path p) \<and>
    serve_request env (get_request auth p) db =
      (new_Response (templateNote name (kv_get db (note_key name))) 200 [] html_headers, db)"
  using new_note_plain_path [OF assms(2)] plain_path_opens [OF assms] by simp

theorem new_note_opens_named_note_witness:
  "plain_note_name (js ''my note'') \<and>
   new_note_navigation (js ''my note'') = Some (Same_origin_path (js ''/my%20note'')) \<and>
   serve_request demo_env (get_request (js ''Basic dTpw'') (js ''/my%20note'')) [] =
     (new_Response (templateNote (js ''my note'') None) 200 [] html_headers, [])"
proof -
  have p: "plain_note_name (js ''my note'')"
    by (simp add: plain_note_name_def c0_or_space_def tab_or_newline_def js_def)
  have s: "\<forall>c \<in> set (js ''my note''). scalar_value c"
    by (simp add: scalar_value_def is_surrogate_def js_def)
  have nav: "new_note_navigation (js ''my note'') = Some (Same_origin_path (js ''/my%20note''))"
    using new_note_plain_path [OF p]
    by (simp add: utf8_percent_encode_def path_percent_encode_set_def utf8_encode_def
        percent_byte_def hex_upper_def js_def)
  show ?thesis
    using new_note_opens_named_note [OF demo_authorized p s, of "[]"] nav p by simp
qed





text \<open>
  C38 (roundtrip): the link of a note on the list page leads to that note, and the
  note page's Back link leads to the list again. For an id that the form could have
  produced (see C27), with no double quote or NUL and no \<^verbatim>\<open>&\<close> that starts a
  character reference, the browser follows \<^verbatim>\<open>href="/id"\<close> to a one-segment path of
  this server whose authorized \<^verbatim>\<open>GET\<close> opens the editor of the note with exactly
  that id, whatever the table of named references; from that page
  \<^verbatim>\<open>href="../"\<close> resolves to \<^verbatim>\<open>/\<close>.
\<close>

theorem note_link_opens_note:
  assumes "authorized env (Some auth) = Inr True" "plain_note_name i" "\<forall>c \<in> set i. scalar_value c"
    "list_all (\<lambda>c. c \<notin> {0, 34}) i"
    "list_all (\<lambda>(a, c). a = 38 \<longrightarrow> c \<noteq> 35 \<and> \<not> is_ascii_alnum c) (zip i (tl i))"
  shows "\<exists>seg. note_link_navigation tbl i = Some (Same_origin_path (serialize_path [seg])) \<and>
    serve_request env (get_request auth (serialize_path [seg])) db =
      (new_Response (templateNote i (kv_get db (note_key i))) 200 [] html_headers, db) \<and>
    back_link_navigation [seg] = Same_origin_path (js ''/'')"
  using note_link_href [OF assms(4,5)] parse_plain_name [OF assms(2)] plain_path_opens [OF assms(1-3)]
    back_link_single_segment
  by (simp add: serialize_path_def)

theorem note_link_opens_note_witness:
  "\<exists>seg. note_link_navigation [(js ''amp;'', [38])] (js ''Tom & Jerry'') = Some (Same_origin_path (serialize_path [seg])) \<and>
    serve_request demo_env (get_request (js ''Basic dTpw'') (serialize_path [seg])) [(note_key (js ''Tom & Jerry''), js ''hi'')] =
      (new_Response (templateNote (js ''Tom & Jerry'') (Some (js ''hi''))) 200 [] html_headers,
       [(note_key (js ''Tom & Jerry''), js ''hi'')]) \<and>
    back_link_navigation [seg] = Same_origin_path (js ''/'')"
proof -
  have p: "plain_note_name (js ''Tom & Jerry'')"
    by (simp add: plain_note_name_def c0_or_space_def tab_or_newline_def js_def)
  have s: "\<forall>c \<in> set (js ''Tom & Jerry''). scalar_value c"
    by (simp add: scalar_value_def is_surrogate_def js_def)
  have q: "list_all (\<lambda>c. c \<notin> {0, 34}) (js ''Tom & Jerry'')" by (simp add: js_def)
  have r: "list_all (\<lambda>(a, c). a = 38 \<longrightarrow> c \<noteq> 35 \<and> \<not> is_ascii_alnum c)
      (zip (js ''Tom & Jerry'') (tl (js ''Tom & Jerry'')))"
    by (simp add: js_def is_ascii_alnum_def is_ascii_digit_def)
  show ?thesis
    using note_link_opens_note [OF demo_authorized p s q r, of "[(js ''amp;'', [38])]"
        "[(note_key (js ''Tom & Jerry''), js ''hi'')]"]
    by simp
qed


end
