(* ===== verification/Spec2Isabelle.thy ===== *)
theory Spec2Isabelle
  imports Client Form HTML
begin

text \<open>
  \<^bold>\<open>A verification model of the note server \<^verbatim>\<open>src/server.ts\<close>.\<close>

  The program is one Deno module. It serves a single handler (lines 10--61) that
  \<^item> checks HTTP Basic credentials against the environment variables \<^verbatim>\<open>USER\<close> and
    \<^verbatim>\<open>PASSWORD\<close> (\<^verbatim>\<open>checkAuthorization\<close>, lines 198--207, which calls \<^verbatim>\<open>atob\<close>);
  \<^item> routes by two \<^verbatim>\<open>URLPattern\<close>s (lines 3--6): \<^verbatim>\<open>/\<close> lists the notes, \<^verbatim>\<open>/:id\<close> shows
    a note (\<^verbatim>\<open>GET\<close>) or saves or deletes it (\<^verbatim>\<open>POST\<close>), anything else is 404;
  \<^item> reads and writes a Deno KV store under keys \<^verbatim>\<open>["notes", id]\<close>, after
    \<^verbatim>\<open>decodeURI\<close> of the path segment;
  \<^item> renders HTML with the template functions \<^verbatim>\<open>layout\<close>, \<^verbatim>\<open>indexNote\<close> and
    \<^verbatim>\<open>templateNote\<close> (lines 63--196).

  \<^bold>\<open>Theories.\<close>
  \<^item> \<open>Prelude\<close>: JavaScript strings as lists of code points (\<open>jstr\<close>, literals lifted
    by \<open>js\<close>), the error type \<open>js_error\<close> of the exceptions the code can raise,
    \<^verbatim>\<open>String.prototype.trim\<close> (\<open>js_trim\<close>), \<^verbatim>\<open>split\<close> with a one-character
    separator (\<open>js_split\<close>), \<^verbatim>\<open>join\<close> and indexing with \<^verbatim>\<open>undefined\<close> as \<open>None\<close>
    (\<open>js_nth\<close>), with the lemmas on fields of a split that the credential check needs.
  \<^item> \<open>Base64\<close>: \<^verbatim>\<open>atob\<close> as the WHATWG forgiving-base64 decode (a platform function,
    modelled from the standard). The bit-buffer loop of the standard (\<open>b64_loop\<close>) is
    proved equal to a group-wise decoder (\<open>decode_sextets\<close>), decoded values are bytes,
    and decoding inverts the RFC 4648 encoder \<open>base64_encode\<close> that clients use.
  \<^item> \<open>Auth\<close>: \<^verbatim>\<open>checkAuthorization\<close> line by line: the regular expression
    \<^verbatim>\<open>^Basic\s+(.*)$\<close> (\<open>match_basic\<close>), \<^verbatim>\<open>atob\<close>, \<^verbatim>\<open>split(":")\<close>, the destructuring
    of the first two fields and the two strict comparisons with the environment
    (\<open>auth_env\<close>, \<^verbatim>\<open>undefined\<close> as \<open>None\<close>). \<open>checkAuthorization_True_iff\<close> characterises
    acceptance exactly; the properties follow from it.
  \<^item> \<open>URI\<close>: \<^verbatim>\<open>decodeURI\<close> from ECMA-262 (\<open>Decode\<close> with the reserved set
    \<^verbatim>\<open>;/?:@&=+$,#\<close>), UTF-8 encoding and decoding and the WHATWG percent-encoding of
    the URL parser; \<^verbatim>\<open>decodeURI\<close> is total (termination by the length of the
    input) and inverts percent-encoding.
  \<^item> \<open>Router\<close>: the two patterns as tests of the pathname, and their use on
    \<^verbatim>\<open>req.url\<close> (\<open>route_home\<close>, \<open>route_note\<close>) through the URL parser's reading of the
    request target.
  \<^item> \<open>KV\<close>: Deno KV as a strictly sorted association list (\<open>kv_inv\<close>), with
    \<^verbatim>\<open>get\<close>, \<^verbatim>\<open>set\<close>, \<^verbatim>\<open>delete\<close> and \<^verbatim>\<open>list({prefix})\<close>; each operation refines the
    corresponding operation on the finite map \<open>map_of\<close> and keeps the invariant.
    The iterator that \<^verbatim>\<open>list\<close> returns is a cursor (\<open>kv_next\<close>): each step
    yields the first entry after the key yielded last.
  \<^item> \<open>Views\<close>: the three template functions, with every template literal copied
    character for character from the source.
  \<^item> \<open>Handler\<close>: the request and response records, each branch of the handler
    (\<open>unauthorized\<close>, \<open>authorized\<close>, \<open>home_response\<close>, \<open>note_route\<close>, \<open>not_found\<close>)
    composed by \<open>handler\<close> in the source's order; the \<^verbatim>\<open>for await\<close> loop of the
    list page is \<open>collect_ids\<close>, a \<open>function\<close> whose termination proof is the
    cursor's progress; \<open>serve_request\<close> adds the 500
    answer of \<^verbatim>\<open>serve\<close> for a thrown exception, \<open>serve_all\<close> runs a sequence of
    requests, and \<open>reachable_store\<close> is the step relation of the store.
  \<^item> \<open>Client\<close>: the autosave script of the note page (lines 100--111) running
    against the server: the \<^verbatim>\<open>sending\<close> flag, the \<^verbatim>\<open>keyup\<close> listener
    (\<open>keyup\<close>), the requests in flight and the store, stepped by user input, key-ups,
    answers and network errors (\<open>client_step\<close>, \<open>client_run\<close>).
  \<^item> \<open>URL\<close>: the part of the WHATWG URL parser a browser runs on
    \<^verbatim>\<open>'/' + name\<close> against the page's URL: preprocessing, the relative slash state
    (a second slash starts a host) and the path state (dot segments, the path
    percent-encode set, \<^verbatim>\<open>?\<close> and \<^verbatim>\<open>#\<close>), and the server's parse of an origin-form
    request target (\<open>server_pathname\<close>).
  \<^item> \<open>Form\<close>: the new-note form of the list page (lines 78--85), composed with
    \<open>URL\<close>, the router, \<^verbatim>\<open>decodeURI\<close> and the handler, and the links of the list page
    (\<open>note_link_navigation\<close>) and the Back link of the note page
    (\<open>back_link_navigation\<close>, the URL parser's relative state on \<^verbatim>\<open>../\<close>).
  \<^item> \<open>HTML\<close>: the part of the WHATWG HTML parser that reads the pages back:
    newline normalisation, the RCDATA text of \<^verbatim>\<open>title\<close> and \<^verbatim>\<open>textarea\<close> up to an
    appropriate end tag, character references (\<open>char_ref\<close>, \<open>decode_refs\<close>:
    numeric ones by the standard's rules, with U+FFFD for zero, surrogates and values
    beyond U+10FFFF and the C1 replacement table; named ones by the longest match in
    a table passed as a parameter), the initial value of the editing field, and
    double-quoted attribute values.

  The state of the program is the KV store; one request is one step
  \<open>serve_request env req db = (response, db')\<close>. Exceptions are the \<open>Inl\<close> branch of
  \<open>js_error + _\<close>; the handler performs no write before it can throw, so a throw
  leaves the store unchanged.

  \<^bold>\<open>What the properties show.\<close> The credential check lets in exactly the headers
  whose token decodes to \<^verbatim>\<open>USER:PASSWORD\<close> (possibly followed by \<^verbatim>\<open>:\<close> and more),
  and a standard client; the handler answers 401 and writes nothing to an
  unauthenticated request; the store invariant holds on every reachable store; a save
  followed by a load returns the saved text inside the page's \<^verbatim>\<open>textarea\<close>; a
  \<^verbatim>\<open>POST\<close> refines the update of the abstract map from ids to bodies; the home page
  lists the stored ids in key order; replaying a request is idempotent; and the
  error paths (invalid base64, malformed escapes, unknown paths) give 500 or 404
  without a write; every response has one of four statuses and exactly one
  content type; the listing loop equals the reference listing and stops after at
  most one step per entry. A note name typed into the form reaches the server
  intact and the list page's link leads back to the note, an ordinary body is the
  editing field's initial value, the store is a canonical representation of the
  notes map (it does not depend on the order of writes), and the title of a
  note page can never be closed by the id. On the page, the flag keeps at most one save in flight and a
  user who waits for each save gets the last value stored. Several properties record where the code differs from what a
  reader expects: a password with a colon can never be entered, a third field is
  ignored, an unset \<^verbatim>\<open>PASSWORD\<close> accepts the header without a password, a user name
  beyond Latin-1 can never log in, and an escaped reserved character such as
  \<^verbatim>\<open>%2F\<close> stays escaped in the stored id; on the page, an edit typed while a save
  is in flight is never sent, and one network error stops autosave for good; a
  name with \<^verbatim>\<open>%\<close>, a slash or a dot segment does not open the note it names, and
  one starting with a slash leaves the site; a body with \<^verbatim>\<open></textarea>\<close> injects
  markup into the page, a body starting with a line feed loses it on the next
  autosave, a body holding a character reference such as \<^verbatim>\<open>&#38;\<close> is decoded on
  the page and saved decoded by the next autosave, and an id with a double quote ends the link's attribute on the list page;
  an id with \<^verbatim>\<open>%\<close> (saved through \<^verbatim>\<open>%25\<close>) is listed with a link that gets a 500;
  dot segments and queries of a request target are resolved before routing and a
  trailing slash is 404; and the scheme \<^verbatim>\<open>Basic\<close> is matched case-sensitively.

  \<^bold>\<open>No fuel, no bounds.\<close> Every function of the model is total: the iterations of the
  source over characters and events are structural recursion; the listing loop
  terminates because the cursor passes one entry of the finite store per step;
  \<^verbatim>\<open>decodeURI\<close> and the newline normalisation terminate by the length of their
  argument.

  \<^bold>\<open>Not modelled.\<close> Request targets other than origin form, and the way Deno
  assembles \<^verbatim>\<open>req.url\<close> beyond joining host and target; HTTP transport, header parsing and TLS, which belong to Deno; the
  persistence, versioning and concurrency of Deno KV (requests are handled one at a
  time, and each \<^verbatim>\<open>await\<close> of the handler is taken to complete before the next
  request); the CSS of the layout, which is inert text here; the URL parser beyond
  path-absolute input and the Back link; the HTML parser beyond the text of
  \<^verbatim>\<open>title\<close> and \<^verbatim>\<open>textarea\<close> and the attribute of each link (the tree builder,
  the script and tag states); and the contents of the table of named character
  references (2231 names in the standard), which is a parameter: the properties
  that read a page hold for every table, and their witnesses use a table with the
  standard's entry for \<^verbatim>\<open>&amp;\<close>.
\<close>

subsection \<open>Properties spanning the components\<close>

text \<open>
  C4 (round trip): a note saved by an authorized \<^verbatim>\<open>POST\<close> with a
  non-blank body is what the next \<^verbatim>\<open>GET\<close> of the same path shows:
  the page is \<^verbatim>\<open>templateNote\<close> of the decoded id and the body,
  and the body stands between the \<^verbatim>\<open>textarea\<close> tags of the page.
\<close>

theorem serve_post_then_get:
  assumes "authorized env (Some h) = Inr True" "note_exec p = Some raw" "decodeURI raw = Some nid"
    "js_trim b \<noteq> []"
  shows \<open>let resps = fst (serve_all env
      [\<lparr>req_method = js ''POST'', req_pathname = p, req_authorization = Some h, req_body = b\<rparr>,
       \<lparr>req_method = js ''GET'', req_pathname = p, req_authorization = Some h, req_body = []\<rparr>] db)
    in resps ! 1 = new_Response (templateNote nid (Some b)) 200 [] html_headers
       \<and> sublist (js ''<textarea id="text" placeholder="Write here your notes" autofocus>'' @ b
                  @ js ''</textarea>'') (body (resps ! 1))\<close>
proof -
  have get: "kv_get (kv_set (note_key nid) b db) (note_key nid) = Some b"
    by (simp add: kv_get_map_of map_of_kv_set)
  have "js ''GET'' \<noteq> js ''POST''" by (simp add: js_def)
  then show ?thesis
    using assms get templateNote_textarea [of "Some b" nid]
    by (simp add: serve_note Let_def or_empty_nonblank new_Response_def)
qed

theorem serve_post_then_get_witness:
  \<open>let resps = fst (serve_all demo_env [demo_req ''POST'' ''/abc'' ''hi'', demo_req ''GET'' ''/abc'' ''''] [])
    in resps ! 1 = new_Response (templateNote (js ''abc'') (Some (js ''hi''))) 200 [] html_headers
       \<and> sublist (js ''<textarea id="text" placeholder="Write here your notes" autofocus>'' @ js ''hi''
                  @ js ''</textarea>'') (body (resps ! 1))\<close>
proof -
  have e: "note_exec (js ''/abc'') = Some (js ''abc'')" by (simp add: note_exec_def jstr_simps)
  have d: "decodeURI (js ''abc'') = Some (js ''abc'')" by (rule decodeURI_no_percent) (simp add: jstr_simps)
  have h: "js_trim (js ''hi'') \<noteq> []" by (subst js_trim_hi) (simp add: jstr_simps)
  show ?thesis
    using serve_post_then_get [OF demo_authorized e d h, of "[]"] by simp
qed

text \<open>
  C7 (functional): a session of requests from the empty store (create note a, create
  note b, delete b by a blank save, list) answers \<^verbatim>\<open>OK\<close> three
  times, then the list page of exactly note a, and leaves only note a in the store.
\<close>

theorem serve_all_scenario:
  assumes "authorized env (Some h) = Inr True" "a \<noteq> b" "a \<noteq> []" "b \<noteq> []"
    "47 \<notin> set a" "47 \<notin> set b" "37 \<notin> set a" "37 \<notin> set b"
    "js_trim x \<noteq> []" "js_trim y \<noteq> []" "js_trim e = []"
  shows "serve_all env
     [\<lparr>req_method = js ''POST'', req_pathname = 47 # a, req_authorization = Some h, req_body = x\<rparr>,
      \<lparr>req_method = js ''POST'', req_pathname = 47 # b, req_authorization = Some h, req_body = y\<rparr>,
      \<lparr>req_method = js ''POST'', req_pathname = 47 # b, req_authorization = Some h, req_body = e\<rparr>,
      \<lparr>req_method = js ''GET'', req_pathname = [47], req_authorization = Some h, req_body = []\<rparr>] []
   = ([new_Response (js ''OK'') 200 [] [], new_Response (js ''OK'') 200 [] [],
       new_Response (js ''OK'') 200 [] [], new_Response (indexNote [a]) 200 [] html_headers],
      [(note_key a, x)])"
proof -
  have "kv_delete (note_key b) (kv_set (note_key b) y [(note_key a, x)]) = [(note_key a, x)]"
    using assms(2) by (auto simp: note_key_def)
  moreover have "note_ids [(note_key a, x)] = [a]"
    by (simp add: note_ids_listing kv_inv_def kv_strict_prefix_def note_key_def)
  ultimately show ?thesis
    using assms by (simp add: serve_plain_segment serve_home home_test_def home_response_def)
qed

theorem serve_all_scenario_witness:
  "js ''a'' \<noteq> js ''b'' \<and> js_trim (js ''hi'') \<noteq> [] \<and> js_trim (js '' '') = [] \<and>
   serve_all demo_env [demo_req ''POST'' ''/a'' ''hi'', demo_req ''POST'' ''/b'' ''hi'',
      demo_req ''POST'' ''/b'' '' '', demo_req ''GET'' ''/'' ''''] []
   = ([new_Response (js ''OK'') 200 [] [], new_Response (js ''OK'') 200 [] [],
       new_Response (js ''OK'') 200 [] [], new_Response (indexNote [js ''a'']) 200 [] html_headers],
      [(note_key (js ''a''), js ''hi'')])"
proof -
  have h: "js_trim (js ''hi'') \<noteq> []" by (subst js_trim_hi) (simp add: jstr_simps)
  have p: "js ''/a'' = 47 # js ''a''" "js ''/b'' = 47 # js ''b''" "js ''/'' = [47]" by (simp_all add: jstr_simps)
  show ?thesis
    using serve_all_scenario [OF demo_authorized, of "js ''a''" "js ''b''" "js ''hi''" "js ''hi''" "js '' ''"]
      h js_trim_blank by (simp add: p jstr_simps)
qed



text \<open>
  C33 (functional): a note that starts with a line feed loses it. The browser drops a
  line feed right after the start tag of the editing field, so the page opens with
  the body minus its first line feed; the first key-up then saves that value, and the
  stored note has changed although the user edited nothing.
\<close>

theorem reload_strips_leading_newline:
  assumes "authorized env (Some auth) = Inr True" "note_exec path = Some raw" "decodeURI raw = Some nid"
    "\<not> sublist [60, 47] r" "list_all (\<lambda>c. c \<notin> {0, 13, 38}) r" "js_trim r \<noteq> []"
  shows "\<exists>pre post. templateNote nid (Some (10 # r)) = pre @ textarea_open @ (10 # r) @ js ''</textarea>'' @ post
    \<and> textarea_value tbl ((10 # r) @ js ''</textarea>'' @ post) = r
    \<and> kv_get (store (client_run env path auth [KeyUp, Respond] (client_init r db))) (note_key nid) = Some r"
proof -
  obtain pre post where e: "templateNote nid (Some (10 # r)) = pre @ textarea_open @ (10 # r) @ js ''</textarea>'' @ post"
    using templateNote_some_shape by blast
  have nl: "\<not> sublist [60, 47] (10 # r)" "13 \<notin> set (10 # r)"
    using assms(4,5) by (auto simp: sublist_Cons_right list_all_iff)
  have "38 \<notin> set (10 # r)" "0 \<notin> set (10 # r)" using assms(5) by (auto simp: list_all_iff)
  then have v: "textarea_value tbl ((10 # r) @ js ''</textarea>'' @ post) = r"
    using textarea_value_plain [OF nl, of tbl post] decode_refs_append [of "10 # r" tbl False "[]"] by simp
  have s: "kv_get (store (client_run env path auth [KeyUp, Respond] (client_init r db))) (note_key nid) = Some r"
    using serve_save_nonblank [OF assms(1-3,6), of db] by (simp add: client_init_def keyup_def)
  from e v s show ?thesis by blast
qed

theorem reload_strips_leading_newline_witness:
  "\<exists>pre post. templateNote (js ''x'') (Some (10 # js ''hi'')) = pre @ textarea_open @ (10 # js ''hi'') @ js ''</textarea>'' @ post
    \<and> textarea_value [] ((10 # js ''hi'') @ js ''</textarea>'' @ post) = js ''hi''
    \<and> kv_get (store (client_run demo_env (js ''/x'') (js ''Basic dTpw'') [KeyUp, Respond] (client_init (js ''hi'') [])))
        (note_key (js ''x'')) = Some (js ''hi'')"
proof -
  have e: "note_exec (js ''/x'') = Some (js ''x'')" by (simp add: note_exec_def jstr_simps)
  have d: "decodeURI (js ''x'') = Some (js ''x'')" by (rule decodeURI_no_percent) (simp add: jstr_simps)
  have h: "js_trim (js ''hi'') \<noteq> []" by (subst js_trim_hi) (simp add: jstr_simps)
  have p: "\<not> sublist [60, 47] (js ''hi'')" "list_all (\<lambda>c. c \<notin> {0, 13, 38}) (js ''hi'')"
    by (simp_all add: js_def sublist_Cons_right)
  show ?thesis by (rule reload_strips_leading_newline [OF demo_authorized e d p h])
qed

text \<open>
  C14 (functional): a note that holds a character reference changes when it is
  opened. The body is written into the editing field unescaped, and the HTML
  parser decodes references there: a note holding the text \<^verbatim>\<open>&#38;\<close> opens with
  \<^verbatim>\<open>&\<close> in its place, whatever the table of named references, and the first
  key-up saves that text, so the stored note changes although the user did not edit
  that part of it.
\<close>

theorem reload_decodes_references:
  assumes "authorized env (Some auth) = Inr True" "note_exec path = Some raw" "decodeURI raw = Some nid"
    "\<not> sublist [60, 47] (x @ js ''&#38;'' @ y)" "list_all (\<lambda>c. c \<notin> {0, 13, 38}) (x @ y)"
    "x = [] \<or> hd x \<noteq> 10"
  shows "\<exists>pre post. templateNote nid (Some (x @ js ''&#38;'' @ y)) =
      pre @ textarea_open @ (x @ js ''&#38;'' @ y) @ js ''</textarea>'' @ post
    \<and> textarea_value tbl ((x @ js ''&#38;'' @ y) @ js ''</textarea>'' @ post) = x @ 38 # y
    \<and> kv_get (store (client_run env path auth [KeyUp, Respond] (client_init (x @ 38 # y) db))) (note_key nid)
      = Some (x @ 38 # y)
    \<and> x @ 38 # y \<noteq> x @ js ''&#38;'' @ y"
proof -
  let ?b = "x @ js ''&#38;'' @ y"
  obtain pre post where e: "templateNote nid (Some ?b) = pre @ textarea_open @ ?b @ js ''</textarea>'' @ post"
    using templateNote_some_shape by blast
  have xy: "38 \<notin> set x" "0 \<notin> set x" "38 \<notin> set y" "0 \<notin> set y" "13 \<notin> set ?b"
    using assms(5) by (auto simp: list_all_iff js_def)
  have "decode_refs tbl False ?b = x @ 38 # y"
    using decode_refs_append [OF xy(1,2)] decode_refs_amp_ref decode_refs_append [OF xy(3,4), of tbl False "[]"]
    by simp
  moreover have "x @ 38 # y = [] \<or> hd (x @ 38 # y) \<noteq> 10" using assms(6) by (cases x) auto
  ultimately have v: "textarea_value tbl (?b @ js ''</textarea>'' @ post) = x @ 38 # y"
    using textarea_value_plain [OF assms(4) xy(5), of tbl post] by auto
  have "js_trim (x @ 38 # y) \<noteq> []"
    by (auto simp: js_trim_empty_iff js_ws_def js_line_terminator_def)
  then have s: "kv_get (store (client_run env path auth [KeyUp, Respond] (client_init (x @ 38 # y) db)))
      (note_key nid) = Some (x @ 38 # y)"
    using serve_save_nonblank [OF assms(1-3)] by (simp add: client_init_def keyup_def)
  have "x @ 38 # y \<noteq> ?b" by (simp add: js_def)
  with e v s show ?thesis by blast
qed

theorem reload_decodes_references_witness:
  "\<exists>pre post. templateNote (js ''x'') (Some (js ''a '' @ js ''&#38;'' @ js '' b'')) =
      pre @ textarea_open @ (js ''a '' @ js ''&#38;'' @ js '' b'') @ js ''</textarea>'' @ post
    \<and> textarea_value [(js ''amp;'', [38])] ((js ''a '' @ js ''&#38;'' @ js '' b'') @ js ''</textarea>'' @ post)
      = js ''a '' @ 38 # js '' b''
    \<and> kv_get (store (client_run demo_env (js ''/x'') (js ''Basic dTpw'') [KeyUp, Respond]
        (client_init (js ''a '' @ 38 # js '' b'') []))) (note_key (js ''x'')) = Some (js ''a '' @ 38 # js '' b'')
    \<and> js ''a '' @ 38 # js '' b'' \<noteq> js ''a '' @ js ''&#38;'' @ js '' b''"
proof -
  have e: "note_exec (js ''/x'') = Some (js ''x'')" by (simp add: note_exec_def jstr_simps)
  have d: "decodeURI (js ''x'') = Some (js ''x'')" by (rule decodeURI_no_percent) (simp add: jstr_simps)
  have p: "\<not> sublist [60, 47] (js ''a '' @ js ''&#38;'' @ js '' b'')"
    "list_all (\<lambda>c. c \<notin> {0, 13, 38}) (js ''a '' @ js '' b'')" "js ''a '' = [] \<or> hd (js ''a '') \<noteq> 10"
    by (simp_all add: js_def sublist_Cons_right)
  show ?thesis by (rule reload_decodes_references [OF demo_authorized e d p])
qed

text \<open>
  C34 (safety): the note's name can never break out of the page title. Whatever path
  a request names, the id that \<^verbatim>\<open>decodeURI\<close> yields has no slash (an escaped
  \<^verbatim>\<open>%2F\<close> stays escaped), so the browser's title element ends exactly at the
  template's \<^verbatim>\<open></title>\<close> and holds the id as text.
\<close>

theorem note_page_title_intact:
  assumes "authorized env (req_authorization req) = Inr True" "note_exec (req_pathname req) = Some raw"
    "decodeURI raw = Some nid" "req_method req \<noteq> js ''POST''"
  shows "\<exists>pre post. body (fst (serve_request env req db)) = pre @ js ''<title>'' @ nid @ js ''</title>'' @ post
    \<and> fst (rcdata_element (js ''title'') (nid @ js ''</title>'' @ post)) = normalize_newlines nid"
proof -
  have "47 \<notin> set raw" using assms(2) by (simp add: note_exec_Some_iff)
  then have ns: "47 \<notin> set nid" using assms(3) by (rule decodeURI_no_slash)
  have b: "body (fst (serve_request env req db)) = templateNote nid (kv_get db (note_key nid))"
    using assms by (simp add: serve_note new_Response_def)
  obtain pre post where "templateNote nid (kv_get db (note_key nid)) = pre @ js ''<title>'' @ nid @ js ''</title>'' @ post"
    using layout_title unfolding templateNote_def by blast
  with b title_element_no_slash [OF ns] show ?thesis by auto
qed

theorem note_page_title_intact_witness:
  "\<exists>pre post. body (fst (serve_request demo_env (demo_req ''GET'' ''/a%2Fb'' '''') [])) =
      pre @ js ''<title>'' @ js ''a%2Fb'' @ js ''</title>'' @ post
    \<and> fst (rcdata_element (js ''title'') (js ''a%2Fb'' @ js ''</title>'' @ post)) = normalize_newlines (js ''a%2Fb'')"
proof -
  have e: "note_exec (req_pathname (demo_req ''GET'' ''/a%2Fb'' '''')) = Some (js ''a%2Fb'')"
    by (simp add: note_exec_def js_def)
  have d: "decodeURI (js ''a%2Fb'') = Some (js ''a%2Fb'')"
    by (simp add: js_def parse_hex_octet_def hex_digit_value_def uri_reserved_def octet_leading_ones_def)
  have m: "req_method (demo_req ''GET'' ''/a%2Fb'' '''') \<noteq> js ''POST''" by simp
  have a: "authorized demo_env (req_authorization (demo_req ''GET'' ''/a%2Fb'' '''')) = Inr True"
    using demo_authorized by simp
  show ?thesis by (rule note_page_title_intact [OF a e d m])
qed

end
